(* ===== verification/Prelude.thy ===== *)
theory Prelude
  imports Main "HOL-Library.AList" "HOL-Library.Sublist"
begin

section \<open>Prelude: Go strings, maps and results\<close>

text \<open>
  What every component of the gateway uses: the functions of Go's package \<^verbatim>\<open>strings\<close>
  that the sources call (on byte strings, \<^verbatim>\<open>char list\<close> here), the type of fallible
  results, and the fact collections of the development. The helper
  \<^verbatim>\<open>EnsurePrefix\<close> of \<^verbatim>\<open>internal/strings/strings.go\<close> is modelled here too.
\<close>

named_theorems go_strings "facts on the string functions"
named_theorems store_simps "what the store operations do to the contents of a store"
named_theorems handler_defs "definitions of the steps of a handler"

subsection \<open>Results\<close>

text \<open>A Go function that returns a value and an error: \<open>Inl\<close> is the error.\<close>

type_synonym ('e, 'a) res = "'e + 'a"

lemma sum_case_Inr [simp]:
  "(case r of Inl e \<Rightarrow> Inl e | Inr x \<Rightarrow> f x) = Inr y \<longleftrightarrow> (\<exists>x. r = Inr x \<and> f x = Inr y)"
  by (cases r) auto

subsection \<open>strings.Split, strings.Join\<close>

fun split_on :: "char \<Rightarrow> string \<Rightarrow> string list" where
  "split_on c [] = [[]]"
| "split_on c (x # xs) =
     (if x = c then [] # split_on c xs
      else (case split_on c xs of [] \<Rightarrow> [[x]] | p # ps \<Rightarrow> (x # p) # ps))"

fun join_with :: "string \<Rightarrow> string list \<Rightarrow> string" where
  "join_with sep [] = []"
| "join_with sep [x] = x"
| "join_with sep (x # y # ys) = x @ sep @ join_with sep (y # ys)"

lemma split_on_not_Nil [simp]: "split_on c s \<noteq> []"
  by (induction s) (auto split: list.splits)

lemma split_on_no_sep: "p \<in> set (split_on c s) \<Longrightarrow> c \<notin> set p"
proof (induction s arbitrary: p)
  case Nil
  then show ?case by simp
next
  case (Cons x xs)
  then show ?case
    by (cases "split_on c xs") (auto split: if_splits)
qed

lemma join_with_Cons: "ps \<noteq> [] \<Longrightarrow> join_with sep (p # ps) = p @ sep @ join_with sep ps"
  by (cases ps) auto

lemma join_split [go_strings]: "join_with [c] (split_on c s) = s"
proof (induction s)
  case Nil
  then show ?case by simp
next
  case (Cons x xs)
  obtain p ps where s: "split_on c xs = p # ps" by (cases "split_on c xs") auto
  with Cons.IH show ?case by (cases ps) auto
qed

lemma split_on_no_sep_id [go_strings]: "c \<notin> set p \<Longrightarrow> split_on c p = [p]"
  by (induction p) auto

lemma split_on_append [go_strings]:
  "c \<notin> set p \<Longrightarrow> split_on c (p @ c # s) = p # split_on c s"
  by (induction p) auto

lemma split_join [go_strings]:
  "ps \<noteq> [] \<Longrightarrow> \<forall>p \<in> set ps. c \<notin> set p \<Longrightarrow> split_on c (join_with [c] ps) = ps"
proof (induction ps)
  case Nil
  then show ?case by simp
next
  case (Cons p ps)
  then show ?case
    by (cases "ps = []") (auto simp: join_with_Cons split_on_append split_on_no_sep_id)
qed

lemma split_on_inject [go_strings]: "split_on c s = split_on c t \<longleftrightarrow> s = t"
  by (metis join_split)

subsection \<open>strings.HasPrefix, HasSuffix, TrimPrefix, TrimLeft\<close>

definition has_prefix :: "string \<Rightarrow> string \<Rightarrow> bool" where
  "has_prefix s p \<longleftrightarrow> take (length p) s = p"

definition has_suffix :: "string \<Rightarrow> string \<Rightarrow> bool" where
  "has_suffix s p \<longleftrightarrow> length p \<le> length s \<and> drop (length s - length p) s = p"

definition trim_prefix :: "string \<Rightarrow> string \<Rightarrow> string" where
  "trim_prefix s p = (if has_prefix s p then drop (length p) s else s)"

text \<open>\<^verbatim>\<open>strings.TrimLeft\<close> removes every leading byte that is in the cutset.\<close>

definition trim_left :: "string \<Rightarrow> string \<Rightarrow> string" where
  "trim_left s cutset = dropWhile (\<lambda>c. c \<in> set cutset) s"

lemma has_prefix_iff [go_strings]: "has_prefix s p \<longleftrightarrow> (\<exists>t. s = p @ t)"
  unfolding has_prefix_def by (metis append_eq_conv_conj append_take_drop_id)

lemma has_prefix_append [simp]: "has_prefix (p @ t) p"
  by (auto simp: has_prefix_iff)

lemma has_prefix_Nil [simp]: "has_prefix s []"
  by (simp add: has_prefix_def)

lemma has_prefix_self [simp]: "has_prefix p p"
  by (simp add: has_prefix_def)

lemma has_prefix_single [simp]: "has_prefix (x # xs) [c] \<longleftrightarrow> x = c" "\<not> has_prefix [] [c]"
  by (auto simp: has_prefix_def)

lemma trim_prefix_append [simp, go_strings]: "trim_prefix (p @ t) p = t"
  by (simp add: trim_prefix_def)

lemma trim_prefix_inverse: "has_prefix s p \<Longrightarrow> p @ trim_prefix s p = s"
  by (auto simp: has_prefix_iff)

lemma has_suffix_iff [go_strings]: "has_suffix s p \<longleftrightarrow> (\<exists>t. s = t @ p)"
  unfolding has_suffix_def
  by (metis add_diff_cancel_right' append_eq_conv_conj append_take_drop_id le_add2 length_append)

subsection \<open>EnsurePrefix (internal/strings)\<close>

definition EnsurePrefix :: "string \<Rightarrow> string \<Rightarrow> string" where
  "EnsurePrefix s p = (if has_prefix s p then s else p @ s)"

lemma EnsurePrefix_has [simp]: "has_prefix (EnsurePrefix s p) p"
  by (auto simp: EnsurePrefix_def)

lemma EnsurePrefix_idem [simp]: "EnsurePrefix (EnsurePrefix s p) p = EnsurePrefix s p"
  by (simp add: EnsurePrefix_def)

subsection \<open>Keys made of two parts\<close>

text \<open>
  \<^verbatim>\<open>FunctionKey\<close>, \<^verbatim>\<open>EventTypeKey\<close>, \<^verbatim>\<open>CORSKey\<close> and \<^verbatim>\<open>subscriptionPath\<close> all print
  as \<^verbatim>\<open>space + "/" + id\<close>; the text determines both parts when the space has no slash.
\<close>

lemma slash_key_inject:
  "c \<notin> set a \<Longrightarrow> c \<notin> set a' \<Longrightarrow> a @ c # b = a' @ c # b' \<longleftrightarrow> a = a' \<and> b = b'"
proof (induction a arbitrary: a')
  case Nil
  then show ?case by (cases a') auto
next
  case (Cons x xs)
  then show ?case by (cases a') auto
qed

lemma slash_key_prefix:
  "c \<notin> set a \<Longrightarrow> c \<notin> set a' \<Longrightarrow> has_prefix (a @ c # b) (a' @ [c]) \<longleftrightarrow> a = a'"
  by (auto simp: has_prefix_iff slash_key_inject)

subsection \<open>Association lists as Go maps\<close>

lemma map_of_update [simp]: "map_of (AList.update k v al) = (map_of al)(k \<mapsto> v)"
  by (rule ext) (simp add: update_conv')

lemma map_of_delete [simp]: "map_of (AList.delete k al) = (map_of al)(k := None)"
  by (rule ext) (simp add: delete_conv')

lemma set_update_cases:
  "(k', v') \<in> set (AList.update k v al) \<Longrightarrow> (k', v') = (k, v) \<or> (k', v') \<in> set al"
  by (induction al) (auto split: if_splits)

lemma in_set_update: "(k, v) \<in> set (AList.update k v al)"
  by (induction al) auto

lemma update_not_Nil [simp]: "AList.update k v al \<noteq> []"
  by (induction al) auto

lemma set_delete_subset: "(k', v') \<in> set (AList.delete k al) \<Longrightarrow> (k', v') \<in> set al"
  by (auto simp: AList.delete_eq)

lemma length_update_single:
  "length al \<le> 1 \<Longrightarrow> map_of al k = Some x \<Longrightarrow> length (AList.update k v al) \<le> 1"
  by (cases al) (auto split: if_splits)

lemma map_of_Nil_iff: "map_of al = Map.empty \<longleftrightarrow> al = []"
  by (cases al) (auto dest: fun_cong)

end
