(* ===== verification/Encoding.thy ===== *)
theory Encoding
  imports Prelude
begin

section \<open>Text encodings of identifiers\<close>

text \<open>
  The two encodings of the standard library from which the identifiers of subscriptions
  and CORS configurations are built: \<^verbatim>\<open>url.PathEscape\<close> (Go 1.9, mode
  \<^verbatim>\<open>encodePathSegment\<close>) and \<^verbatim>\<open>base64.RawURLEncoding\<close>. Both are injective, proved
  by a decoder for each. A string is a list of bytes. \<^verbatim>\<open>strings.ToUpper\<close>, which is
  applied to HTTP methods, is modelled on ASCII letters.
\<close>

abbreviation byte :: "char \<Rightarrow> nat" where
  "byte c \<equiv> of_char c"

lemma byte_less [simp]: "byte c < 256"
  by simp

lemma char_of_byte [simp]: "char_of (byte c) = c"
  by simp

subsection \<open>Letters and digits\<close>

definition is_upper :: "char \<Rightarrow> bool" where
  "is_upper c \<longleftrightarrow> 65 \<le> byte c \<and> byte c \<le> 90"

definition is_lower :: "char \<Rightarrow> bool" where
  "is_lower c \<longleftrightarrow> 97 \<le> byte c \<and> byte c \<le> 122"

definition is_digit :: "char \<Rightarrow> bool" where
  "is_digit c \<longleftrightarrow> 48 \<le> byte c \<and> byte c \<le> 57"

definition is_alnum :: "char \<Rightarrow> bool" where
  "is_alnum c \<longleftrightarrow> is_upper c \<or> is_lower c \<or> is_digit c"

definition upper_char :: "char \<Rightarrow> char" where
  "upper_char c = (if is_lower c then char_of (byte c - 32) else c)"

definition lower_char :: "char \<Rightarrow> char" where
  "lower_char c = (if is_upper c then char_of (byte c + 32) else c)"

definition ToUpper :: "string \<Rightarrow> string" where
  "ToUpper s = map upper_char s"

subsection \<open>url.PathEscape\<close>

definition should_escape :: "char \<Rightarrow> bool" where
  "should_escape c \<longleftrightarrow> \<not> is_alnum c \<and> c \<notin> set ''-_.~'' \<and> c \<notin> set ''$&+:=@''"

definition hex_digit :: "nat \<Rightarrow> char" where
  "hex_digit n = ''0123456789ABCDEF'' ! n"

definition escape_char :: "char \<Rightarrow> string" where
  "escape_char c =
     (if should_escape c then [CHR ''%'', hex_digit (byte c div 16), hex_digit (byte c mod 16)] else [c])"

definition PathEscape :: "string \<Rightarrow> string" where
  "PathEscape s = concat (map escape_char s)"

definition unhex :: "char \<Rightarrow> nat" where
  "unhex c = (if is_digit c then byte c - 48 else byte c - 55)"

fun path_unescape :: "string \<Rightarrow> string" where
  "path_unescape [] = []"
| "path_unescape (x # s) =
     (if x = CHR ''%'' then
        (case s of a # b # t \<Rightarrow> char_of (16 * unhex a + unhex b) # path_unescape t | _ \<Rightarrow> [])
      else x # path_unescape s)"

lemma unhex_hex_digit: "n < 16 \<Longrightarrow> unhex (hex_digit n) = n"
proof -
  have "\<forall>n \<in> set [0..<16]. unhex (hex_digit n) = n" by code_simp
  then show "n < 16 \<Longrightarrow> ?thesis" by simp
qed

lemma nibbles: "byte c div 16 < 16" "byte c mod 16 < 16"
  by (rule less_mult_imp_div_less, use byte_less [of c] in linarith, rule mod_less_divisor, simp)

lemma percent_escaped: "should_escape (CHR ''%'')"
  by code_simp

lemma path_unescape_escape: "path_unescape (PathEscape s) = s"
proof (induction s)
  case Nil
  then show ?case by (simp add: PathEscape_def)
next
  case (Cons c s)
  have "16 * unhex (hex_digit (byte c div 16)) + unhex (hex_digit (byte c mod 16)) = byte c"
    unfolding unhex_hex_digit [OF nibbles(1)] unhex_hex_digit [OF nibbles(2)] by (rule mult_div_mod_eq)
  moreover have "c = CHR ''%'' \<Longrightarrow> should_escape c" using percent_escaped by simp
  ultimately show ?case using Cons by (auto simp: PathEscape_def escape_char_def)
qed

lemma PathEscape_inject: "PathEscape s = PathEscape t \<longleftrightarrow> s = t"
  by (metis path_unescape_escape)

lemma PathEscape_no_slash:
  assumes "c \<in> set (PathEscape s)"
  shows "is_alnum c \<or> c \<in> set ''-_.~$&+:=@%''"
proof -
  from assms obtain d where "c \<in> set (escape_char d)" by (auto simp: PathEscape_def)
  moreover have "\<forall>n \<in> set [0..<16]. is_alnum (hex_digit n)" by code_simp
  then have "is_alnum (hex_digit (byte d div 16))" "is_alnum (hex_digit (byte d mod 16))"
    using nibbles [of d] by (metis atLeast_upt lessThan_iff)+
  ultimately show ?thesis by (auto simp: escape_char_def should_escape_def split: if_splits)
qed

subsection \<open>base64.RawURLEncoding\<close>

text \<open>The alphabet: \<^verbatim>\<open>A-Z\<close>, \<^verbatim>\<open>a-z\<close>, \<^verbatim>\<open>0-9\<close>, \<^verbatim>\<open>-\<close> and \<^verbatim>\<open>_\<close>.\<close>

definition b64_digit :: "nat \<Rightarrow> char" where
  "b64_digit n =
     (if n < 26 then char_of (65 + n) else if n < 52 then char_of (71 + n)
      else if n < 62 then char_of (n - 4) else if n = 62 then CHR ''-'' else CHR ''_'')"

text \<open>Three bytes give four digits; one or two bytes at the end give two or three.\<close>

fun b64_encode :: "string \<Rightarrow> string" where
  "b64_encode [] = []"
| "b64_encode [a] =
     (let v = byte a * 65536
      in [b64_digit (v div 262144 mod 64), b64_digit (v div 4096 mod 64)])"
| "b64_encode [a, b] =
     (let v = byte a * 65536 + byte b * 256
      in [b64_digit (v div 262144 mod 64), b64_digit (v div 4096 mod 64), b64_digit (v div 64 mod 64)])"
| "b64_encode (a # b # c # s) =
     (let v = byte a * 65536 + byte b * 256 + byte c
      in [b64_digit (v div 262144 mod 64), b64_digit (v div 4096 mod 64),
          b64_digit (v div 64 mod 64), b64_digit (v mod 64)] @ b64_encode s)"

definition b64_undigit :: "char \<Rightarrow> nat" where
  "b64_undigit c =
     (if is_upper c then byte c - 65 else if is_lower c then byte c - 71
      else if is_digit c then byte c + 4 else if c = CHR ''-'' then 62 else 63)"

fun b64_decode :: "string \<Rightarrow> string" where
  "b64_decode (x # y # z # w # s) =
     (let v = b64_undigit x * 262144 + b64_undigit y * 4096 + b64_undigit z * 64 + b64_undigit w
      in [char_of (v div 65536 mod 256), char_of (v div 256 mod 256), char_of (v mod 256)] @ b64_decode s)"
| "b64_decode [x, y, z] =
     (let v = b64_undigit x * 262144 + b64_undigit y * 4096 + b64_undigit z * 64
      in [char_of (v div 65536 mod 256), char_of (v div 256 mod 256)])"
| "b64_decode [x, y] =
     (let v = b64_undigit x * 262144 + b64_undigit y * 4096 in [char_of (v div 65536 mod 256)])"
| "b64_decode _ = []"

lemma b64_undigit_digit: "n < 64 \<Longrightarrow> b64_undigit (b64_digit n) = n"
  by (auto simp: b64_undigit_def b64_digit_def is_upper_def is_lower_def is_digit_def)

lemma sextets:
  assumes "v < (16777216 :: nat)"
  shows "v div 262144 mod 64 * 262144 + v div 4096 mod 64 * 4096 + v div 64 mod 64 * 64 + v mod 64 = v"
proof -
  define x y z where "x = v div 64" and "y = x div 64" and "z = y div 64"
  have e: "v div 4096 = y" "v div 262144 = z"
    by (simp_all add: x_def y_def z_def div_mult2_eq [symmetric])
  have "z mod 64 = z"
    by (rule mod_less) (use assms in \<open>simp add: x_def y_def z_def div_mult2_eq [symmetric] less_mult_imp_div_less\<close>)
  then show ?thesis
    using div_mult_mod_eq [of v 64] div_mult_mod_eq [of x 64] div_mult_mod_eq [of y 64]
    unfolding e x_def [symmetric] y_def [symmetric] z_def [symmetric] by linarith
qed

text \<open>What the decoder reads from the digits of a group, on numbers below 256.\<close>

lemma bytes_of_group:
  assumes "a < (256 :: nat)" "b < 256" "c < 256"
  shows "(a * 65536 + b * 256 + c) div 65536 mod 256 = a"
    "(a * 65536 + b * 256 + c) div 256 mod 256 = b" "(a * 65536 + b * 256 + c) mod 256 = c"
    "a * 65536 + b * 256 + c < 16777216"
proof -
  have "(a * 65536 + b * 256 + c) div 65536 = a" by (rule div_nat_eqI) (use assms in simp_all)
  then show "(a * 65536 + b * 256 + c) div 65536 mod 256 = a" using assms by simp
  have "(a * 65536 + b * 256 + c) div 256 = b + a * 256" by (rule div_nat_eqI) (use assms in simp_all)
  then show "(a * 65536 + b * 256 + c) div 256 mod 256 = b" using assms by simp
  have "(c + (a * 256 + b) * 256) mod 256 = c" unfolding mod_mult_self1 using assms by simp
  then show "(a * 65536 + b * 256 + c) mod 256 = c" by (simp add: algebra_simps)
  show "a * 65536 + b * 256 + c < 16777216" using assms by linarith
qed

lemma group_zeros: "(a * 65536) div 64 mod 64 = (0 :: nat)" "(a * 65536) mod 64 = (0 :: nat)"
  "(a * 65536 + b * 256) mod 64 = (0 :: nat)"
proof -
  have "a * 65536 div 64 = a * 1024" by (rule div_nat_eqI) simp_all
  moreover have "a * 1024 = a * 16 * 64" "a * 65536 = a * 1024 * 64"
    "a * 65536 + b * 256 = (a * 1024 + b * 4) * 64" by simp_all
  ultimately show "(a * 65536) div 64 mod 64 = (0 :: nat)" "(a * 65536) mod 64 = (0 :: nat)"
    "(a * 65536 + b * 256) mod 64 = (0 :: nat)" by (metis mod_mult_self2_is_0)+
qed

lemma b64_undigit_mod: "b64_undigit (b64_digit (n mod 64)) = n mod 64"
  by (rule b64_undigit_digit) simp

lemma b64_decode_encode: "b64_decode (b64_encode s) = s"
proof (induction s rule: b64_encode.induct)
  case 1
  then show ?case by simp
next
  case (2 a)
  define n where "n = byte a"
  have n: "n < 256" "char_of n = a" by (simp_all add: n_def)
  have "n * 65536 div 262144 mod 64 * 262144 + n * 65536 div 4096 mod 64 * 4096 = n * 65536"
    using sextets [of "n * 65536"] n(1) unfolding group_zeros by linarith
  moreover have "n * 65536 div 65536 mod 256 = n" using bytes_of_group(1) [of n 0 0] n(1) by simp
  ultimately show ?case
    unfolding b64_encode.simps b64_decode.simps Let_def b64_undigit_mod n_def [symmetric]
    using n(2) by (simp only:)
next
  case (3 a b)
  define n m where "n = byte a" and "m = byte b"
  have n: "n < 256" "char_of n = a" "m < 256" "char_of m = b" by (simp_all add: n_def m_def)
  define v where "v = n * 65536 + m * 256"
  have "v div 262144 mod 64 * 262144 + v div 4096 mod 64 * 4096 + v div 64 mod 64 * 64 = v"
    using sextets [of v] n(1,3) group_zeros(3) [of n m] unfolding v_def [symmetric]
    by (simp add: v_def)
  moreover have "v div 65536 mod 256 = n" "v div 256 mod 256 = m"
    using bytes_of_group(1,2) [of n m 0] n(1,3) by (simp_all add: v_def)
  ultimately show ?case
    unfolding b64_encode.simps b64_decode.simps Let_def b64_undigit_mod n_def [symmetric]
      m_def [symmetric] v_def [symmetric]
    using n(2,4) by (simp only:)
next
  case (4 a b c s)
  define n m k where "n = byte a" and "m = byte b" and "k = byte c"
  have n: "n < 256" "char_of n = a" "m < 256" "char_of m = b" "k < 256" "char_of k = c"
    by (simp_all add: n_def m_def k_def)
  define v where "v = n * 65536 + m * 256 + k"
  have "v div 262144 mod 64 * 262144 + v div 4096 mod 64 * 4096 + v div 64 mod 64 * 64 + v mod 64 = v"
    using bytes_of_group(4) [OF n(1,3,5)] unfolding v_def [symmetric] by (rule sextets)
  moreover have "v div 65536 mod 256 = n" "v div 256 mod 256 = m" "v mod 256 = k"
    using bytes_of_group(1,2,3) [OF n(1,3,5)] by (simp_all add: v_def)
  ultimately show ?case
    using n(2,4,6) 4 [OF refl]
    unfolding b64_encode.simps append_Cons append_Nil b64_decode.simps Let_def b64_undigit_mod
      n_def [symmetric] m_def [symmetric] k_def [symmetric] v_def [symmetric]
    by (simp only:)
qed

lemma b64_encode_inject: "b64_encode s = b64_encode t \<longleftrightarrow> s = t"
  by (metis b64_decode_encode)

lemma b64_digit_range: "n < 64 \<Longrightarrow> is_alnum (b64_digit n) \<or> b64_digit n \<in> set ''-_''"
  by (auto simp: b64_digit_def is_alnum_def is_upper_def is_lower_def is_digit_def)

lemma b64_digit_mod_range: "is_alnum (b64_digit (n mod 64)) \<or> b64_digit (n mod 64) \<in> set ''-_''"
  by (rule b64_digit_range) simp

lemma b64_encode_chars: "c \<in> set (b64_encode s) \<Longrightarrow> is_alnum c \<or> c \<in> set ''-_''"
proof (induction s rule: b64_encode.induct)
  case (2 a)
  then show ?case unfolding b64_encode.simps Let_def using b64_digit_mod_range by auto
next
  case (3 a b)
  then show ?case unfolding b64_encode.simps Let_def using b64_digit_mod_range by auto
next
  case (4 a b d s)
  then show ?case unfolding b64_encode.simps Let_def set_append
    by (metis Un_iff b64_digit_mod_range empty_iff insert_iff list.set)
qed simp

end
