(* ===== verification/Json.thy ===== *)
theory Json
  imports Encoding "HOL-Library.Finite_Map" "HOL-Library.List_Lexorder" "HOL-Library.Char_ord"
begin

section \<open>JSON documents (encoding/json)\<close>

text \<open>
  The gateway stores every entity as a JSON document and reads requests and provider
  configurations as such. What the sources rely on is the mapping between structs and
  documents that the struct tags give, so documents are trees here and their text is
  identified with the tree; a value in the store that is no JSON text is \<open>Raw\<close>. The
  functions below are what \<^verbatim>\<open>json.Marshal\<close> and \<^verbatim>\<open>json.Unmarshal\<close> do with one field of
  a struct: keys are matched without regard to (ASCII) case, a later key overrides an
  earlier one, \<^verbatim>\<open>null\<close> leaves a field at its zero value, any other value of the wrong kind
  is an error, unknown keys are ignored, and \<^verbatim>\<open>omitempty\<close> drops a zero value. Strings are
  valid UTF-8; the texts of the error messages are abridged to the name of the field.
\<close>

datatype json =
    JNull
  | JBool bool
  | JNum string
  | JStr string
  | JArr "json list"
  | JObj "(string \<times> json) list"

text \<open>Bytes: the text of a document, or bytes that are none.\<close>

datatype blob = Doc json | Raw string

type_synonym members = "(string \<times> json) list"

subsection \<open>Reading\<close>

definition fold_eq :: "string \<Rightarrow> string \<Rightarrow> bool" where
  "fold_eq s t \<longleftrightarrow> map lower_char s = map lower_char t"

text \<open>The members of a document read into a struct, and the values given to one field.\<close>

definition json_members :: "json \<Rightarrow> (string, members) res" where
  "json_members j = (case j of JObj ms \<Rightarrow> Inr ms | JNull \<Rightarrow> Inr [] | _ \<Rightarrow> Inl ''struct'')"

definition field_values :: "members \<Rightarrow> string \<Rightarrow> json list" where
  "field_values ms f = map snd (filter (\<lambda>(k, _). fold_eq k f) ms)"

fun read_string :: "string \<Rightarrow> string \<Rightarrow> json list \<Rightarrow> (string, string) res" where
  "read_string f cur [] = Inr cur"
| "read_string f cur (JNull # js) = read_string f cur js"
| "read_string f cur (JStr s # js) = read_string f s js"
| "read_string f cur (_ # js) = Inl f"

fun read_bool :: "string \<Rightarrow> bool \<Rightarrow> json list \<Rightarrow> (string, bool) res" where
  "read_bool f cur [] = Inr cur"
| "read_bool f cur (JNull # js) = read_bool f cur js"
| "read_bool f cur (JBool b # js) = read_bool f b js"
| "read_bool f cur (_ # js) = Inl f"

text \<open>A pointer to a string: \<^verbatim>\<open>null\<close> makes it nil.\<close>

fun read_string_ptr :: "string \<Rightarrow> string option \<Rightarrow> json list \<Rightarrow> (string, string option) res" where
  "read_string_ptr f cur [] = Inr cur"
| "read_string_ptr f cur (JNull # js) = read_string_ptr f None js"
| "read_string_ptr f cur (JStr s # js) = read_string_ptr f (Some s) js"
| "read_string_ptr f cur (_ # js) = Inl f"

text \<open>A slice of strings: an element \<^verbatim>\<open>null\<close> is the empty string.\<close>

fun read_elems :: "string \<Rightarrow> json list \<Rightarrow> (string, string list) res" where
  "read_elems f [] = Inr []"
| "read_elems f (JNull # js) = map_sum id ((#) []) (read_elems f js)"
| "read_elems f (JStr s # js) = map_sum id ((#) s) (read_elems f js)"
| "read_elems f (_ # js) = Inl f"

fun read_strings :: "string \<Rightarrow> string list \<Rightarrow> json list \<Rightarrow> (string, string list) res" where
  "read_strings f cur [] = Inr cur"
| "read_strings f cur (JNull # js) = read_strings f [] js"
| "read_strings f cur (JArr es # js) =
     (case read_elems f es of Inl e \<Rightarrow> Inl e | Inr ss \<Rightarrow> read_strings f ss js)"
| "read_strings f cur (_ # js) = Inl f"

text \<open>A map of strings: members are added to the map that is there.\<close>

fun read_entries :: "string \<Rightarrow> (string, string) fmap \<Rightarrow> members \<Rightarrow> (string, (string, string) fmap) res" where
  "read_entries f m [] = Inr m"
| "read_entries f m ((k, JNull) # ms) = read_entries f (fmupd k [] m) ms"
| "read_entries f m ((k, JStr s) # ms) = read_entries f (fmupd k s m) ms"
| "read_entries f m ((k, _) # ms) = Inl f"

fun read_map :: "string \<Rightarrow> (string, string) fmap \<Rightarrow> json list \<Rightarrow> (string, (string, string) fmap) res" where
  "read_map f m [] = Inr m"
| "read_map f m (JNull # js) = read_map f fmempty js"
| "read_map f m (JObj ms # js) =
     (case read_entries f m ms of Inl e \<Rightarrow> Inl e | Inr m' \<Rightarrow> read_map f m' js)"
| "read_map f m (_ # js) = Inl f"

text \<open>A pointer to a \<^verbatim>\<open>json.RawMessage\<close>: any value is kept, \<^verbatim>\<open>null\<close> makes it nil.\<close>

fun read_raw :: "json option \<Rightarrow> json list \<Rightarrow> json option" where
  "read_raw cur [] = cur"
| "read_raw cur (JNull # js) = read_raw None js"
| "read_raw cur (j # js) = read_raw (Some j) js"

definition get_string :: "members \<Rightarrow> string \<Rightarrow> (string, string) res" where
  "get_string ms f = read_string f [] (field_values ms f)"

definition get_bool :: "members \<Rightarrow> string \<Rightarrow> (string, bool) res" where
  "get_bool ms f = read_bool f False (field_values ms f)"

definition get_string_ptr :: "members \<Rightarrow> string \<Rightarrow> (string, string option) res" where
  "get_string_ptr ms f = read_string_ptr f None (field_values ms f)"

definition get_strings :: "members \<Rightarrow> string \<Rightarrow> (string, string list) res" where
  "get_strings ms f = read_strings f [] (field_values ms f)"

definition get_map :: "members \<Rightarrow> string \<Rightarrow> (string, (string, string) fmap) res" where
  "get_map ms f = read_map f fmempty (field_values ms f)"

definition get_raw :: "members \<Rightarrow> string \<Rightarrow> json option" where
  "get_raw ms f = read_raw None (field_values ms f)"

subsection \<open>Writing\<close>

definition put_string :: "string \<Rightarrow> string \<Rightarrow> members" where
  "put_string f s = [(f, JStr s)]"

definition put_string_omitempty :: "string \<Rightarrow> string \<Rightarrow> members" where
  "put_string_omitempty f s = (if s = [] then [] else [(f, JStr s)])"

definition put_ptr_omitempty :: "string \<Rightarrow> string option \<Rightarrow> members" where
  "put_ptr_omitempty f p = (case p of None \<Rightarrow> [] | Some s \<Rightarrow> [(f, JStr s)])"

definition put_bool :: "string \<Rightarrow> bool \<Rightarrow> members" where
  "put_bool f b = [(f, JBool b)]"

definition put_strings :: "string \<Rightarrow> string list \<Rightarrow> members" where
  "put_strings f ss = [(f, JArr (map JStr ss))]"

definition put_raw :: "string \<Rightarrow> json \<Rightarrow> members" where
  "put_raw f j = [(f, j)]"

text \<open>The members of a map are written in the order of their keys.\<close>

definition map_members :: "(string, string) fmap \<Rightarrow> members" where
  "map_members m = map (\<lambda>(k, v). (k, JStr v)) (sorted_list_of_fmap m)"

definition put_map_omitempty :: "string \<Rightarrow> (string, string) fmap \<Rightarrow> members" where
  "put_map_omitempty f m = (if m = fmempty then [] else [(f, JObj (map_members m))])"

subsection \<open>Reading back what was written\<close>

named_theorems json_fields "reading a field back from the members that were written"

lemma field_values_Nil [json_fields]: "field_values [] f = []"
  by (simp add: field_values_def)

lemma field_values_append [json_fields]: "field_values (a @ b) f = field_values a f @ field_values b f"
  by (simp add: field_values_def)

lemma field_values_puts [json_fields]:
  "field_values (put_string g s) f = (if fold_eq g f then [JStr s] else [])"
  "field_values (put_string_omitempty g s) f = (if fold_eq g f \<and> s \<noteq> [] then [JStr s] else [])"
  "field_values (put_ptr_omitempty g p) f =
     (case p of None \<Rightarrow> [] | Some s \<Rightarrow> if fold_eq g f then [JStr s] else [])"
  "field_values (put_bool g b) f = (if fold_eq g f then [JBool b] else [])"
  "field_values (put_strings g ss) f = (if fold_eq g f then [JArr (map JStr ss)] else [])"
  "field_values (put_map_omitempty g m) f =
     (if fold_eq g f \<and> m \<noteq> fmempty then [JObj (map_members m)] else [])"
  "field_values (put_raw g j) f = (if fold_eq g f then [j] else [])"
  by (auto simp: field_values_def put_string_def put_string_omitempty_def put_ptr_omitempty_def
      put_bool_def put_strings_def put_map_omitempty_def put_raw_def split: option.splits)

lemma read_elems_JStr [simp]: "read_elems f (map JStr ss) = Inr ss"
  by (induction ss) simp_all

lemma read_entries_JStr:
  "distinct (map fst kvs) \<Longrightarrow>
   read_entries f m (map (\<lambda>(k, v). (k, JStr v)) kvs) = Inr (m ++\<^sub>f fmap_of_list kvs)"
proof (induction kvs arbitrary: m)
  case Nil
  then show ?case by simp
next
  case (Cons kv kvs)
  obtain k v where [simp]: "kv = (k, v)" by fastforce
  have "fmupd k v m ++\<^sub>f fmap_of_list kvs = m ++\<^sub>f fmap_of_list (kv # kvs)"
    using Cons.prems
    by (intro fmap_ext) (auto simp: fmlookup_of_list fset_of_list.rep_eq map_of_eq_None_iff)
  then show ?case using Cons by simp
qed

lemma fmap_of_sorted_list_of_fmap: "fmap_of_list (sorted_list_of_fmap m) = m"
  by (rule fmap_ext) (simp add: fmlookup_of_list)

lemma read_map_members [simp]: "read_entries f fmempty (map_members m) = Inr m"
proof -
  have "distinct (map fst (sorted_list_of_fmap m))"
    by (simp add: sorted_list_of_fmap_def comp_def sorted_list_of_fset.rep_eq)
  then show ?thesis unfolding map_members_def
    by (simp add: read_entries_JStr fmap_of_sorted_list_of_fmap)
qed

lemma fold_eq_refl [simp]: "fold_eq s s"
  by (simp add: fold_eq_def)

text \<open>The keys of the struct tags differ also without regard to case.\<close>

definition json_keys :: "string list" where
  "json_keys =
    [''url'', ''arn'', ''region'', ''streamName'', ''deliveryStreamName'', ''queueUrl'',
      ''awsAccessKeyId'', ''awsSecretAccessKey'', ''awsSessionToken'', ''space'',
      ''name'', ''authorizerId'', ''metadata'', ''functionId'', ''type'', ''provider'',
      ''subscriptionId'', ''eventType'', ''path'', ''method'', ''corsId'',
      ''allowedOrigins'', ''allowedMethods'', ''allowedHeaders'', ''allowCredentials'',
      ''eventTypeVersion'', ''cloudEventsVersion'', ''source'', ''eventID'', ''eventTime'',
      ''schemaURL'', ''extensions'', ''contentType'', ''data'', ''statusCode'', ''headers'', ''body'',
      ''authorization'', ''error'', ''message'', ''principalId'', ''context'']"

lemma json_keys_distinct: "distinct (map (map lower_char) json_keys)"
  by code_simp

lemma fold_eq_key [json_fields]:
  "a \<in> set json_keys \<Longrightarrow> b \<in> set json_keys \<Longrightarrow> fold_eq a b \<longleftrightarrow> a = b"
  using json_keys_distinct by (auto simp: fold_eq_def distinct_map dest: inj_onD)

lemma json_keys_mem [json_fields]:
  "''url'' \<in> set json_keys"
  "''arn'' \<in> set json_keys"
  "''region'' \<in> set json_keys"
  "''streamName'' \<in> set json_keys"
  "''deliveryStreamName'' \<in> set json_keys"
  "''queueUrl'' \<in> set json_keys"
  "''awsAccessKeyId'' \<in> set json_keys"
  "''awsSecretAccessKey'' \<in> set json_keys"
  "''awsSessionToken'' \<in> set json_keys"
  "''space'' \<in> set json_keys"
  "''name'' \<in> set json_keys"
  "''authorizerId'' \<in> set json_keys"
  "''metadata'' \<in> set json_keys"
  "''functionId'' \<in> set json_keys"
  "''type'' \<in> set json_keys"
  "''provider'' \<in> set json_keys"
  "''subscriptionId'' \<in> set json_keys"
  "''eventType'' \<in> set json_keys"
  "''path'' \<in> set json_keys"
  "''method'' \<in> set json_keys"
  "''corsId'' \<in> set json_keys"
  "''allowedOrigins'' \<in> set json_keys"
  "''allowedMethods'' \<in> set json_keys"
  "''allowedHeaders'' \<in> set json_keys"
  "''allowCredentials'' \<in> set json_keys"
  "''eventTypeVersion'' \<in> set json_keys"
  "''cloudEventsVersion'' \<in> set json_keys"
  "''source'' \<in> set json_keys"
  "''eventID'' \<in> set json_keys"
  "''eventTime'' \<in> set json_keys"
  "''schemaURL'' \<in> set json_keys"
  "''extensions'' \<in> set json_keys"
  "''contentType'' \<in> set json_keys"
  "''data'' \<in> set json_keys"
  "''statusCode'' \<in> set json_keys"
  "''headers'' \<in> set json_keys"
  "''body'' \<in> set json_keys"
  "''authorization'' \<in> set json_keys"
  "''error'' \<in> set json_keys"
  "''message'' \<in> set json_keys"
  "''principalId'' \<in> set json_keys"
  "''context'' \<in> set json_keys"
  by (simp_all add: json_keys_def)

lemmas json_read_defs =
  get_string_def get_bool_def get_string_ptr_def get_strings_def get_map_def get_raw_def

end
