(* ===== verification/KVStore.thy ===== *)
theory KVStore
  imports Json
begin

section \<open>The key-value store and its prefixes (internal/store/prefixed.go, libkv/service.go)\<close>

text \<open>
  The store is the third-party libkv with etcd behind it. Its operations are the record
  \<open>kv\<close> over an unknown state; what the gateway relies on is the locale \<open>kv_store\<close>, with
  \<open>reliable_kv_store\<close> when the store also answers. \<^verbatim>\<open>Prefixed\<close> is the source's own
  store: it gives each kind of entity a part of the keys of one store. That the laws hold of
  \<^verbatim>\<open>Prefixed\<close> whenever they hold of the store below, with the rest of the keys untouched,
  is proved here, and the laws are met by a store in memory.

  Reads do not change the state, they may fail in any state, and a write that reports an
  error may or may not have taken effect. The options of the calls (all reads of the
  gateway ask for a consistent answer) are left out.
\<close>

subsection \<open>libkv\<close>

record kvpair =
  Key :: string
  Value :: blob
  LastIndex :: nat

definition errKeyNotFound :: string where
  "errKeyNotFound = ''Key not found in store''"

record ('st, 'h) kv =
  kv_Get :: "string \<Rightarrow> 'st \<Rightarrow> (string, kvpair) res"
  kv_Put :: "string \<Rightarrow> blob \<Rightarrow> 'st \<Rightarrow> string option \<times> 'st"
  kv_Delete :: "string \<Rightarrow> 'st \<Rightarrow> string option \<times> 'st"
  kv_Exists :: "string \<Rightarrow> 'st \<Rightarrow> (string, bool) res"
  kv_Watch :: "string \<Rightarrow> 'st \<Rightarrow> (string, 'h) res"
  kv_WatchTree :: "string \<Rightarrow> 'st \<Rightarrow> (string, 'h) res"
  kv_NewLock :: "string \<Rightarrow> 'st \<Rightarrow> (string, 'h) res"
  kv_List :: "string \<Rightarrow> 'st \<Rightarrow> (string, kvpair list) res"
  kv_DeleteTree :: "string \<Rightarrow> 'st \<Rightarrow> string option \<times> 'st"
  kv_AtomicPut :: "string \<Rightarrow> blob \<Rightarrow> kvpair option \<Rightarrow> 'st \<Rightarrow> (string, bool \<times> kvpair option) res \<times> 'st"
  kv_AtomicDelete :: "string \<Rightarrow> kvpair option \<Rightarrow> 'st \<Rightarrow> (string, bool) res \<times> 'st"
  kv_Close :: "'st \<Rightarrow> 'st"

subsection \<open>Prefixed\<close>

definition prefixed_root :: "string \<Rightarrow> string" where
  "prefixed_root root = (if has_suffix root ''/'' then root else root @ ''/'')"

text \<open>The loop of \<^verbatim>\<open>List\<close>: the pair of the root itself is left out.\<close>

fun unprefix :: "string \<Rightarrow> kvpair list \<Rightarrow> kvpair list" where
  "unprefix root [] = []"
| "unprefix root (p # ps) =
     (if Key p = root then unprefix root ps
      else \<lparr>Key = trim_prefix (Key p) root, Value = Value p, LastIndex = LastIndex p\<rparr> # unprefix root ps)"

definition Prefixed_List :: "string \<Rightarrow> ('st, 'h) kv \<Rightarrow> string \<Rightarrow> 'st \<Rightarrow> (string, kvpair list) res" where
  "Prefixed_List root kv d st =
     (case kv_List kv (root @ d) st of Inl e \<Rightarrow> Inl e | Inr ps \<Rightarrow> Inr (unprefix root ps))"

definition NewPrefixed :: "string \<Rightarrow> ('st, 'h) kv \<Rightarrow> ('st, 'h) kv" where
  "NewPrefixed root0 kv =
     (let root = prefixed_root root0 in
      \<lparr>kv_Get = (\<lambda>k. kv_Get kv (root @ k)),
       kv_Put = (\<lambda>k. kv_Put kv (root @ k)),
       kv_Delete = (\<lambda>k. kv_Delete kv (root @ k)),
       kv_Exists = (\<lambda>k. kv_Exists kv (root @ k)),
       kv_Watch = (\<lambda>k. kv_Watch kv (root @ k)),
       kv_WatchTree = (\<lambda>d. kv_WatchTree kv (root @ d)),
       kv_NewLock = (\<lambda>k. kv_NewLock kv (root @ k)),
       kv_List = Prefixed_List root kv,
       kv_DeleteTree = (\<lambda>d. kv_DeleteTree kv (root @ d)),
       kv_AtomicPut = (\<lambda>k. kv_AtomicPut kv (root @ k)),
       kv_AtomicDelete = (\<lambda>k. kv_AtomicDelete kv (root @ k)),
       kv_Close = kv_Close kv\<rparr>)"

lemma prefixed_root_not_Nil [simp]: "prefixed_root root \<noteq> []"
  by (auto simp: prefixed_root_def has_suffix_iff)

text \<open>Roots of which none is a prefix of the other share no key.\<close>

definition separate :: "string \<Rightarrow> string \<Rightarrow> bool" where
  "separate r s \<longleftrightarrow> \<not> has_prefix r s \<and> \<not> has_prefix s r"

lemma separate_sym: "separate r s \<Longrightarrow> separate s r"
  by (simp add: separate_def)

lemma separate_append: "separate r s \<Longrightarrow> \<not> has_prefix (r @ k) s"
  by (auto simp: separate_def has_prefix_iff append_eq_append_conv2)

subsection \<open>The contract of a store\<close>

text \<open>
  \<open>contents\<close> is the map that the state holds, \<open>rest\<close> what the operations of this store leave
  alone (the other entities, when several stores share one database).
\<close>

locale kv_store =
  fixes kv :: "('st, 'h) kv" and contents :: "'st \<Rightarrow> string \<Rightarrow> blob option" and rest :: "'st \<Rightarrow> 'r"
  assumes Get_found: "kv_Get kv k st = Inr p \<Longrightarrow> contents st k = Some (Value p)"
    and Get_missing: "kv_Get kv k st = Inl errKeyNotFound \<Longrightarrow> contents st k = None"
    and Put: "kv_Put kv k v st = (e, st') \<Longrightarrow>
      contents st' = (contents st)(k \<mapsto> v) \<or> e \<noteq> None \<and> contents st' = contents st"
    and AtomicPut: "kv_AtomicPut kv k v None st = (r, st') \<Longrightarrow>
      contents st k = None \<and> contents st' = (contents st)(k \<mapsto> v) \<or> isl r \<and> contents st' = contents st"
    and Delete: "kv_Delete kv k st = (e, st') \<Longrightarrow>
      contents st' = (contents st)(k := None) \<and> (e = None \<longrightarrow> contents st k \<noteq> None) \<or>
      e \<noteq> None \<and> contents st' = contents st"
    and List_found: "d \<noteq> [] \<Longrightarrow> kv_List kv d st = Inr ps \<Longrightarrow>
      distinct (map Key ps) \<and>
      (\<lambda>p. (Key p, Value p)) ` set ps = {(k, v). contents st k = Some v \<and> has_prefix k d}"
    and List_missing: "d \<noteq> [] \<Longrightarrow> kv_List kv d st = Inl errKeyNotFound \<Longrightarrow>
      has_prefix k d \<Longrightarrow> contents st k = None"
    and Put_rest: "kv_Put kv k v st = (e, st') \<Longrightarrow> rest st' = rest st"
    and AtomicPut_rest: "kv_AtomicPut kv k v None st = (r, st') \<Longrightarrow> rest st' = rest st"
    and Delete_rest: "kv_Delete kv k st = (e, st') \<Longrightarrow> rest st' = rest st"
begin

lemma Put_ok: "kv_Put kv k v st = (None, st') \<Longrightarrow> contents st' = (contents st)(k \<mapsto> v)"
  using Put [of k v st None st'] by simp

lemma AtomicPut_ok:
  "kv_AtomicPut kv k v None st = (Inr r, st') \<Longrightarrow>
   contents st k = None \<and> contents st' = (contents st)(k \<mapsto> v)"
  using AtomicPut [of k v st "Inr r" st'] by simp

lemma Delete_ok:
  "kv_Delete kv k st = (None, st') \<Longrightarrow>
   contents st k \<noteq> None \<and> contents st' = (contents st)(k := None)"
  using Delete [of k st None st'] by simp

lemma List_mem:
  "d \<noteq> [] \<Longrightarrow> kv_List kv d st = Inr ps \<Longrightarrow> contents st k = Some v \<Longrightarrow> has_prefix k d \<Longrightarrow>
   \<exists>p \<in> set ps. Key p = k \<and> Value p = v"
proof -
  assume a: "d \<noteq> []" "kv_List kv d st = Inr ps" "contents st k = Some v" "has_prefix k d"
  then have "(k, v) \<in> (\<lambda>p. (Key p, Value p)) ` set ps" using List_found [OF a(1,2)] by simp
  then show "\<exists>p \<in> set ps. Key p = k \<and> Value p = v" by auto
qed

lemma List_sound:
  "d \<noteq> [] \<Longrightarrow> kv_List kv d st = Inr ps \<Longrightarrow> p \<in> set ps \<Longrightarrow>
   contents st (Key p) = Some (Value p) \<and> has_prefix (Key p) d"
  using List_found [of d st ps] by blast

text \<open>The same store with less of the rest in view.\<close>

lemma coarser: "kv_store kv contents (\<lambda>st. g (rest st))"
  by unfold_locales
    (fact Get_found Get_missing Put AtomicPut Delete List_found List_missing
      | simp add: Put_rest AtomicPut_rest Delete_rest)+

end

locale reliable_kv_store = kv_store +
  assumes Get_ok: "contents st k = Some v \<Longrightarrow> \<exists>p. kv_Get kv k st = Inr p"
    and Get_none: "contents st k = None \<Longrightarrow> kv_Get kv k st = Inl errKeyNotFound"
    and List_ok: "d \<noteq> [] \<Longrightarrow> (\<exists>ps. kv_List kv d st = Inr ps) \<or> kv_List kv d st = Inl errKeyNotFound"
    and Put_works: "fst (kv_Put kv k v st) = None"
    and AtomicPut_works: "contents st k = None \<Longrightarrow> \<not> isl (fst (kv_AtomicPut kv k v None st))"
    and Delete_works: "contents st k \<noteq> None \<Longrightarrow> fst (kv_Delete kv k st) = None"
begin

lemma Get_iff: "(\<exists>p. kv_Get kv k st = Inr p) \<longleftrightarrow> contents st k \<noteq> None"
  using Get_ok [of st k] Get_none [of st k] by (cases "contents st k") auto

end

subsection \<open>The contract of Prefixed\<close>

lemma unprefix_set:
  "(\<lambda>p. (Key p, Value p)) ` set (unprefix r ps) =
   (\<lambda>p. (trim_prefix (Key p) r, Value p)) ` {p \<in> set ps. Key p \<noteq> r}"
  by (induction ps) auto

lemma unprefix_keys: "map Key (unprefix r ps) = map (\<lambda>k. trim_prefix k r) (filter (\<lambda>k. k \<noteq> r) (map Key ps))"
  by (induction ps) simp_all

definition other_keys :: "string \<Rightarrow> (string \<Rightarrow> blob option) \<Rightarrow> string \<Rightarrow> blob option" where
  "other_keys root m k = (if has_prefix k root then None else m k)"

lemma other_keys_upd [simp]: "has_prefix k root \<Longrightarrow> other_keys root (m(k := x)) = other_keys root m"
  by (auto simp: other_keys_def)

lemma unprefix_distinct:
  assumes "distinct (map Key ps)" and "\<forall>p \<in> set ps. has_prefix (Key p) r"
  shows "distinct (map Key (unprefix r ps))"
proof -
  have "inj_on (\<lambda>k. trim_prefix k r) (set (filter (\<lambda>k. k \<noteq> r) (map Key ps)))"
    using assms(2) by (intro inj_onI) (clarsimp, metis trim_prefix_inverse)
  then show ?thesis using assms(1) by (simp add: unprefix_keys distinct_map distinct_filter)
qed

locale prefixed_store = kv_store +
  fixes root :: string
begin

abbreviation "r \<equiv> prefixed_root root"

lemma List_prefixed:
  assumes "d \<noteq> []" and "kv_List (NewPrefixed root kv) d st = Inr qs"
  shows "distinct (map Key qs) \<and>
    (\<lambda>p. (Key p, Value p)) ` set qs = {(k, v). contents st (r @ k) = Some v \<and> has_prefix k d}"
proof -
  from assms(2) obtain ps where ps: "kv_List kv (r @ d) st = Inr ps" "qs = unprefix r ps"
    by (auto simp: NewPrefixed_def Prefixed_List_def Let_def split: sum.splits)
  note L = List_found [OF _ ps(1), simplified]
  have pre: "\<exists>k. Key p = r @ d @ k" if "p \<in> set ps" for p
    using List_sound [OF _ ps(1) that] by (auto simp: has_prefix_iff)
  then have ne: "Key p \<noteq> r" if "p \<in> set ps" for p using assms(1) that by fastforce
  have "(\<lambda>p. (Key p, Value p)) ` set qs = (\<lambda>p. (trim_prefix (Key p) r, Value p)) ` set ps"
    unfolding ps(2) unprefix_set using ne by (intro arg_cong [where f = "image _"]) auto
  also have "\<dots> = (\<lambda>(k, v). (trim_prefix k r, v)) ` (\<lambda>p. (Key p, Value p)) ` set ps"
    by (simp add: image_image)
  also have "\<dots> = {(k, v). contents st (r @ k) = Some v \<and> has_prefix k d}"
    using L by (auto simp: has_prefix_iff image_iff) (metis append_assoc trim_prefix_append)
  finally show ?thesis
    using L pre unprefix_distinct [of ps r] ps(2) by (metis has_prefix_append)
qed

end

sublocale prefixed_store \<subseteq> pre: kv_store "NewPrefixed root kv" "\<lambda>st k. contents st (r @ k)"
    "\<lambda>st. (rest st, other_keys r (contents st))"
proof
  fix k st p
  show "kv_Get (NewPrefixed root kv) k st = Inr p \<Longrightarrow> contents st (r @ k) = Some (Value p)"
    by (simp add: NewPrefixed_def Let_def Get_found)
  show "kv_Get (NewPrefixed root kv) k st = Inl errKeyNotFound \<Longrightarrow> contents st (r @ k) = None"
    by (simp add: NewPrefixed_def Let_def Get_missing)
next
  fix k v st e st'
  assume a: "kv_Put (NewPrefixed root kv) k v st = (e, st')"
  then have p: "kv_Put kv (r @ k) v st = (e, st')" by (simp add: NewPrefixed_def Let_def)
  show "(\<lambda>k. contents st' (r @ k)) = (\<lambda>k. contents st (r @ k))(k \<mapsto> v) \<or>
      e \<noteq> None \<and> (\<lambda>k. contents st' (r @ k)) = (\<lambda>k. contents st (r @ k))"
    using Put [OF p] by (auto simp: fun_eq_iff)
  show "(rest st', other_keys r (contents st')) = (rest st, other_keys r (contents st))"
    using Put [OF p] Put_rest [OF p] by auto
next
  fix k v st e st'
  assume a: "kv_AtomicPut (NewPrefixed root kv) k v None st = (e, st')"
  then have p: "kv_AtomicPut kv (r @ k) v None st = (e, st')" by (simp add: NewPrefixed_def Let_def)
  show "contents st (r @ k) = None \<and>
      (\<lambda>k. contents st' (r @ k)) = (\<lambda>k. contents st (r @ k))(k \<mapsto> v) \<or>
      isl e \<and> (\<lambda>k. contents st' (r @ k)) = (\<lambda>k. contents st (r @ k))"
    using AtomicPut [OF p] by (auto simp: fun_eq_iff)
  show "(rest st', other_keys r (contents st')) = (rest st, other_keys r (contents st))"
    using AtomicPut [OF p] AtomicPut_rest [OF p] by auto
next
  fix k st e st'
  assume a: "kv_Delete (NewPrefixed root kv) k st = (e, st')"
  then have p: "kv_Delete kv (r @ k) st = (e, st')" by (simp add: NewPrefixed_def Let_def)
  show "(\<lambda>k. contents st' (r @ k)) = (\<lambda>k. contents st (r @ k))(k := None) \<and>
      (e = None \<longrightarrow> contents st (r @ k) \<noteq> None) \<or>
      e \<noteq> None \<and> (\<lambda>k. contents st' (r @ k)) = (\<lambda>k. contents st (r @ k))"
    using Delete [OF p] by (auto simp: fun_eq_iff)
  show "(rest st', other_keys r (contents st')) = (rest st, other_keys r (contents st))"
    using Delete [OF p] Delete_rest [OF p] by auto
next
  fix d st qs
  assume "d \<noteq> []" "kv_List (NewPrefixed root kv) d st = Inr qs"
  then show "distinct (map Key qs) \<and>
      (\<lambda>p. (Key p, Value p)) ` set qs = {(k, v). contents st (r @ k) = Some v \<and> has_prefix k d}"
    by (rule List_prefixed)
next
  fix d st k
  assume "d \<noteq> []" "kv_List (NewPrefixed root kv) d st = Inl errKeyNotFound" "has_prefix k d"
  then show "contents st (r @ k) = None"
    using List_missing [of "r @ d" st "r @ k"]
    by (auto simp: NewPrefixed_def Prefixed_List_def Let_def has_prefix_iff split: sum.splits)
qed

locale reliable_prefixed_store = reliable_kv_store +
  fixes root :: string

sublocale reliable_prefixed_store \<subseteq> prefixed_store
  by unfold_locales

sublocale reliable_prefixed_store \<subseteq> rel: reliable_kv_store "NewPrefixed root kv"
    "\<lambda>st k. contents st (r @ k)" "\<lambda>st. (rest st, other_keys r (contents st))"
proof
  fix st k v d
  show "contents st (r @ k) = Some v \<Longrightarrow> \<exists>p. kv_Get (NewPrefixed root kv) k st = Inr p"
    by (simp add: NewPrefixed_def Let_def Get_ok)
  show "contents st (r @ k) = None \<Longrightarrow> kv_Get (NewPrefixed root kv) k st = Inl errKeyNotFound"
    by (simp add: NewPrefixed_def Let_def Get_none)
  show "fst (kv_Put (NewPrefixed root kv) k v st) = None"
    by (simp add: NewPrefixed_def Let_def Put_works)
  show "contents st (r @ k) = None \<Longrightarrow> \<not> isl (fst (kv_AtomicPut (NewPrefixed root kv) k v None st))"
    by (simp add: NewPrefixed_def Let_def AtomicPut_works)
  show "contents st (r @ k) \<noteq> None \<Longrightarrow> fst (kv_Delete (NewPrefixed root kv) k st) = None"
    by (simp add: NewPrefixed_def Let_def Delete_works)
  show "(\<exists>ps. kv_List (NewPrefixed root kv) d st = Inr ps) \<or>
      kv_List (NewPrefixed root kv) d st = Inl errKeyNotFound"
    using List_ok [of "r @ d" st] by (auto simp: NewPrefixed_def Prefixed_List_def Let_def)
qed

subsection \<open>A store in memory\<close>

type_synonym mem = "(string \<times> blob) list"

definition mem_kv :: "(mem, unit) kv" where
  "mem_kv =
     \<lparr>kv_Get = (\<lambda>k m. case map_of m k of None \<Rightarrow> Inl errKeyNotFound
                  | Some v \<Rightarrow> Inr \<lparr>Key = k, Value = v, LastIndex = 0\<rparr>),
      kv_Put = (\<lambda>k v m. (None, AList.update k v m)),
      kv_Delete = (\<lambda>k m. if map_of m k = None then (Some errKeyNotFound, m) else (None, AList.delete k m)),
      kv_Exists = (\<lambda>k m. Inr (map_of m k \<noteq> None)),
      kv_Watch = (\<lambda>k m. Inr ()), kv_WatchTree = (\<lambda>k m. Inr ()), kv_NewLock = (\<lambda>k m. Inr ()),
      kv_List = (\<lambda>d m. case filter (\<lambda>(k, _). has_prefix k d) (AList.clearjunk m) of
                   [] \<Rightarrow> Inl errKeyNotFound
                 | kvs \<Rightarrow> Inr (map (\<lambda>(k, v). \<lparr>Key = k, Value = v, LastIndex = 0\<rparr>) kvs)),
      kv_DeleteTree = (\<lambda>d m. (None, filter (\<lambda>(k, _). \<not> has_prefix k d) m)),
      kv_AtomicPut = (\<lambda>k v prev m. if map_of m k \<noteq> None then (Inl ''Key exists'', m)
                        else (Inr (True, None), AList.update k v m)),
      kv_AtomicDelete = (\<lambda>k prev m. (Inr True, AList.delete k m)),
      kv_Close = id\<rparr>"

lemma mem_ops:
  "kv_Get mem_kv k m = (case map_of m k of None \<Rightarrow> Inl errKeyNotFound
     | Some v \<Rightarrow> Inr \<lparr>Key = k, Value = v, LastIndex = 0\<rparr>)"
  "kv_Put mem_kv k v m = (None, AList.update k v m)"
  "kv_Delete mem_kv k m = (if map_of m k = None then (Some errKeyNotFound, m) else (None, AList.delete k m))"
  "kv_AtomicPut mem_kv k v prev m =
     (if map_of m k \<noteq> None then (Inl ''Key exists'', m) else (Inr (True, None), AList.update k v m))"
  "kv_List mem_kv d m =
    (case filter (\<lambda>(k, _). has_prefix k d) (AList.clearjunk m) of [] \<Rightarrow> Inl errKeyNotFound
     | kvs \<Rightarrow> Inr (map (\<lambda>(k, v). \<lparr>Key = k, Value = v, LastIndex = 0\<rparr>) kvs))"
  by (simp_all add: mem_kv_def)

lemma in_clearjunk: "(k, v) \<in> set (AList.clearjunk m) \<longleftrightarrow> map_of m k = Some v"
  using map_of_is_SomeI [OF distinct_clearjunk, of k v m] map_of_SomeD [of "AList.clearjunk m" k v]
  by (auto simp: map_of_clearjunk)

lemma mem_List_found:
  assumes "kv_List mem_kv d m = Inr ps"
  shows "distinct (map Key ps) \<and>
    (\<lambda>p. (Key p, Value p)) ` set ps = {(k, v). map_of m k = Some v \<and> has_prefix k d}"
proof -
  define f where "f = filter (\<lambda>(k, _). has_prefix k d) (AList.clearjunk m)"
  have ps: "ps = map (\<lambda>(k, v). \<lparr>Key = k, Value = v, LastIndex = 0\<rparr>) f"
    using assms unfolding mem_ops f_def [symmetric] by (cases f) auto
  have k: "map Key ps = map fst f" and v: "map (\<lambda>p. (Key p, Value p)) ps = f"
    unfolding ps by (auto simp: comp_def case_prod_beta intro: map_idI)
  have "distinct (map fst f)" unfolding f_def by (rule distinct_map_filter [OF distinct_clearjunk])
  moreover have "set f = {(k, v). map_of m k = Some v \<and> has_prefix k d}"
    unfolding f_def by (auto simp: in_clearjunk)
  ultimately show ?thesis using k v by (metis list.set_map)
qed

lemma mem_List_missing:
  assumes "kv_List mem_kv d m = Inl errKeyNotFound" and "has_prefix k d"
  shows "map_of m k = None"
proof -
  have "filter (\<lambda>(k, _). has_prefix k d) (AList.clearjunk m) = []"
    using assms(1) unfolding mem_ops by (auto split: list.splits)
  then have "\<forall>v. map_of m k \<noteq> Some v"
    using assms(2) by (auto simp: filter_empty_conv in_clearjunk [symmetric])
  then show ?thesis by simp
qed

interpretation mem: reliable_kv_store mem_kv map_of "\<lambda>_ :: mem. ()"
proof
  fix k m p
  show "kv_Get mem_kv k m = Inr p \<Longrightarrow> map_of m k = Some (Value p)"
    unfolding mem_ops by (auto split: option.splits)
  show "kv_Get mem_kv k m = Inl errKeyNotFound \<Longrightarrow> map_of m k = None"
    unfolding mem_ops by (auto split: option.splits)
next
  fix k v m e m'
  show "kv_Put mem_kv k v m = (e, m') \<Longrightarrow>
      map_of m' = (map_of m)(k \<mapsto> v) \<or> e \<noteq> None \<and> map_of m' = map_of m"
    unfolding mem_ops by auto
next
  fix k v m r m'
  show "kv_AtomicPut mem_kv k v None m = (r, m') \<Longrightarrow>
      map_of m k = None \<and> map_of m' = (map_of m)(k \<mapsto> v) \<or> isl r \<and> map_of m' = map_of m"
    unfolding mem_ops by (auto split: if_splits)
next
  fix k m e m'
  show "kv_Delete mem_kv k m = (e, m') \<Longrightarrow>
      map_of m' = (map_of m)(k := None) \<and> (e = None \<longrightarrow> map_of m k \<noteq> None) \<or>
      e \<noteq> None \<and> map_of m' = map_of m"
    unfolding mem_ops by (auto split: if_splits)
next
  fix d :: string and m ps
  assume "kv_List mem_kv d m = Inr ps"
  then show "distinct (map Key ps) \<and>
      (\<lambda>p. (Key p, Value p)) ` set ps = {(k, v). map_of m k = Some v \<and> has_prefix k d}"
    by (rule mem_List_found)
next
  fix d m k
  assume "kv_List mem_kv d m = Inl errKeyNotFound" "has_prefix k d"
  then show "map_of m k = None" by (rule mem_List_missing)
next
  fix m k v
  show "map_of m k = Some v \<Longrightarrow> \<exists>p. kv_Get mem_kv k m = Inr p" unfolding mem_ops by simp
  show "map_of m k = None \<Longrightarrow> kv_Get mem_kv k m = Inl errKeyNotFound" unfolding mem_ops by simp
  show "fst (kv_Put mem_kv k v m) = None" unfolding mem_ops by simp
  show "map_of m k = None \<Longrightarrow> \<not> isl (fst (kv_AtomicPut mem_kv k v None m))" unfolding mem_ops by simp
  show "map_of m k \<noteq> None \<Longrightarrow> fst (kv_Delete mem_kv k m) = None" unfolding mem_ops by simp
next
  fix d :: string and m
  show "(\<exists>ps. kv_List mem_kv d m = Inr ps) \<or> kv_List mem_kv d m = Inl errKeyNotFound"
    unfolding mem_ops by (simp split: list.splits)
qed simp_all

subsection \<open>The stores of the configuration service\<close>

record ('st, 'h) service =
  EventTypeStore :: "('st, 'h) kv"
  FunctionStore :: "('st, 'h) kv"
  SubscriptionStore :: "('st, 'h) kv"
  CORSStore :: "('st, 'h) kv"

text \<open>The service that \<^verbatim>\<open>main\<close> builds.\<close>

definition eventtypes_root :: string where
  "eventtypes_root = ''/serverless-event-gateway/eventtypes''"

definition functions_root :: string where
  "functions_root = ''/serverless-event-gateway/functions''"

definition subscriptions_root :: string where
  "subscriptions_root = ''/serverless-event-gateway/subscriptions''"

definition cors_root :: string where
  "cors_root = ''/serverless-event-gateway/cors''"

lemmas root_defs = eventtypes_root_def functions_root_def subscriptions_root_def cors_root_def

definition main_service :: "('st, 'h) kv \<Rightarrow> ('st, 'h) service" where
  "main_service kv =
     \<lparr>EventTypeStore = NewPrefixed eventtypes_root kv,
      FunctionStore = NewPrefixed functions_root kv,
      SubscriptionStore = NewPrefixed subscriptions_root kv,
      CORSStore = NewPrefixed cors_root kv\<rparr>"

text \<open>Four stores, none of which touches what another one holds.\<close>

locale config_stores =
  fixes svc :: "('st, 'h) service"
    and ec fc sc cc :: "'st \<Rightarrow> string \<Rightarrow> blob option"
  assumes store_E: "kv_store (EventTypeStore svc) ec (\<lambda>st. (fc st, sc st, cc st))"
    and store_F: "kv_store (FunctionStore svc) fc (\<lambda>st. (ec st, sc st, cc st))"
    and store_S: "kv_store (SubscriptionStore svc) sc (\<lambda>st. (ec st, fc st, cc st))"
    and store_C: "kv_store (CORSStore svc) cc (\<lambda>st. (ec st, fc st, sc st))"

sublocale config_stores \<subseteq> E: kv_store "EventTypeStore svc" ec "\<lambda>st. (fc st, sc st, cc st)"
  by (rule store_E)

sublocale config_stores \<subseteq> F: kv_store "FunctionStore svc" fc "\<lambda>st. (ec st, sc st, cc st)"
  by (rule store_F)

sublocale config_stores \<subseteq> S: kv_store "SubscriptionStore svc" sc "\<lambda>st. (ec st, fc st, cc st)"
  by (rule store_S)

sublocale config_stores \<subseteq> C: kv_store "CORSStore svc" cc "\<lambda>st. (ec st, fc st, sc st)"
  by (rule store_C)

text \<open>The same with stores that answer.\<close>

locale reliable_config_stores = config_stores +
  assumes rel_E: "reliable_kv_store (EventTypeStore svc) ec (\<lambda>st. (fc st, sc st, cc st))"
    and rel_F: "reliable_kv_store (FunctionStore svc) fc (\<lambda>st. (ec st, sc st, cc st))"
    and rel_S: "reliable_kv_store (SubscriptionStore svc) sc (\<lambda>st. (ec st, fc st, cc st))"
    and rel_C: "reliable_kv_store (CORSStore svc) cc (\<lambda>st. (ec st, fc st, sc st))"

sublocale reliable_config_stores \<subseteq> RE: reliable_kv_store "EventTypeStore svc" ec "\<lambda>st. (fc st, sc st, cc st)"
  by (rule rel_E)

sublocale reliable_config_stores \<subseteq> RF: reliable_kv_store "FunctionStore svc" fc "\<lambda>st. (ec st, sc st, cc st)"
  by (rule rel_F)

sublocale reliable_config_stores \<subseteq> RS: reliable_kv_store "SubscriptionStore svc" sc "\<lambda>st. (ec st, fc st, cc st)"
  by (rule rel_S)

sublocale reliable_config_stores \<subseteq> RC: reliable_kv_store "CORSStore svc" cc "\<lambda>st. (ec st, fc st, sc st)"
  by (rule rel_C)

text \<open>
  Between the two: any call may fail but the lists of subscriptions. A store with \<open>answers_lists\<close> answers its lists.
\<close>

definition answers_lists :: "('st, 'h) kv \<Rightarrow> bool" where
  "answers_lists kv \<longleftrightarrow>
     (\<forall>d st. d \<noteq> [] \<longrightarrow> (\<exists>ps. kv_List kv d st = Inr ps) \<or> kv_List kv d st = Inl errKeyNotFound)"

lemma answers_listsD:
  "answers_lists kv \<Longrightarrow> d \<noteq> [] \<Longrightarrow> (\<exists>ps. kv_List kv d st = Inr ps) \<or> kv_List kv d st = Inl errKeyNotFound"
  unfolding answers_lists_def by blast

lemma Prefixed_answers_lists: "answers_lists kv \<Longrightarrow> answers_lists (NewPrefixed root kv)"
  unfolding answers_lists_def
proof (intro allI impI)
  fix d :: string and st
  assume "\<forall>d st. d \<noteq> [] \<longrightarrow> (\<exists>ps. kv_List kv d st = Inr ps) \<or> kv_List kv d st = Inl errKeyNotFound" and "d \<noteq> []"
  then have "(\<exists>ps. kv_List kv (prefixed_root root @ d) st = Inr ps) \<or> kv_List kv (prefixed_root root @ d) st = Inl errKeyNotFound"
    by simp
  then show "(\<exists>ps. kv_List (NewPrefixed root kv) d st = Inr ps) \<or> kv_List (NewPrefixed root kv) d st = Inl errKeyNotFound"
    by (auto simp: NewPrefixed_def Prefixed_List_def Let_def)
qed

context reliable_kv_store
begin

lemma reliable_answers_lists: "answers_lists kv"
  using List_ok by (simp add: answers_lists_def)

end

locale listing_config_stores = config_stores +
  assumes lists: "answers_lists (SubscriptionStore svc)"

subsection \<open>The stores of main meet the contract\<close>

text \<open>The part of a database that is below one of the four roots.\<close>

definition below :: "string \<Rightarrow> (string \<Rightarrow> blob option) \<Rightarrow> string \<Rightarrow> blob option" where
  "below root m k = m (prefixed_root root @ k)"

lemma below_other:
  "separate (prefixed_root s) (prefixed_root root) \<Longrightarrow>
   below s (other_keys (prefixed_root root) m) = below s m"
  by (auto simp: below_def other_keys_def separate_append)

lemma roots_separate:
  "\<forall>r \<in> {eventtypes_root, functions_root, subscriptions_root, cors_root}.
   \<forall>s \<in> {eventtypes_root, functions_root, subscriptions_root, cors_root}.
     r \<noteq> s \<longrightarrow> separate (prefixed_root r) (prefixed_root s)"
  by code_simp

lemma roots_distinct:
  "eventtypes_root \<noteq> functions_root" "eventtypes_root \<noteq> subscriptions_root"
  "eventtypes_root \<noteq> cors_root" "functions_root \<noteq> subscriptions_root"
  "functions_root \<noteq> cors_root" "subscriptions_root \<noteq> cors_root"
  by (simp_all add: root_defs)

context prefixed_store
begin

lemma Prefixed_law:
  "kv_store (NewPrefixed root kv) (\<lambda>st k. contents st (r @ k)) (\<lambda>st. (rest st, other_keys r (contents st)))"
  by (rule pre.kv_store_axioms)

end

context reliable_prefixed_store
begin

lemma Prefixed_reliable_law:
  "reliable_kv_store (NewPrefixed root kv) (\<lambda>st k. contents st (r @ k))
     (\<lambda>st. (rest st, other_keys r (contents st)))"
  by (rule rel.reliable_kv_store_axioms)

end

lemma Prefixed_store:
  assumes "kv_store kv contents rest"
  shows "kv_store (NewPrefixed root kv) (\<lambda>st. below root (contents st))
     (\<lambda>st. (rest st, other_keys (prefixed_root root) (contents st)))"
  using prefixed_store.Prefixed_law [OF prefixed_store.intro [OF assms], of root]
  by (simp add: below_def [abs_def])

lemma Prefixed_reliable:
  assumes "reliable_kv_store kv contents rest"
  shows "reliable_kv_store (NewPrefixed root kv) (\<lambda>st. below root (contents st))
     (\<lambda>st. (rest st, other_keys (prefixed_root root) (contents st)))"
  using reliable_prefixed_store.Prefixed_reliable_law
    [OF reliable_prefixed_store.intro [OF assms], of root]
  by (simp add: below_def [abs_def])

lemma Prefixed_rest:
  assumes "kv_store kv contents rest"
    and "separate (prefixed_root a) (prefixed_root root)" "separate (prefixed_root b) (prefixed_root root)"
      "separate (prefixed_root c) (prefixed_root root)"
  shows "kv_store (NewPrefixed root kv) (\<lambda>st. below root (contents st))
     (\<lambda>st. (below a (contents st), below b (contents st), below c (contents st)))"
  using kv_store.coarser [OF Prefixed_store [OF assms(1), of root], of "\<lambda>(_, m). (below a m, below b m, below c m)"]
  by (simp add: below_other assms(2,3,4))

lemma reliable_rest:
  assumes "reliable_kv_store kv contents rest" and "kv_store kv contents rest'"
  shows "reliable_kv_store kv contents rest'"
  using assms(1) by (intro reliable_kv_store.intro [OF assms(2)]) (rule reliable_kv_store.axioms(2))

lemma main_config_stores:
  assumes "kv_store kv contents rest"
  shows "config_stores (main_service kv)
     (\<lambda>st. below eventtypes_root (contents st)) (\<lambda>st. below functions_root (contents st))
     (\<lambda>st. below subscriptions_root (contents st)) (\<lambda>st. below cors_root (contents st))"
  by (rule config_stores.intro; unfold main_service_def service.simps;
      rule Prefixed_rest [OF assms]; use roots_separate roots_distinct in auto)

lemma main_reliable_config_stores:
  assumes "reliable_kv_store kv contents rest"
  shows "reliable_config_stores (main_service kv)
     (\<lambda>st. below eventtypes_root (contents st)) (\<lambda>st. below functions_root (contents st))
     (\<lambda>st. below subscriptions_root (contents st)) (\<lambda>st. below cors_root (contents st))"
proof -
  note c = main_config_stores [OF reliable_kv_store.axioms(1) [OF assms]]
  note r = reliable_rest [OF Prefixed_reliable [OF assms]]
  show ?thesis
    using config_stores.store_E [OF c] config_stores.store_F [OF c]
      config_stores.store_S [OF c] config_stores.store_C [OF c]
    by (intro reliable_config_stores.intro [OF c] reliable_config_stores_axioms.intro)
      (simp_all add: main_service_def r)
qed

lemma main_listing_config_stores:
  assumes "kv_store kv contents rest" and "answers_lists kv"
  shows "listing_config_stores (main_service kv)
     (\<lambda>st. below eventtypes_root (contents st)) (\<lambda>st. below functions_root (contents st))
     (\<lambda>st. below subscriptions_root (contents st)) (\<lambda>st. below cors_root (contents st))"
  by (intro listing_config_stores.intro [OF main_config_stores [OF assms(1)]] listing_config_stores_axioms.intro)
    (simp add: main_service_def Prefixed_answers_lists [OF assms(2)])

interpretation main_mem: reliable_config_stores "main_service mem_kv"
    "\<lambda>m. below eventtypes_root (map_of m)" "\<lambda>m. below functions_root (map_of m)"
    "\<lambda>m. below subscriptions_root (map_of m)" "\<lambda>m. below cors_root (map_of m)"
  by (rule main_reliable_config_stores [OF mem.reliable_kv_store_axioms])

interpretation main_mem_lists: listing_config_stores "main_service mem_kv"
    "\<lambda>m. below eventtypes_root (map_of m)" "\<lambda>m. below functions_root (map_of m)"
    "\<lambda>m. below subscriptions_root (map_of m)" "\<lambda>m. below cors_root (map_of m)"
  by (rule main_listing_config_stores [OF mem.kv_store_axioms mem.reliable_answers_lists])

text \<open>C24: A prefixed store is a store: over any store that meets the contract, its operations
  meet the same contract on the keys below its root, and no operation changes any other key.
  In particular the four stores that main builds are isolated from one another.\<close>

theorem Prefixed_isolates:
  assumes "kv_store kv contents rest"
  shows "kv_store (NewPrefixed root kv) (\<lambda>st. below root (contents st))
      (\<lambda>st. (rest st, other_keys (prefixed_root root) (contents st))) \<and>
    config_stores (main_service kv)
      (\<lambda>st. below eventtypes_root (contents st)) (\<lambda>st. below functions_root (contents st))
      (\<lambda>st. below subscriptions_root (contents st)) (\<lambda>st. below cors_root (contents st))"
  using Prefixed_store [OF assms] main_config_stores [OF assms] ..

theorem Prefixed_isolates_witness:
  "kv_store (NewPrefixed ''/a'' mem_kv) (\<lambda>st. below ''/a'' (map_of st))
      (\<lambda>st. ((), other_keys (prefixed_root ''/a'') (map_of st)))"
  using Prefixed_isolates [OF mem.kv_store_axioms, of "''/a''"] ..

end
