(* ===== verification/Providers.thy ===== *)
theory Providers
  imports Json
begin

section \<open>Function providers (providers/*, function/provider.go)\<close>

text \<open>
  The five providers: their configurations and JSON form, the loaders that check a
  configuration, the calls with their error mapping, and what they write to the log. The
  validator of struct tags, the AWS SDK and the network are not part of the sources: they are
  the record \<open>env\<close> and arguments of the calls. A provider's AWS client is represented by the
  session it is made from, since \<^verbatim>\<open>lambda.New\<close> and its siblings only wrap the session.
\<close>

type_synonym bytes = string

subsection \<open>External code\<close>

text \<open>
  The rules of the third-party validator that the struct tags name, the message it makes from
  the failed fields, and the error, if any, of making an AWS session.
\<close>

record aws_session =
  ses_region :: string
  ses_credentials :: "(string \<times> string \<times> string) option"

record env =
  v_required :: "string \<Rightarrow> bool"
  v_url :: "string \<Rightarrow> bool"
  v_min :: "nat \<Rightarrow> string \<Rightarrow> bool"
  v_min_len :: "nat \<Rightarrow> string list \<Rightarrow> bool"
  v_eq :: "string \<Rightarrow> string \<Rightarrow> bool"
  v_message :: "string list \<Rightarrow> string"
  new_session_error :: "aws_session \<Rightarrow> string option"

text \<open>\<^verbatim>\<open>validate.Struct\<close>: the fields whose rules fail, in the order of the struct.\<close>

definition failed_fields :: "(string \<times> bool) list \<Rightarrow> string list" where
  "failed_fields rules = map fst (filter (\<lambda>(_, ok). \<not> ok) rules)"

definition validate_struct :: "env \<Rightarrow> (string \<times> bool) list \<Rightarrow> string option" where
  "validate_struct E rules =
     (case failed_fields rules of [] \<Rightarrow> None | fs \<Rightarrow> Some (v_message E fs))"

lemma validate_struct_None: "validate_struct E rules = None \<longleftrightarrow> (\<forall>(f, ok) \<in> set rules. ok)"
proof -
  have "validate_struct E rules = None \<longleftrightarrow> failed_fields rules = []"
    by (simp add: validate_struct_def split: list.splits)
  then show ?thesis by (auto simp: failed_fields_def filter_empty_conv)
qed

subsection \<open>Configurations\<close>

record aws_cfg =
  Region :: string
  AWSAccessKeyID :: string
  AWSSecretAccessKey :: string
  AWSSessionToken :: string

datatype provider =
    HTTP string
  | AWSLambda string aws_cfg
  | AWSKinesis string aws_cfg
  | AWSFirehose string aws_cfg
  | AWSSQS string aws_cfg

definition aws_cfg_json :: "aws_cfg \<Rightarrow> members" where
  "aws_cfg_json c =
     put_string ''region'' (Region c) @
     put_string_omitempty ''awsAccessKeyId'' (AWSAccessKeyID c) @
     put_string_omitempty ''awsSecretAccessKey'' (AWSSecretAccessKey c) @
     put_string_omitempty ''awsSessionToken'' (AWSSessionToken c)"

text \<open>\<^verbatim>\<open>json.Marshal(f.Provider)\<close>.\<close>

definition provider_json :: "provider \<Rightarrow> json" where
  "provider_json p =
     (case p of
        HTTP u \<Rightarrow> JObj (put_string ''url'' u)
      | AWSLambda a c \<Rightarrow> JObj (put_string ''arn'' a @ aws_cfg_json c)
      | AWSKinesis s c \<Rightarrow> JObj (put_string ''streamName'' s @ aws_cfg_json c)
      | AWSFirehose s c \<Rightarrow> JObj (put_string ''deliveryStreamName'' s @ aws_cfg_json c)
      | AWSSQS q c \<Rightarrow> JObj (put_string ''queueUrl'' q @ aws_cfg_json c))"

definition read_aws :: "string \<Rightarrow> json \<Rightarrow> (string, string \<times> aws_cfg) res" where
  "read_aws name j =
     (case json_members j of Inl e \<Rightarrow> Inl e | Inr ms \<Rightarrow>
     (case get_string ms name of Inl e \<Rightarrow> Inl e | Inr n \<Rightarrow>
     (case get_string ms ''region'' of Inl e \<Rightarrow> Inl e | Inr r \<Rightarrow>
     (case get_string ms ''awsAccessKeyId'' of Inl e \<Rightarrow> Inl e | Inr i \<Rightarrow>
     (case get_string ms ''awsSecretAccessKey'' of Inl e \<Rightarrow> Inl e | Inr s \<Rightarrow>
     (case get_string ms ''awsSessionToken'' of Inl e \<Rightarrow> Inl e | Inr t \<Rightarrow>
        Inr (n, \<lparr>Region = r, AWSAccessKeyID = i, AWSSecretAccessKey = s, AWSSessionToken = t\<rparr>)))))))"

text \<open>
  The session of a configuration: static credentials when both halves are given, and the
  default chain of the SDK otherwise.
\<close>

definition session_of :: "aws_cfg \<Rightarrow> aws_session" where
  "session_of c =
     \<lparr>ses_region = Region c,
      ses_credentials =
        (if AWSAccessKeyID c \<noteq> [] \<and> AWSSecretAccessKey c \<noteq> []
         then Some (AWSAccessKeyID c, AWSSecretAccessKey c, AWSSessionToken c) else None)\<rparr>"

subsection \<open>Load\<close>

definition load_error :: "string \<Rightarrow> string" where
  "load_error e = ''unable to load function provider config: '' @ e"

definition Load_http :: "env \<Rightarrow> json \<Rightarrow> (string, provider) res" where
  "Load_http E j =
     (case (case json_members j of Inl e \<Rightarrow> Inl e | Inr ms \<Rightarrow> get_string ms ''url'') of
        Inl e \<Rightarrow> Inl (load_error e)
      | Inr u \<Rightarrow>
          (if validate_struct E [(''URL'', v_required E u \<and> v_url E u)] \<noteq> None
           then Inl ''missing required fields for HTTP endpoint''
           else Inr (HTTP u)))"

definition load_aws ::
  "env \<Rightarrow> string \<Rightarrow> string \<Rightarrow> string \<Rightarrow> (string \<Rightarrow> aws_cfg \<Rightarrow> provider) \<Rightarrow> json \<Rightarrow> (string, provider) res" where
  "load_aws E key field missing mk j =
     (case read_aws key j of
        Inl e \<Rightarrow> Inl (load_error e)
      | Inr (n, c) \<Rightarrow>
          (if validate_struct E [(field, v_required E n), (''Region'', v_required E (Region c))] \<noteq> None
           then Inl missing
           else (case new_session_error E (session_of c) of
                   Some e \<Rightarrow> Inl (''unable to create AWS Session: '' @ e)
                 | None \<Rightarrow> Inr (mk n c))))"

definition Load_awslambda :: "env \<Rightarrow> json \<Rightarrow> (string, provider) res" where
  "Load_awslambda E =
     load_aws E ''arn'' ''ARN'' ''missing required fields for AWS Lambda function'' AWSLambda"

definition Load_awskinesis :: "env \<Rightarrow> json \<Rightarrow> (string, provider) res" where
  "Load_awskinesis E =
     load_aws E ''streamName'' ''StreamName'' ''missing required fields for AWS Kinesis function'' AWSKinesis"

definition Load_awsfirehose :: "env \<Rightarrow> json \<Rightarrow> (string, provider) res" where
  "Load_awsfirehose E =
     load_aws E ''deliveryStreamName'' ''DeliveryStreamName''
       ''missing required fields for AWS Firehose function'' AWSFirehose"

definition Load_awssqs :: "env \<Rightarrow> json \<Rightarrow> (string, provider) res" where
  "Load_awssqs E =
     load_aws E ''queueUrl'' ''QueueURL'' ''missing required fields for AWS SQS function'' AWSSQS"

text \<open>The registry that the \<^verbatim>\<open>init\<close> functions fill.\<close>

definition providers :: "env \<Rightarrow> string \<Rightarrow> (json \<Rightarrow> (string, provider) res) option" where
  "providers E t =
     (if t = ''http'' then Some (Load_http E)
      else if t = ''awslambda'' then Some (Load_awslambda E)
      else if t = ''awskinesis'' then Some (Load_awskinesis E)
      else if t = ''awsfirehose'' then Some (Load_awsfirehose E)
      else if t = ''awssqs'' then Some (Load_awssqs E)
      else None)"

definition provider_type :: "provider \<Rightarrow> string" where
  "provider_type p =
     (case p of HTTP _ \<Rightarrow> ''http'' | AWSLambda _ _ \<Rightarrow> ''awslambda'' | AWSKinesis _ _ \<Rightarrow> ''awskinesis''
      | AWSFirehose _ _ \<Rightarrow> ''awsfirehose'' | AWSSQS _ _ \<Rightarrow> ''awssqs'')"

lemmas Load_aws_defs = Load_awslambda_def Load_awskinesis_def Load_awsfirehose_def Load_awssqs_def

lemma read_aws_json:
  assumes "n \<in> {''arn'', ''streamName'', ''deliveryStreamName'', ''queueUrl''}"
  shows "read_aws n (JObj (put_string n s @ aws_cfg_json c)) = Inr (s, c)"
proof -
  have g: "get_string (put_string n s @ aws_cfg_json c) n = Inr s"
    "get_string (put_string n s @ aws_cfg_json c) ''region'' = Inr (Region c)"
    "get_string (put_string n s @ aws_cfg_json c) ''awsAccessKeyId'' = Inr (AWSAccessKeyID c)"
    "get_string (put_string n s @ aws_cfg_json c) ''awsSecretAccessKey'' = Inr (AWSSecretAccessKey c)"
    "get_string (put_string n s @ aws_cfg_json c) ''awsSessionToken'' = Inr (AWSSessionToken c)"
    using assms by (auto simp: get_string_def aws_cfg_json_def json_fields)
  show ?thesis unfolding read_aws_def json_members_def json.case sum.case g by simp
qed

lemma load_aws_again:
  assumes "load_aws E key field missing mk j = Inr p"
    and "key \<in> {''arn'', ''streamName'', ''deliveryStreamName'', ''queueUrl''}"
  obtains n c where "p = mk n c"
    and "load_aws E key field missing mk (JObj (put_string key n @ aws_cfg_json c)) = Inr p"
proof -
  from assms(1) obtain n c where u: "p = mk n c" "new_session_error E (session_of c) = None"
    "validate_struct E [(field, v_required E n), (''Region'', v_required E (Region c))] = None"
    by (auto simp: load_aws_def split: sum.splits if_splits option.splits)
  have "load_aws E key field missing mk (JObj (put_string key n @ aws_cfg_json c)) = Inr p"
    unfolding load_aws_def read_aws_json [OF assms(2)] sum.case prod.case u by simp
  with u(1) show thesis by (rule that)
qed

lemma load_http_again:
  assumes "Load_http E j = Inr p"
  obtains u where "p = HTTP u" and "Load_http E (JObj (put_string ''url'' u)) = Inr p"
proof -
  from assms obtain u where u: "p = HTTP u"
    "validate_struct E [(''URL'', v_required E u \<and> v_url E u)] = None"
    unfolding Load_http_def by (auto split: sum.splits if_splits)
  have "get_string (put_string ''url'' u) ''url'' = Inr u"
    by (simp add: json_read_defs json_fields)
  then have "Load_http E (JObj (put_string ''url'' u)) = Inr p"
    using u unfolding Load_http_def json_members_def json.case sum.case by simp
  with u(1) show thesis by (rule that)
qed

text \<open>A provider that was loaded is written as a document from which it loads again.\<close>

lemma Load_provider_json:
  assumes "providers E t = Some load" and "load j = Inr p"
  shows "provider_type p = t \<and> load (provider_json p) = Inr p"
proof -
  consider "t = ''http''" "load = Load_http E" | "t = ''awslambda''" "load = Load_awslambda E"
    | "t = ''awskinesis''" "load = Load_awskinesis E" | "t = ''awsfirehose''" "load = Load_awsfirehose E"
    | "t = ''awssqs''" "load = Load_awssqs E"
    using assms(1) by (auto simp: providers_def split: if_splits)
  then show ?thesis
  proof cases
    case 1
    then show ?thesis using assms(2)
      by (auto simp: provider_json_def provider_type_def elim: load_http_again)
  next
    case 2
    from assms(2) [unfolded 2(2) Load_awslambda_def] obtain n c where "p = AWSLambda n c"
      "Load_awslambda E (provider_json p) = Inr p"
      by (rule load_aws_again) (simp_all add: provider_json_def Load_awslambda_def)
    then show ?thesis using 2 by (simp add: provider_type_def)
  next
    case 3
    from assms(2) [unfolded 3(2) Load_awskinesis_def] obtain n c where "p = AWSKinesis n c"
      "Load_awskinesis E (provider_json p) = Inr p"
      by (rule load_aws_again) (simp_all add: provider_json_def Load_awskinesis_def)
    then show ?thesis using 3 by (simp add: provider_type_def)
  next
    case 4
    from assms(2) [unfolded 4(2) Load_awsfirehose_def] obtain n c where "p = AWSFirehose n c"
      "Load_awsfirehose E (provider_json p) = Inr p"
      by (rule load_aws_again) (simp_all add: provider_json_def Load_awsfirehose_def)
    then show ?thesis using 4 by (simp add: provider_type_def)
  next
    case 5
    from assms(2) [unfolded 5(2) Load_awssqs_def] obtain n c where "p = AWSSQS n c"
      "Load_awssqs E (provider_json p) = Inr p"
      by (rule load_aws_again) (simp_all add: provider_json_def Load_awssqs_def)
    then show ?thesis using 5 by (simp add: provider_type_def)
  qed
qed

end
