(* ===== verification/ProviderCalls.thy ===== *)
theory ProviderCalls
  imports Providers
begin

section \<open>Calling a provider and logging it (providers/*)\<close>

text \<open>
  \<^verbatim>\<open>Call\<close> of each provider as a function of what the outside world answers: the AWS
  clients, the HTTP client and the UUID generator are the record \<open>world\<close>. An AWS operation
  returns a pointer to its output and an error, either of which may be nil; dereferencing a
  nil pointer is the result \<open>CallPanic\<close>. \<^verbatim>\<open>MarshalLogObject\<close> is the list of the
  fields that a provider adds to a log entry.
\<close>

subsection \<open>Errors\<close>

text \<open>An error value of Go: one that implements \<^verbatim>\<open>awserr.Error\<close>, with its code, or another.\<close>

datatype go_error = AwsError string string | OtherError string

datatype call_error =
    ErrFunctionCallFailed go_error
  | ErrFunctionAccessDenied go_error
  | ErrFunctionProviderError go_error
  | ErrFunctionError go_error
  | PlainError go_error

datatype call_result = CallReturns bytes "call_error option" | CallPanic

fun go_error_text :: "go_error \<Rightarrow> string" where
  "go_error_text (AwsError code msg) = code @ '': '' @ msg"
| "go_error_text (OtherError msg) = msg"

fun call_error_text :: "call_error \<Rightarrow> string" where
  "call_error_text (ErrFunctionCallFailed e) = ''Function call failed. Error: '' @ go_error_text e"
| "call_error_text (ErrFunctionAccessDenied e) = ''Function access denied. Error: '' @ go_error_text e"
| "call_error_text (ErrFunctionProviderError e) =
     ''Function call failed because of provider error. Error: '' @ go_error_text e"
| "call_error_text (ErrFunctionError e) =
     ''Function call failed because of runtime error. Error: '' @ go_error_text e"
| "call_error_text (PlainError e) = go_error_text e"

subsection \<open>The outside world\<close>

record invoke_output =
  FunctionError :: "string option"
  invoke_Payload :: bytes

record http_response =
  StatusCode :: nat
  body_read :: "bytes \<times> go_error option"

record world =
  ErrCodeServiceException :: string
  Invoke :: "aws_session \<Rightarrow> string \<Rightarrow> bytes \<Rightarrow> invoke_output option \<times> go_error option"
  Kinesis_PutRecord :: "aws_session \<Rightarrow> string \<Rightarrow> bytes \<Rightarrow> string \<Rightarrow> string option \<times> go_error option"
  Firehose_PutRecord :: "aws_session \<Rightarrow> string \<Rightarrow> bytes \<Rightarrow> string option \<times> go_error option"
  SQS_SendMessage :: "aws_session \<Rightarrow> string \<Rightarrow> string \<Rightarrow> string option \<times> go_error option"
  uuid_NewV4 :: string
  http_Post :: "nat \<Rightarrow> string \<Rightarrow> string \<Rightarrow> bytes \<Rightarrow> (go_error, http_response) res"

subsection \<open>Call\<close>

definition Call_http :: "world \<Rightarrow> string \<Rightarrow> bytes \<Rightarrow> call_result" where
  "Call_http w url payload =
     (case http_Post w 5 url ''application/cloudevents+json'' payload of
        Inl e \<Rightarrow> CallReturns [] (Some (ErrFunctionCallFailed e))
      | Inr resp \<Rightarrow>
          (if StatusCode resp = 500
           then CallReturns [] (Some (ErrFunctionError (OtherError ''HTTP status code: 500'')))
           else CallReturns (fst (body_read resp)) (map_option PlainError (snd (body_read resp)))))"

definition lambda_error :: "world \<Rightarrow> go_error \<Rightarrow> string \<Rightarrow> call_error" where
  "lambda_error w e code =
     (if code \<in> {''AccessDeniedException'', ''ExpiredTokenException'', ''UnrecognizedClientException''}
      then ErrFunctionAccessDenied e
      else if code = ErrCodeServiceException w then ErrFunctionProviderError e
      else ErrFunctionCallFailed e)"

definition Call_awslambda :: "world \<Rightarrow> string \<Rightarrow> aws_session \<Rightarrow> bytes \<Rightarrow> call_result" where
  "Call_awslambda w arn ses payload =
     (case Invoke w ses arn payload of (out, err) \<Rightarrow>
       (case err of
          Some (AwsError code msg) \<Rightarrow> CallReturns [] (Some (lambda_error w (AwsError code msg) code))
        | _ \<Rightarrow>
            (case out of
               None \<Rightarrow> CallPanic
             | Some r \<Rightarrow>
                 (case FunctionError r of
                    Some m \<Rightarrow> CallReturns [] (Some (ErrFunctionError (OtherError m)))
                  | None \<Rightarrow> CallReturns (invoke_Payload r) (map_option PlainError err)))))"

text \<open>
  The other three AWS providers answer with the text behind a pointer of the output; the
  error is only returned early when it is an \<^verbatim>\<open>awserr.Error\<close>.
\<close>

definition returned_text :: "string option \<times> go_error option \<Rightarrow> call_result" where
  "returned_text answer =
     (case answer of (out, err) \<Rightarrow>
       (case err of
          Some (AwsError code msg) \<Rightarrow> CallReturns [] (Some (ErrFunctionCallFailed (AwsError code msg)))
        | _ \<Rightarrow>
            (case out of
               None \<Rightarrow> CallPanic
             | Some s \<Rightarrow> CallReturns s (map_option PlainError err))))"

definition Call_awskinesis :: "world \<Rightarrow> string \<Rightarrow> aws_session \<Rightarrow> bytes \<Rightarrow> call_result" where
  "Call_awskinesis w stream ses payload =
     returned_text (Kinesis_PutRecord w ses stream payload (uuid_NewV4 w))"

definition Call_awsfirehose :: "world \<Rightarrow> string \<Rightarrow> aws_session \<Rightarrow> bytes \<Rightarrow> call_result" where
  "Call_awsfirehose w stream ses payload = returned_text (Firehose_PutRecord w ses stream payload)"

definition Call_awssqs :: "world \<Rightarrow> string \<Rightarrow> aws_session \<Rightarrow> bytes \<Rightarrow> call_result" where
  "Call_awssqs w queue ses payload = returned_text (SQS_SendMessage w ses queue payload)"

definition provider_Call :: "world \<Rightarrow> provider \<Rightarrow> bytes \<Rightarrow> call_result" where
  "provider_Call w p payload =
     (case p of
        HTTP u \<Rightarrow> Call_http w u payload
      | AWSLambda a c \<Rightarrow> Call_awslambda w a (session_of c) payload
      | AWSKinesis s c \<Rightarrow> Call_awskinesis w s (session_of c) payload
      | AWSFirehose s c \<Rightarrow> Call_awsfirehose w s (session_of c) payload
      | AWSSQS q c \<Rightarrow> Call_awssqs w q (session_of c) payload)"

subsection \<open>MarshalLogObject\<close>

type_synonym log_fields = "(string \<times> string) list"

definition aws_log :: "aws_cfg \<Rightarrow> log_fields" where
  "aws_log c =
     [(''region'', Region c)] @
     (if AWSAccessKeyID c \<noteq> [] then [(''awsAccessKeyId'', ''*****'')] else []) @
     (if AWSSecretAccessKey c \<noteq> [] then [(''awsSecretAccessKey'', ''*****'')] else []) @
     (if AWSSessionToken c \<noteq> [] then [(''awsSessionToken'', ''*****'')] else [])"

definition provider_log :: "provider \<Rightarrow> log_fields" where
  "provider_log p =
     (case p of
        HTTP u \<Rightarrow> [(''url'', u)]
      | AWSLambda a c \<Rightarrow> (''arn'', a) # aws_log c
      | AWSKinesis s c \<Rightarrow> (''streamName'', s) # aws_log c
      | AWSFirehose s c \<Rightarrow> (''deliveryStreamName'', s) # aws_log c
      | AWSSQS q c \<Rightarrow> (''queueUrl'', q) # aws_log c)"

subsection \<open>Properties\<close>

text \<open>A configuration with its credentials blotted out, and only the fact that they are set left.\<close>

definition blot :: "string \<Rightarrow> string" where
  "blot s = (if s = [] then [] else ''x'')"

definition redact_cfg :: "aws_cfg \<Rightarrow> aws_cfg" where
  "redact_cfg c = c\<lparr>AWSAccessKeyID := blot (AWSAccessKeyID c),
     AWSSecretAccessKey := blot (AWSSecretAccessKey c), AWSSessionToken := blot (AWSSessionToken c)\<rparr>"

fun redact :: "provider \<Rightarrow> provider" where
  "redact (HTTP u) = HTTP u"
| "redact (AWSLambda a c) = AWSLambda a (redact_cfg c)"
| "redact (AWSKinesis s c) = AWSKinesis s (redact_cfg c)"
| "redact (AWSFirehose s c) = AWSFirehose s (redact_cfg c)"
| "redact (AWSSQS q c) = AWSSQS q (redact_cfg c)"

text \<open>Credentials never reach the log: what a provider logs is a function of its configuration
  with the access key, the secret key and the session token blotted out.\<close>

theorem credentials_not_logged:
  "provider_log p = provider_log (redact p) \<and> (redact p = redact q \<longrightarrow> provider_log p = provider_log q)"
proof -
  have "aws_log c = aws_log (redact_cfg c)" for c by (simp add: aws_log_def redact_cfg_def blot_def)
  then have "provider_log p = provider_log (redact p)" for p by (cases p) (simp_all add: provider_log_def)
  then show ?thesis by metis
qed

theorem credentials_not_logged_witness:
  "provider_log (AWSSQS ''q'' \<lparr>Region = ''us'', AWSAccessKeyID = ''AKIA1'', AWSSecretAccessKey = ''s'', AWSSessionToken = []\<rparr>) =
   provider_log (AWSSQS ''q'' \<lparr>Region = ''us'', AWSAccessKeyID = ''other'', AWSSecretAccessKey = ''t'', AWSSessionToken = []\<rparr>)"
  by (rule credentials_not_logged [THEN conjunct2, THEN mp]) (simp add: redact_cfg_def blot_def)

text \<open>The error mapping of a Lambda call, on every branch. An AWS error is an access error, a
  provider error or a failed call by its code; a function error of the output is reported as
  such; the payload is returned without an error exactly when the service reports none; and
  the call panics exactly when it has neither an AWS error nor an output.\<close>

theorem lambda_call_outcomes:
  assumes "Invoke w (session_of c) arn payload = (out, err)"
  shows
    "(\<forall>code msg. err = Some (AwsError code msg) \<longrightarrow>
        (\<exists>e. provider_Call w (AWSLambda arn c) payload = CallReturns [] (Some e) \<and>
           (e = ErrFunctionAccessDenied (AwsError code msg) \<longleftrightarrow>
              code \<in> {''AccessDeniedException'', ''ExpiredTokenException'', ''UnrecognizedClientException''}))) \<and>
     (provider_Call w (AWSLambda arn c) payload = CallReturns b None \<longleftrightarrow>
        err = None \<and> (\<exists>r. out = Some r \<and> FunctionError r = None \<and> invoke_Payload r = b)) \<and>
     (provider_Call w (AWSLambda arn c) payload = CallPanic \<longleftrightarrow>
        out = None \<and> (\<nexists>code msg. err = Some (AwsError code msg)))"
  using assms
  by (auto simp: provider_Call_def Call_awslambda_def lambda_error_def
      split: option.splits go_error.splits)

definition closed_world :: world where
  "closed_world =
     \<lparr>ErrCodeServiceException = ''ServiceException'',
      Invoke = (\<lambda>_ _ b. (Some \<lparr>FunctionError = None, invoke_Payload = b\<rparr>, None)),
      Kinesis_PutRecord = (\<lambda>_ _ _ _. (None, Some (OtherError ''timeout''))),
      Firehose_PutRecord = (\<lambda>_ _ _. (Some ''id'', None)),
      SQS_SendMessage = (\<lambda>_ _ _. (None, Some (AwsError ''Throttled'' ''''))),
      uuid_NewV4 = ''u'',
      http_Post = (\<lambda>_ _ _ _. Inr \<lparr>StatusCode = 200, body_read = (''ok'', None)\<rparr>)\<rparr>"

theorem lambda_call_outcomes_witness:
  "provider_Call closed_world
     (AWSLambda ''f'' \<lparr>Region = '''', AWSAccessKeyID = '''', AWSSecretAccessKey = '''', AWSSessionToken = ''''\<rparr>) ''hi''
   = CallReturns ''hi'' None"
  using lambda_call_outcomes [of closed_world
      "\<lparr>Region = '''', AWSAccessKeyID = '''', AWSSecretAccessKey = '''', AWSSessionToken = ''''\<rparr>"
      "''f''" "''hi''" "Some \<lparr>FunctionError = None, invoke_Payload = ''hi''\<rparr>" None "''hi''"]
  by (simp add: closed_world_def)

text \<open>A call of Kinesis, Firehose or SQS does not survive an error that is no AWS error when the
  client returns no output: the nil output is dereferenced. Apart from that, the identifier of
  the record is returned, and an AWS error is a failed call.\<close>

theorem queue_call_outcomes:
  assumes "p = AWSKinesis n c \<and> answer = Kinesis_PutRecord w (session_of c) n b (uuid_NewV4 w) \<or>
    p = AWSFirehose n c \<and> answer = Firehose_PutRecord w (session_of c) n b \<or>
    p = AWSSQS n c \<and> answer = SQS_SendMessage w (session_of c) n b"
  shows "(provider_Call w p b = CallPanic \<longleftrightarrow>
      fst answer = None \<and> (\<nexists>code msg. snd answer = Some (AwsError code msg))) \<and>
    (provider_Call w p b = CallReturns r None \<longleftrightarrow> answer = (Some r, None)) \<and>
    (\<forall>code msg. snd answer = Some (AwsError code msg) \<longrightarrow>
       provider_Call w p b = CallReturns [] (Some (ErrFunctionCallFailed (AwsError code msg))))"
  using assms
  by (auto simp: provider_Call_def Call_awskinesis_def Call_awsfirehose_def Call_awssqs_def
      returned_text_def split: prod.splits option.splits go_error.splits)

theorem queue_call_outcomes_witness:
  "provider_Call closed_world
     (AWSKinesis ''f'' \<lparr>Region = '''', AWSAccessKeyID = '''', AWSSecretAccessKey = '''', AWSSessionToken = ''''\<rparr>) ''hi''
   = CallPanic"
  using queue_call_outcomes [of
      "AWSKinesis ''f'' \<lparr>Region = '''', AWSAccessKeyID = '''', AWSSecretAccessKey = '''', AWSSessionToken = ''''\<rparr>"
      "''f''" "\<lparr>Region = '''', AWSAccessKeyID = '''', AWSSecretAccessKey = '''', AWSSessionToken = ''''\<rparr>"
      "(None, Some (OtherError ''timeout''))" closed_world "''hi''"]
  by (simp add: closed_world_def)

end
