(* ===== verification/Entities.thy ===== *)
theory Entities
  imports ProviderCalls
begin

section \<open>Entities: event types, functions, subscriptions, CORS (event, function, subscription, metadata)\<close>

text \<open>
  The four kinds of configuration entity as records with the source's fields, their JSON form
  given by the struct tags (with the custom methods of \<^verbatim>\<open>Function\<close>), what they log, and the
  errors of their services. A nil pointer is \<open>None\<close>; a nil and an empty metadata map are the
  same value.
\<close>

subsection \<open>Metadata\<close>

type_synonym metadata = "(string, string) fmap"

record metadata_filter =
  filter_Key :: string
  filter_Value :: string

fun metadata_Check :: "metadata \<Rightarrow> metadata_filter list \<Rightarrow> bool" where
  "metadata_Check m [] = True"
| "metadata_Check m (f # fs) =
     (case fmlookup m (filter_Key f) of
        None \<Rightarrow> False
      | Some v \<Rightarrow> if v \<noteq> filter_Value f then False else metadata_Check m fs)"

lemma metadata_Check_iff:
  "metadata_Check m fs \<longleftrightarrow> (\<forall>f \<in> set fs. fmlookup m (filter_Key f) = Some (filter_Value f))"
  by (induction fs) (auto split: option.splits)

lemma metadata_Check_Nil [simp]: "metadata_Check m []"
  by simp

subsection \<open>Errors of the services\<close>

text \<open>
  \<open>StoreError\<close> is an error of the store passed on as it is, \<open>JSONError\<close> one of the JSON
  decoder; \<open>Panicked\<close> stands for a panic, which is no error value: it ends the request.
\<close>

datatype svc_error =
    ErrEventTypeNotFound string
  | ErrEventTypeAlreadyExists string
  | ErrEventTypeValidation string
  | ErrEventTypeHasSubscriptions
  | ErrAuthorizerDoesNotExists
  | ErrFunctionNotFound string
  | ErrFunctionAlreadyRegistered string
  | ErrFunctionValidation string
  | ErrFunctionIsAuthorizer string string
  | ErrFunctionHasSubscriptions
  | ErrSubscriptionNotFound string
  | ErrSubscriptionAlreadyExists string
  | ErrInvalidSubscriptionUpdate string
  | ErrSubscriptionValidation string
  | ErrPathConfict string
  | ErrCORSNotFound string
  | ErrCORSAlreadyExists string
  | ErrCORSValidation string
  | ErrInvalidCORSUpdate string
  | StoreError string
  | JSONError string
  | Panicked

text \<open>The \<^verbatim>\<open>Error\<close> methods; \<^verbatim>\<open>%q\<close> is written as plain quotes.\<close>

definition quoted :: "string \<Rightarrow> string" where
  "quoted s = CHR ''\"'' # s @ ''\"''"

definition ErrEventTypeNotFound_Error :: "string \<Rightarrow> string" where
  "ErrEventTypeNotFound_Error n = ''Event Type '' @ quoted n @ '' not found.''"

definition ErrEventTypeAlreadyExists_Error :: "string \<Rightarrow> string" where
  "ErrEventTypeAlreadyExists_Error n = ''Event Type '' @ quoted n @ '' already exists.''"

definition ErrEventTypeValidation_Error :: "string \<Rightarrow> string" where
  "ErrEventTypeValidation_Error m = ''Event Type doesn't validate. Validation error: '' @ m"

definition ErrEventTypeHasSubscriptions_Error :: "string" where
  "ErrEventTypeHasSubscriptions_Error =
     ''Event type cannot be deleted because there are subscriptions using it.''"

definition ErrAuthorizerDoesNotExists_Error :: "string" where
  "ErrAuthorizerDoesNotExists_Error = ''Authorizer function doesn't exists.''"

definition ErrFunctionNotFound_Error :: "string \<Rightarrow> string" where
  "ErrFunctionNotFound_Error i = ''Function '' @ quoted i @ '' not found.''"

definition ErrFunctionAlreadyRegistered_Error :: "string \<Rightarrow> string" where
  "ErrFunctionAlreadyRegistered_Error i = ''Function '' @ quoted i @ '' already registered.''"

definition ErrFunctionValidation_Error :: "string \<Rightarrow> string" where
  "ErrFunctionValidation_Error m = ''Function doesn't validate. Validation error: '' @ m"

definition ErrFunctionIsAuthorizer_Error :: "string \<Rightarrow> string \<Rightarrow> string" where
  "ErrFunctionIsAuthorizer_Error i t =
     ''Function '' @ i @ '' cannot be deleted because is used as an authorizer for '' @ t @ '' event type.''"

definition ErrFunctionHasSubscriptions_Error :: "string" where
  "ErrFunctionHasSubscriptions_Error =
     ''Function cannot be deleted because it's subscribed to a least one event.''"

definition ErrSubscriptionNotFound_Error :: "string \<Rightarrow> string" where
  "ErrSubscriptionNotFound_Error i = ''Subscription '' @ quoted i @ '' not found.''"

definition ErrSubscriptionAlreadyExists_Error :: "string \<Rightarrow> string" where
  "ErrSubscriptionAlreadyExists_Error i = ''Subscription '' @ quoted i @ '' already exists.''"

definition ErrInvalidSubscriptionUpdate_Error :: "string \<Rightarrow> string" where
  "ErrInvalidSubscriptionUpdate_Error f =
     ''Invalid update. '' @ [CHR 39] @ f @ [CHR 39] @ '' of existing subscription cannot be updated.''"

definition ErrSubscriptionValidation_Error :: "string \<Rightarrow> string" where
  "ErrSubscriptionValidation_Error m = ''Subscription doesn't validate. Validation error: '' @ m"

definition ErrPathConfict_Error :: "string \<Rightarrow> string" where
  "ErrPathConfict_Error m = ''Subscription path conflict: '' @ m"

definition ErrCORSNotFound_Error :: "string \<Rightarrow> string" where
  "ErrCORSNotFound_Error i = ''CORS configuration '' @ quoted i @ '' not found.''"

definition ErrCORSAlreadyExists_Error :: "string \<Rightarrow> string" where
  "ErrCORSAlreadyExists_Error i = ''CORS configuration '' @ quoted i @ '' already exists.''"

definition ErrCORSValidation_Error :: "string \<Rightarrow> string" where
  "ErrCORSValidation_Error m = ''CORS configuration doesn't validate. Validation error: '' @ m"

definition ErrInvalidCORSUpdate_Error :: "string \<Rightarrow> string" where
  "ErrInvalidCORSUpdate_Error f =
     ''Invalid update. '' @ [CHR 39] @ f @ [CHR 39] @ '' of existing CORS configuration cannot be updated.''"

fun error_text :: "svc_error \<Rightarrow> string" where
  "error_text (ErrEventTypeNotFound n) = ErrEventTypeNotFound_Error n"
| "error_text (ErrEventTypeAlreadyExists n) = ErrEventTypeAlreadyExists_Error n"
| "error_text (ErrEventTypeValidation m) = ErrEventTypeValidation_Error m"
| "error_text ErrEventTypeHasSubscriptions = ErrEventTypeHasSubscriptions_Error"
| "error_text ErrAuthorizerDoesNotExists = ErrAuthorizerDoesNotExists_Error"
| "error_text (ErrFunctionNotFound i) = ErrFunctionNotFound_Error i"
| "error_text (ErrFunctionAlreadyRegistered i) = ErrFunctionAlreadyRegistered_Error i"
| "error_text (ErrFunctionValidation m) = ErrFunctionValidation_Error m"
| "error_text (ErrFunctionIsAuthorizer i t) = ErrFunctionIsAuthorizer_Error i t"
| "error_text ErrFunctionHasSubscriptions = ErrFunctionHasSubscriptions_Error"
| "error_text (ErrSubscriptionNotFound i) = ErrSubscriptionNotFound_Error i"
| "error_text (ErrSubscriptionAlreadyExists i) = ErrSubscriptionAlreadyExists_Error i"
| "error_text (ErrInvalidSubscriptionUpdate f) = ErrInvalidSubscriptionUpdate_Error f"
| "error_text (ErrSubscriptionValidation m) = ErrSubscriptionValidation_Error m"
| "error_text (ErrPathConfict m) = ErrPathConfict_Error m"
| "error_text (ErrCORSNotFound i) = ErrCORSNotFound_Error i"
| "error_text (ErrCORSAlreadyExists i) = ErrCORSAlreadyExists_Error i"
| "error_text (ErrCORSValidation m) = ErrCORSValidation_Error m"
| "error_text (ErrInvalidCORSUpdate f) = ErrInvalidCORSUpdate_Error f"
| "error_text (StoreError m) = m"
| "error_text (JSONError m) = m"
| "error_text Panicked = []"

subsection \<open>Event types\<close>

record event_type =
  et_Space :: string
  et_Name :: string
  et_AuthorizerID :: "string option"
  et_Metadata :: metadata

definition event_type_json :: "event_type \<Rightarrow> json" where
  "event_type_json t = JObj
     (put_string ''space'' (et_Space t) @ put_string ''name'' (et_Name t) @
      put_ptr_omitempty ''authorizerId'' (et_AuthorizerID t) @
      put_map_omitempty ''metadata'' (et_Metadata t))"

definition read_event_type :: "json \<Rightarrow> (svc_error, event_type) res" where
  "read_event_type j =
     (case json_members j of Inl e \<Rightarrow> Inl (JSONError e) | Inr ms \<Rightarrow>
     (case get_string ms ''space'' of Inl e \<Rightarrow> Inl (JSONError e) | Inr sp \<Rightarrow>
     (case get_string ms ''name'' of Inl e \<Rightarrow> Inl (JSONError e) | Inr n \<Rightarrow>
     (case get_string_ptr ms ''authorizerId'' of Inl e \<Rightarrow> Inl (JSONError e) | Inr a \<Rightarrow>
     (case get_map ms ''metadata'' of Inl e \<Rightarrow> Inl (JSONError e) | Inr m \<Rightarrow>
        Inr \<lparr>et_Space = sp, et_Name = n, et_AuthorizerID = a, et_Metadata = m\<rparr>)))))"

definition event_type_log :: "event_type \<Rightarrow> log_fields" where
  "event_type_log t =
     [(''space'', et_Space t), (''name'', et_Name t)] @
     (case et_AuthorizerID t of None \<Rightarrow> [] | Some a \<Rightarrow> [(''authorizer'', a)])"

subsection \<open>Functions\<close>

record func =
  fn_Space :: string
  fn_ID :: string
  fn_ProviderType :: string
  fn_Provider :: "provider option"
  fn_Metadata :: metadata

text \<open>
  \<^verbatim>\<open>MarshalJSON\<close> writes the provider as the member \<^verbatim>\<open>provider\<close>; \<^verbatim>\<open>UnmarshalJSON\<close> finds
  the loader by the member \<^verbatim>\<open>type\<close> and dereferences the pointer to the member
  \<^verbatim>\<open>provider\<close>, which is nil when it is missing or \<^verbatim>\<open>null\<close>.
\<close>

definition func_json :: "func \<Rightarrow> json" where
  "func_json f = JObj
     (put_string ''space'' (fn_Space f) @ put_string ''functionId'' (fn_ID f) @
      put_string ''type'' (fn_ProviderType f) @
      put_raw ''provider'' (case fn_Provider f of None \<Rightarrow> JNull | Some p \<Rightarrow> provider_json p) @
      put_map_omitempty ''metadata'' (fn_Metadata f))"

definition read_func :: "env \<Rightarrow> json \<Rightarrow> (svc_error, func) res" where
  "read_func E j =
     (case json_members j of Inl e \<Rightarrow> Inl (JSONError e) | Inr ms \<Rightarrow>
     (case get_string ms ''space'' of Inl e \<Rightarrow> Inl (JSONError e) | Inr sp \<Rightarrow>
     (case get_string ms ''functionId'' of Inl e \<Rightarrow> Inl (JSONError e) | Inr i \<Rightarrow>
     (case get_string ms ''type'' of Inl e \<Rightarrow> Inl (JSONError e) | Inr t \<Rightarrow>
     (case get_map ms ''metadata'' of Inl e \<Rightarrow> Inl (JSONError e) | Inr m \<Rightarrow>
        (if t = [] then Inl (JSONError ''provider configuration not set'')
         else
           (case providers E t of
              None \<Rightarrow> Inl (JSONError (''provider '' @ t @ '' not supported''))
            | Some load \<Rightarrow>
                (case get_raw ms ''provider'' of
                   None \<Rightarrow> Inl Panicked
                 | Some config \<Rightarrow>
                     (case load config of
                        Inl e \<Rightarrow> Inl (JSONError e)
                      | Inr p \<Rightarrow> Inr \<lparr>fn_Space = sp, fn_ID = i, fn_ProviderType = t,
                                       fn_Provider = Some p, fn_Metadata = m\<rparr>)))))))))"

definition func_log :: "func \<Rightarrow> log_fields" where
  "func_log f =
     [(''space'', fn_Space f), (''functionId'', fn_ID f), (''type'', fn_ProviderType f)] @
     (case fn_Provider f of None \<Rightarrow> [] | Some p \<Rightarrow> provider_log p)"

definition func_Call :: "world \<Rightarrow> func \<Rightarrow> bytes \<Rightarrow> call_result" where
  "func_Call w f payload =
     (case fn_Provider f of None \<Rightarrow> CallPanic | Some p \<Rightarrow> provider_Call w p payload)"

text \<open>A function whose provider came out of the loader of its type.\<close>

definition loaded :: "env \<Rightarrow> func \<Rightarrow> bool" where
  "loaded E f \<longleftrightarrow> fn_ProviderType f \<noteq> [] \<and>
     (\<exists>p load. fn_Provider f = Some p \<and> providers E (fn_ProviderType f) = Some load \<and>
        load (provider_json p) = Inr p)"

subsection \<open>Subscriptions\<close>

record subscription =
  sub_Space :: string
  sub_ID :: string
  sub_Type :: string
  sub_EventType :: string
  sub_FunctionID :: string
  sub_Path :: string
  sub_Method :: string
  sub_Metadata :: metadata

abbreviation TypeSync :: string where "TypeSync \<equiv> ''sync''"
abbreviation TypeAsync :: string where "TypeAsync \<equiv> ''async''"

definition subscription_json :: "subscription \<Rightarrow> json" where
  "subscription_json s = JObj
     (put_string ''space'' (sub_Space s) @ put_string ''subscriptionId'' (sub_ID s) @
      put_string ''type'' (sub_Type s) @ put_string ''eventType'' (sub_EventType s) @
      put_string ''functionId'' (sub_FunctionID s) @ put_string ''path'' (sub_Path s) @
      put_string ''method'' (sub_Method s) @ put_map_omitempty ''metadata'' (sub_Metadata s))"

definition read_subscription :: "json \<Rightarrow> (svc_error, subscription) res" where
  "read_subscription j =
     (case json_members j of Inl e \<Rightarrow> Inl (JSONError e) | Inr ms \<Rightarrow>
     (case get_string ms ''space'' of Inl e \<Rightarrow> Inl (JSONError e) | Inr sp \<Rightarrow>
     (case get_string ms ''subscriptionId'' of Inl e \<Rightarrow> Inl (JSONError e) | Inr i \<Rightarrow>
     (case get_string ms ''type'' of Inl e \<Rightarrow> Inl (JSONError e) | Inr t \<Rightarrow>
     (case get_string ms ''eventType'' of Inl e \<Rightarrow> Inl (JSONError e) | Inr et \<Rightarrow>
     (case get_string ms ''functionId'' of Inl e \<Rightarrow> Inl (JSONError e) | Inr f \<Rightarrow>
     (case get_string ms ''path'' of Inl e \<Rightarrow> Inl (JSONError e) | Inr p \<Rightarrow>
     (case get_string ms ''method'' of Inl e \<Rightarrow> Inl (JSONError e) | Inr me \<Rightarrow>
     (case get_map ms ''metadata'' of Inl e \<Rightarrow> Inl (JSONError e) | Inr m \<Rightarrow>
        Inr \<lparr>sub_Space = sp, sub_ID = i, sub_Type = t, sub_EventType = et, sub_FunctionID = f,
             sub_Path = p, sub_Method = me, sub_Metadata = m\<rparr>)))))))))"

definition subscription_log :: "subscription \<Rightarrow> log_fields" where
  "subscription_log s =
     [(''space'', sub_Space s), (''subscriptionId'', sub_ID s), (''type'', sub_Type s),
      (''eventType'', sub_EventType s), (''functionId'', sub_FunctionID s)] @
     (if sub_Method s \<noteq> [] then [(''method'', sub_Method s)] else []) @
     (if sub_Path s \<noteq> [] then [(''path'', sub_Path s)] else [])"

subsection \<open>CORS configurations\<close>

record cors =
  cors_Space :: string
  cors_ID :: string
  cors_Method :: string
  cors_Path :: string
  cors_AllowedOrigins :: "string list"
  cors_AllowedMethods :: "string list"
  cors_AllowedHeaders :: "string list"
  cors_AllowCredentials :: bool
  cors_Metadata :: metadata

definition cors_json :: "cors \<Rightarrow> json" where
  "cors_json c = JObj
     (put_string ''space'' (cors_Space c) @ put_string ''corsId'' (cors_ID c) @
      put_string ''method'' (cors_Method c) @ put_string ''path'' (cors_Path c) @
      put_strings ''allowedOrigins'' (cors_AllowedOrigins c) @
      put_strings ''allowedMethods'' (cors_AllowedMethods c) @
      put_strings ''allowedHeaders'' (cors_AllowedHeaders c) @
      put_bool ''allowCredentials'' (cors_AllowCredentials c) @
      put_map_omitempty ''metadata'' (cors_Metadata c))"

definition read_cors :: "json \<Rightarrow> (svc_error, cors) res" where
  "read_cors j =
     (case json_members j of Inl e \<Rightarrow> Inl (JSONError e) | Inr ms \<Rightarrow>
     (case get_string ms ''space'' of Inl e \<Rightarrow> Inl (JSONError e) | Inr sp \<Rightarrow>
     (case get_string ms ''corsId'' of Inl e \<Rightarrow> Inl (JSONError e) | Inr i \<Rightarrow>
     (case get_string ms ''method'' of Inl e \<Rightarrow> Inl (JSONError e) | Inr me \<Rightarrow>
     (case get_string ms ''path'' of Inl e \<Rightarrow> Inl (JSONError e) | Inr p \<Rightarrow>
     (case get_strings ms ''allowedOrigins'' of Inl e \<Rightarrow> Inl (JSONError e) | Inr os \<Rightarrow>
     (case get_strings ms ''allowedMethods'' of Inl e \<Rightarrow> Inl (JSONError e) | Inr am \<Rightarrow>
     (case get_strings ms ''allowedHeaders'' of Inl e \<Rightarrow> Inl (JSONError e) | Inr hs \<Rightarrow>
     (case get_bool ms ''allowCredentials'' of Inl e \<Rightarrow> Inl (JSONError e) | Inr b \<Rightarrow>
     (case get_map ms ''metadata'' of Inl e \<Rightarrow> Inl (JSONError e) | Inr m \<Rightarrow>
        Inr \<lparr>cors_Space = sp, cors_ID = i, cors_Method = me, cors_Path = p,
             cors_AllowedOrigins = os, cors_AllowedMethods = am, cors_AllowedHeaders = hs,
             cors_AllowCredentials = b, cors_Metadata = m\<rparr>))))))))))"

text \<open>\<^verbatim>\<open>zap.Strings\<close> adds the elements of a slice one by one.\<close>

datatype log_value = LogString string | LogArray "string list" | LogBool bool

fun zap_Strings :: "string list \<Rightarrow> string list" where
  "zap_Strings [] = []"
| "zap_Strings (s # ss) = s # zap_Strings ss"

definition cors_log :: "cors \<Rightarrow> (string \<times> log_value) list" where
  "cors_log c =
     [(''space'', LogString (cors_Space c)), (''corsId'', LogString (cors_ID c)),
      (''method'', LogString (cors_Method c)), (''path'', LogString (cors_Path c)),
      (''allowedOrigins'', LogArray (zap_Strings (cors_AllowedOrigins c))),
      (''allowedMethods'', LogArray (zap_Strings (cors_AllowedMethods c))),
      (''allowedHeaders'', LogArray (zap_Strings (cors_AllowedHeaders c))),
      (''allowCredentials'', LogBool (cors_AllowCredentials c))]"

subsection \<open>What is written is read back\<close>

lemma read_event_type_json [simp]: "read_event_type (event_type_json t) = Inr t"
  unfolding event_type_json_def read_event_type_def json_members_def
  by (cases t) (simp add: json_read_defs json_fields split: option.splits)

lemma read_subscription_json [simp]: "read_subscription (subscription_json s) = Inr s"
  unfolding subscription_json_def read_subscription_def json_members_def
  by (cases s) (simp add: json_read_defs json_fields)

lemma read_cors_json [simp]: "read_cors (cors_json c) = Inr c"
  unfolding cors_json_def read_cors_def json_members_def
  by (cases c) (simp add: json_read_defs json_fields)

lemma provider_json_not_null [simp]: "provider_json p \<noteq> JNull"
  by (cases p) (simp_all add: provider_json_def)

lemma read_raw_single: "j \<noteq> JNull \<Longrightarrow> read_raw None [j] = Some j"
  by (cases j) simp_all

lemma read_func_json: "loaded E f \<Longrightarrow> read_func E (func_json f) = Inr f"
  unfolding func_json_def read_func_def json_members_def loaded_def
  by (cases f) (auto simp: json_read_defs json_fields read_raw_single)

lemma read_func_loaded:
  assumes "read_func E j = Inr f"
  shows "loaded E f"
proof -
  from assms obtain load config where "providers E (fn_ProviderType f) = Some load" "fn_ProviderType f \<noteq> []"
    and p: "\<exists>p. load config = Inr p \<and> fn_Provider f = Some p"
    unfolding read_func_def by (auto split: sum.splits if_splits option.splits)
  then show ?thesis using Load_provider_json unfolding loaded_def by blast
qed

end
