(* ===== verification/PathTree.thy ===== *)
theory PathTree
  imports Prelude
begin

section \<open>The routing tree (internal/pathtree/tree.go)\<close>

text \<open>
  The tree of path segments that routes HTTP requests: \<^verbatim>\<open>Node\<close>, \<^verbatim>\<open>AddRoute\<close>,
  \<^verbatim>\<open>DeleteRoute\<close> and \<^verbatim>\<open>Resolve\<close>. A Go map of children is an association list;
  the order in which Go iterates over it is not specified, so \<^verbatim>\<open>first\<close>, which
  returns "any" child, takes a number that stands for the choice of the runtime, and
  every loop takes a function from the iteration to that choice. The results below
  hold for every choice. A nil dereference, which panics in Go, is a result of its own.
\<close>

subsection \<open>Nodes\<close>

datatype 'v node = Node
  (segment: string)
  (children: "(string \<times> 'v node) list")
  (parameter: string)
  (isStatic: bool)
  (isParameter: bool)
  (isWildcard: bool)
  (node_value: "'v option")

definition NewNode :: "'v node" where
  "NewNode = Node [] [] [] False False False None"

definition set_value :: "'v node \<Rightarrow> 'v option \<Rightarrow> 'v node" where
  "set_value n v =
     Node (segment n) (children n) (parameter n) (isStatic n) (isParameter n) (isWildcard n) v"

definition set_children :: "'v node \<Rightarrow> (string \<times> 'v node) list \<Rightarrow> 'v node" where
  "set_children n cs =
     Node (segment n) cs (parameter n) (isStatic n) (isParameter n) (isWildcard n) (node_value n)"

abbreviation child :: "'v node \<Rightarrow> string \<Rightarrow> 'v node option" where
  "child n s \<equiv> map_of (children n) s"

abbreviation put_child :: "'v node \<Rightarrow> string \<Rightarrow> 'v node \<Rightarrow> 'v node" where
  "put_child n s c \<equiv> set_children n (AList.update s c (children n))"

text \<open>The prefixes that make a segment a parameter or a wildcard.\<close>

definition is_param :: "string \<Rightarrow> bool" where
  "is_param s \<longleftrightarrow> has_prefix s '':''"

definition is_wild :: "string \<Rightarrow> bool" where
  "is_wild s \<longleftrightarrow> has_prefix s ''*''"

definition is_static :: "string \<Rightarrow> bool" where
  "is_static s \<longleftrightarrow> \<not> is_param s \<and> \<not> is_wild s"

definition param_name :: "string \<Rightarrow> string" where
  "param_name s =
     (if is_param s then trim_prefix s '':''
      else if is_wild s then trim_prefix s ''*'' else [])"

definition createNode :: "string \<Rightarrow> 'v node" where
  "createNode s = Node s [] (param_name s) (is_static s) (is_param s) (is_wild s) None"

definition toSegments :: "string \<Rightarrow> string list" where
  "toSegments route = tl (split_on (CHR ''/'') route)"

definition first :: "nat \<Rightarrow> (string \<times> 'v node) list \<Rightarrow> 'v node option" where
  "first k m = (case m of [] \<Rightarrow> None | _ \<Rightarrow> Some (snd (m ! (k mod length m))))"

subsection \<open>AddRoute\<close>

text \<open>The errors, with the arguments of their messages.\<close>

datatype route_error =
    RootConflict
  | WildcardNotLast
  | WildcardDefined string string
  | ParameterDefined string string
  | StaticDefined string
  | RouteConflict string

text \<open>The three checks of a segment against the child that was found for it.\<close>

definition check_child :: "string \<Rightarrow> string \<Rightarrow> 'v node \<Rightarrow> route_error option" where
  "check_child route s c =
     (if isWildcard c \<or> is_wild s then Some (WildcardDefined (parameter c) route)
      else if isParameter c \<and> segment c \<noteq> s then Some (ParameterDefined (parameter c) route)
      else if isStatic c \<and> \<not> is_static s then Some (StaticDefined route)
      else None)"

text \<open>
  The loop over the segments, from iteration \<open>i\<close> at the node \<open>cur\<close>: the error, if
  any, and the node with the changes made so far, which are kept when the loop stops
  with an error.
\<close>

fun add_segs ::
  "(nat \<Rightarrow> nat) \<Rightarrow> string \<Rightarrow> 'v \<Rightarrow> nat \<Rightarrow> 'v node \<Rightarrow> string list \<Rightarrow> route_error option \<times> 'v node" where
  "add_segs pick route v i cur [] = (None, cur)"
| "add_segs pick route v i cur (s # ss) =
     (if isWildcard cur then (Some WildcardNotLast, cur)
      else
        (case (case child cur s of Some c \<Rightarrow> Some c | None \<Rightarrow> first (pick i) (children cur)) of
           None \<Rightarrow>
             (if ss = [] then (None, put_child cur s (set_value (createNode s) (Some v)))
              else (case add_segs pick route v (Suc i) (createNode s) ss of
                      (e, n) \<Rightarrow> (e, put_child cur s n)))
         | Some c \<Rightarrow>
             (case check_child route s c of
                Some e \<Rightarrow> (Some e, cur)
              | None \<Rightarrow>
                  (case (case child cur s of Some n \<Rightarrow> n | None \<Rightarrow> createNode s) of
                     next \<Rightarrow>
                       (if ss = []
                        then (if node_value next \<noteq> None
                              then (Some (RouteConflict route), put_child cur s next)
                              else (None, put_child cur s (set_value next (Some v))))
                        else (case add_segs pick route v (Suc i) next ss of
                                (e, n) \<Rightarrow> (e, put_child cur s n)))))))"

definition AddRoute ::
  "(nat \<Rightarrow> nat) \<Rightarrow> 'v node \<Rightarrow> string \<Rightarrow> 'v \<Rightarrow> route_error option \<times> 'v node" where
  "AddRoute pick n route v =
     (if route = ''/''
      then (if node_value n = None then (None, set_value n (Some v)) else (Some RootConflict, n))
      else add_segs pick route v 0 n (toSegments route))"

subsection \<open>DeleteRoute\<close>

text \<open>
  A missing node in the middle of the path is a nil pointer, which the next iteration
  dereferences: \<open>DeletePanic\<close>. A missing node at the end is an error.
\<close>

datatype 'v delete_result = DeleteOk "'v node" | DeleteError | DeletePanic

fun delete_segs :: "'v node \<Rightarrow> string list \<Rightarrow> 'v delete_result" where
  "delete_segs cur [] = DeleteOk cur"
| "delete_segs cur [s] =
     (case child cur s of
        None \<Rightarrow> DeleteError
      | Some c \<Rightarrow>
          (if length (children c) = 0 then DeleteOk (set_children cur (AList.delete s (children cur)))
           else DeleteOk (put_child cur s (set_value c None))))"
| "delete_segs cur (s # t # ss) =
     (case child cur s of
        None \<Rightarrow> DeletePanic
      | Some c \<Rightarrow>
          (case delete_segs c (t # ss) of
             DeleteOk n \<Rightarrow> DeleteOk (put_child cur s n)
           | DeleteError \<Rightarrow> DeleteError
           | DeletePanic \<Rightarrow> DeletePanic))"

definition DeleteRoute :: "'v node \<Rightarrow> string \<Rightarrow> 'v delete_result" where
  "DeleteRoute n route =
     (if route = ''/'' then DeleteOk (set_value n None)
      else delete_segs n (toSegments route))"

subsection \<open>Resolve\<close>

type_synonym params = "string \<rightharpoonup> string"

fun resolve_segs ::
  "(nat \<Rightarrow> nat) \<Rightarrow> nat \<Rightarrow> 'v node \<Rightarrow> params \<Rightarrow> string list \<Rightarrow> 'v option \<times> params option" where
  "resolve_segs pick i cur params [] = (None, None)"
| "resolve_segs pick i cur params (s # ss) =
     (case (case child cur s of
              Some c \<Rightarrow> Some c
            | None \<Rightarrow>
                (case first (pick i) (children cur) of
                   None \<Rightarrow> None
                 | Some c \<Rightarrow> if isParameter c \<or> isWildcard c then Some c else None)) of
        None \<Rightarrow> (None, None)
      | Some c \<Rightarrow>
          (let params = (if isParameter c then params(parameter c \<mapsto> s) else params) in
           if isWildcard c
           then (node_value c, Some (params(parameter c \<mapsto> join_with ''/'' (s # ss))))
           else if ss = [] then (node_value c, Some params)
           else resolve_segs pick (Suc i) c params ss))"

definition Resolve :: "(nat \<Rightarrow> nat) \<Rightarrow> 'v node \<Rightarrow> string \<Rightarrow> 'v option \<times> params option" where
  "Resolve pick n path =
     (if path = ''/'' then (case node_value n of Some v \<Rightarrow> (Some v, None) | None \<Rightarrow> (None, None))
      else resolve_segs pick 0 n Map.empty (toSegments path))"

subsection \<open>The abstract routing table\<close>

text \<open>
  What a tree promises, independent of its nodes: which value each route has. The key of
  a route is its list of segments, except for \<^verbatim>\<open>/\<close>, which is the root itself.
\<close>

fun node_at :: "'v node \<Rightarrow> string list \<Rightarrow> 'v node option" where
  "node_at n [] = Some n"
| "node_at n (s # ss) = (case child n s of None \<Rightarrow> None | Some c \<Rightarrow> node_at c ss)"

definition value_at :: "'v node \<Rightarrow> string list \<Rightarrow> 'v option" where
  "value_at n p = (case node_at n p of None \<Rightarrow> None | Some c \<Rightarrow> node_value c)"

definition route_value :: "'v node \<Rightarrow> string \<Rightarrow> 'v option" where
  "route_value n r = (if r = ''/'' then node_value n else value_at n (toSegments r))"

text \<open>
  Two segment lists clash where the first segments that differ are not both static, or
  where a wildcard is shared; a wildcard may only be the last segment.
\<close>

fun clash :: "string list \<Rightarrow> string list \<Rightarrow> bool" where
  "clash (a # as) (b # bs) =
     (if a = b then is_wild a \<or> clash as bs else \<not> (is_static a \<and> is_static b))"
| "clash _ _ = False"

fun wild_last :: "string list \<Rightarrow> bool" where
  "wild_last [] = True"
| "wild_last (s # ss) = ((is_wild s \<longrightarrow> ss = []) \<and> wild_last ss)"

text \<open>No node of the tree, with or without a value, clashes with the route.\<close>

definition clash_free :: "'v node \<Rightarrow> string list \<Rightarrow> bool" where
  "clash_free n ss \<longleftrightarrow> (\<forall>p. node_at n p \<noteq> None \<longrightarrow> \<not> clash p ss)"

text \<open>Which requests a pattern matches, and the parameters it binds.\<close>

fun match_segs :: "string list \<Rightarrow> string list \<Rightarrow> params option" where
  "match_segs [] [] = Some Map.empty"
| "match_segs (p # ps) (s # ss) =
     (if is_wild p
      then (if ps = [] then Some [param_name p \<mapsto> join_with ''/'' (s # ss)] else None)
      else if is_param p then map_option (\<lambda>m. [param_name p \<mapsto> s] ++ m) (match_segs ps ss)
      else if p = s then match_segs ps ss else None)"
| "match_segs _ _ = None"

subsection \<open>The invariant\<close>

text \<open>
  Every node is labelled by its key; no key occurs twice; the children of a node are all
  static, or there is one child; a wildcard has no children.
\<close>

definition node_ok :: "string \<Rightarrow> 'v node \<Rightarrow> bool" where
  "node_ok k c \<longleftrightarrow> segment c = k \<and> parameter c = param_name k \<and> isStatic c = is_static k \<and>
     isParameter c = is_param k \<and> isWildcard c = is_wild k"

definition homogeneous :: "string list \<Rightarrow> bool" where
  "homogeneous ks \<longleftrightarrow> (\<forall>k \<in> set ks. is_static k) \<or> length ks \<le> 1"

fun wf_node :: "'v node \<Rightarrow> bool" where
  "wf_node (Node sg cs p st pa wi v) \<longleftrightarrow>
     distinct (map fst cs) \<and> homogeneous (map fst cs) \<and> (wi \<longrightarrow> cs = []) \<and>
     (\<forall>(k, c) \<in> set cs. node_ok k c \<and> wf_node c)"

definition label :: "'v node \<Rightarrow> string \<times> string \<times> bool \<times> bool \<times> bool" where
  "label n = (segment n, parameter n, isStatic n, isParameter n, isWildcard n)"

lemma wf_node_iff:
  "wf_node n \<longleftrightarrow>
     distinct (map fst (children n)) \<and> homogeneous (map fst (children n)) \<and>
     (isWildcard n \<longrightarrow> children n = []) \<and> (\<forall>(k, c) \<in> set (children n). node_ok k c \<and> wf_node c)"
  by (cases n) simp

declare wf_node.simps [simp del]

lemma wf_child: "wf_node n \<Longrightarrow> child n s = Some c \<Longrightarrow> node_ok s c \<and> wf_node c"
  by (auto simp: wf_node_iff [of n] dest!: map_of_SomeD)

lemma param_xor_wild [simp]: "\<not> (is_param s \<and> is_wild s)"
  by (cases s) (auto simp: is_param_def is_wild_def)

lemma set_value_simps [simp]:
  "segment (set_value n v) = segment n" "children (set_value n v) = children n"
  "parameter (set_value n v) = parameter n" "isStatic (set_value n v) = isStatic n"
  "isParameter (set_value n v) = isParameter n" "isWildcard (set_value n v) = isWildcard n"
  "node_value (set_value n v) = v" "label (set_value n v) = label n"
  by (simp_all add: set_value_def label_def)

lemma set_children_simps [simp]:
  "segment (set_children n cs) = segment n" "children (set_children n cs) = cs"
  "parameter (set_children n cs) = parameter n" "isStatic (set_children n cs) = isStatic n"
  "isParameter (set_children n cs) = isParameter n"
  "isWildcard (set_children n cs) = isWildcard n"
  "node_value (set_children n cs) = node_value n" "label (set_children n cs) = label n"
  by (simp_all add: set_children_def label_def)

lemma createNode_simps [simp]:
  "children (createNode s) = []" "isWildcard (createNode s) = is_wild s"
  "node_value (createNode s) = None" "node_ok s (createNode s)"
  by (simp_all add: createNode_def node_ok_def)

lemma NewNode_simps [simp]:
  "children NewNode = []" "isWildcard NewNode = False" "node_value NewNode = None"
  by (simp_all add: NewNode_def)

lemma homogeneous_Nil [simp]: "homogeneous []" "homogeneous [k]"
  by (simp_all add: homogeneous_def)

lemma wf_leaf: "children n = [] \<Longrightarrow> wf_node n"
  by (simp add: wf_node_iff [of n])

lemma wf_createNode [simp]: "wf_node (createNode s)" "wf_node NewNode"
  by (simp_all add: wf_leaf)

lemma wf_set_value [simp]: "wf_node (set_value n v) = wf_node n"
  by (simp add: wf_node_iff [of n] wf_node_iff [of "set_value n v"])

lemma node_ok_label: "label n = label m \<Longrightarrow> node_ok s n = node_ok s m"
  by (simp add: node_ok_def label_def)

lemma wf_put_child:
  assumes "wf_node n" "wf_node c" "node_ok s c" "\<not> isWildcard n"
    and "homogeneous (map fst (AList.update s c (children n)))"
  shows "wf_node (put_child n s c)"
  using assms by (auto simp: wf_node_iff [of n] wf_node_iff [of "put_child n s c"] distinct_update
      dest: set_update_cases)

lemma homogeneous_old_key:
  "wf_node n \<Longrightarrow> child n s \<noteq> None \<Longrightarrow> homogeneous (map fst (AList.update s c (children n)))"
  by (auto simp: wf_node_iff [of n] update_keys map_of_eq_None_iff)

lemma homogeneous_new_key:
  "\<forall>k \<in> fst ` set cs. is_static k \<Longrightarrow> is_static s \<Longrightarrow> homogeneous (map fst (AList.update s c cs))"
  by (auto simp: update_keys homogeneous_def)

subsection \<open>One iteration of AddRoute\<close>

text \<open>
  Under the invariant an iteration does not depend on which child \<^verbatim>\<open>first\<close> returns:
  either it stops with an error fixed by the node, or it enters the child of the segment.
\<close>

definition next_node :: "'v node \<Rightarrow> string \<Rightarrow> 'v node" where
  "next_node n s = (case child n s of Some c \<Rightarrow> c | None \<Rightarrow> createNode s)"

definition may_enter :: "'v node \<Rightarrow> string \<Rightarrow> bool" where
  "may_enter n s \<longleftrightarrow> \<not> isWildcard n \<and>
     (\<forall>k \<in> fst ` set (children n). if k = s then \<not> is_wild s else is_static k \<and> is_static s)"

definition enter_error :: "string \<Rightarrow> 'v node \<Rightarrow> string \<Rightarrow> route_error" where
  "enter_error route n s =
     (if isWildcard n then WildcardNotLast
      else the (check_child route s
             (case child n s of Some c \<Rightarrow> c | None \<Rightarrow> snd (hd (children n)))))"

lemma first_Nil [simp]: "first k [] = None"
  by (simp add: first_def)

lemma first_None [simp]: "first k cs = None \<longleftrightarrow> cs = []"
  by (simp add: first_def split: list.splits)

lemma first_Some: "first k cs = Some c \<Longrightarrow> \<exists>s. (s, c) \<in> set cs"
proof -
  assume f: "first k cs = Some c"
  then have ne: "cs \<noteq> []" and c: "c = snd (cs ! (k mod length cs))"
    by (auto simp: first_def split: list.splits)
  from ne have "cs ! (k mod length cs) \<in> set cs" by simp
  with c show ?thesis by (metis prod.collapse)
qed

lemma check_child_ok:
  "node_ok k c \<Longrightarrow> check_child route s c =
     (if is_wild k \<or> is_wild s then Some (WildcardDefined (param_name k) route)
      else if is_param k \<and> k \<noteq> s then Some (ParameterDefined (param_name k) route)
      else if is_static k \<and> \<not> is_static s then Some (StaticDefined route) else None)"
  by (simp add: check_child_def node_ok_def)

lemma param_name_static: "is_static k \<Longrightarrow> param_name k = []"
  by (simp add: param_name_def is_static_def)

lemma static_not [dest]: "is_static k \<Longrightarrow> \<not> is_param k" "is_static k \<Longrightarrow> \<not> is_wild k"
  by (auto simp: is_static_def)

lemma check_first:
  assumes wf: "wf_node n" and no: "child n s = None" and f: "first k (children n) = Some c"
  shows "check_child route s c = check_child route s (snd (hd (children n)))"
    and "\<not> isWildcard n \<Longrightarrow> check_child route s c = None \<longleftrightarrow> may_enter n s"
proof -
  have s: "s \<notin> fst ` set (children n)" using no by (simp add: map_of_eq_None_iff)
  obtain a as where cs: "children n = a # as" using f by (cases "children n") auto
  from first_Some [OF f] obtain t where t: "(t, c) \<in> set (children n)" by blast
  from wf have ok: "\<forall>(k, c) \<in> set (children n). node_ok k c"
    and h: "homogeneous (map fst (children n))" by (auto simp: wf_node_iff [of n])
  obtain u d where a: "a = (u, d)" by (cases a)
  have okt: "node_ok t c" and oka: "node_ok u d" using ok t cs a by auto
  have ts: "t \<noteq> s" using s t by force
  from h cs t a consider (st) "\<forall>k \<in> fst ` set (children n). is_static k"
    | (one) "children n = [(t, c)]" by (auto simp: homogeneous_def)
  then have "check_child route s c = check_child route s (snd (hd (children n))) \<and>
    (\<not> isWildcard n \<longrightarrow> check_child route s c = None \<longleftrightarrow> may_enter n s)"
  proof cases
    case st
    then have stt: "is_static t" "is_static u" using t cs a by force+
    have "may_enter n s \<longleftrightarrow> is_static s" if "\<not> isWildcard n"
      using st s t that unfolding may_enter_def by (metis image_eqI fst_conv)
    moreover have "check_child route s c = None \<longleftrightarrow> is_static s"
      using stt okt by (auto simp: check_child_ok is_static_def)
    moreover have "check_child route s c = check_child route s d"
      using stt okt oka by (simp add: check_child_ok param_name_static static_not)
    ultimately show ?thesis using cs a by simp
  next
    case one
    then have "check_child route s c = None \<longleftrightarrow> is_static t \<and> is_static s"
      using okt ts by (auto simp: check_child_ok is_static_def)
    then show ?thesis using one ts by (auto simp: may_enter_def)
  qed
  then show "check_child route s c = check_child route s (snd (hd (children n)))"
    and "\<not> isWildcard n \<Longrightarrow> check_child route s c = None \<longleftrightarrow> may_enter n s" by auto
qed

lemma check_own:
  assumes wf: "wf_node n" and c: "child n s = Some c" and nw: "\<not> isWildcard n"
  shows "check_child route s c = None \<longleftrightarrow> may_enter n s"
proof -
  have ok: "node_ok s c" using wf_child [OF wf c] by simp
  have chk: "check_child route s c = None \<longleftrightarrow> \<not> is_wild s"
    using ok by (simp add: check_child_ok)
  have s: "s \<in> fst ` set (children n)" using c by (metis map_of_eq_None_iff option.simps(3))
  have "homogeneous (map fst (children n))" using wf by (simp add: wf_node_iff [of n])
  then consider "\<forall>k \<in> fst ` set (children n). is_static k" | "children n = [(s, c)]"
    using c by (cases "children n") (auto simp: homogeneous_def split: if_splits)
  then show ?thesis
  proof cases
    case 1
    then show ?thesis using s nw chk by (auto simp: may_enter_def dest: static_not)
  next
    case 2
    then show ?thesis using nw chk by (simp add: may_enter_def)
  qed
qed

lemma add_segs_step:
  assumes wf: "wf_node n"
  shows "add_segs pick route v i n (s # ss) =
    (if may_enter n s then
       (if ss = []
        then (if node_value (next_node n s) \<noteq> None
              then (Some (RouteConflict route), put_child n s (next_node n s))
              else (None, put_child n s (set_value (next_node n s) (Some v))))
        else (case add_segs pick route v (Suc i) (next_node n s) ss of
                (e, c) \<Rightarrow> (e, put_child n s c)))
     else (Some (enter_error route n s), n))"
proof (cases "isWildcard n")
  case True
  then show ?thesis by (simp add: may_enter_def enter_error_def)
next
  case nw: False
  show ?thesis
  proof (cases "child n s")
    case (Some c)
    then show ?thesis using check_own [OF wf Some nw, of route] nw
      by (auto simp: next_node_def enter_error_def split: option.splits)
  next
    case None
    show ?thesis
    proof (cases "first (pick i) (children n)")
      case None
      then show ?thesis using nw \<open>child n s = None\<close>
        by (auto simp: next_node_def may_enter_def)
    next
      case (Some c)
      then show ?thesis using check_first [OF wf \<open>child n s = None\<close> Some, of route] nw
          \<open>child n s = None\<close>
        by (auto simp: next_node_def enter_error_def split: option.splits)
    qed
  qed
qed

declare add_segs.simps(2) [simp del]

lemma next_node_wf: "wf_node n \<Longrightarrow> wf_node (next_node n s) \<and> node_ok s (next_node n s)"
  using wf_child [of n s] by (auto simp: next_node_def split: option.splits)

lemma may_enter_homogeneous:
  "wf_node n \<Longrightarrow> may_enter n s \<Longrightarrow> homogeneous (map fst (AList.update s c (children n)))"
proof (cases "child n s")
  case None
  assume "wf_node n" and m: "may_enter n s"
  have keys: "s \<notin> fst ` set (children n)" using None by (simp add: map_of_eq_None_iff)
  show ?thesis
  proof (cases "children n")
    case Nil
    then show ?thesis by simp
  next
    case (Cons a as)
    have "\<forall>k \<in> fst ` set (children n). is_static k \<and> is_static s"
      using m keys unfolding may_enter_def by metis
    then show ?thesis using Cons by (intro homogeneous_new_key) auto
  qed
next
  case (Some d)
  assume "wf_node n" "may_enter n s"
  then show ?thesis using Some homogeneous_old_key [of n s c] by simp
qed

lemma wf_enter:
  assumes "wf_node n" "may_enter n s" "wf_node c" "node_ok s c"
  shows "wf_node (put_child n s c)"
  using wf_put_child [OF assms(1,3,4)] may_enter_homogeneous [OF assms(1,2)] assms(2)
  by (simp add: may_enter_def)

subsection \<open>Correctness of AddRoute\<close>

lemma node_at_put [simp]:
  "node_at (put_child n s c) (t # ts) = (if t = s then node_at c ts else node_at n (t # ts))"
  by simp

lemma value_at_put:
  "value_at (put_child n s c) p =
     (case p of [] \<Rightarrow> node_value n
      | t # ts \<Rightarrow> if t = s then value_at c ts else value_at n p)"
  by (auto simp: value_at_def split: list.split)

lemma value_at_Nil [simp]: "value_at n [] = node_value n"
  by (simp add: value_at_def)

lemma value_at_leaf: "children n = [] \<Longrightarrow> p \<noteq> [] \<Longrightarrow> value_at n p = None"
  by (cases p) (simp_all add: value_at_def)

lemma node_at_leaf: "children n = [] \<Longrightarrow> p \<noteq> [] \<Longrightarrow> node_at n p = None"
  by (cases p) simp_all

lemma value_at_next: "value_at (next_node n s) p = value_at n (s # p)"
  by (cases p) (auto simp: next_node_def value_at_def split: option.split)

lemma node_at_next: "p \<noteq> [] \<Longrightarrow> node_at (next_node n s) p = node_at n (s # p)"
  by (auto simp: next_node_def node_at_leaf split: option.split)

lemma value_at_set_value:
  "value_at (set_value n v) p = (if p = [] then v else value_at n p)"
  by (cases p) (simp_all add: value_at_def)

lemma value_at_put_update:
  "value_at c = (value_at (next_node n s))(ss := x) \<Longrightarrow>
   value_at (put_child n s c) = (value_at n)(s # ss := x)"
  by (rule ext) (auto simp: value_at_put value_at_next split: list.split)

lemma value_at_put_same:
  "value_at c = value_at (next_node n s) \<Longrightarrow> value_at (put_child n s c) = value_at n"
  by (rule ext) (auto simp: value_at_put value_at_next split: list.split)

lemma node_ok_of_label: "node_ok s c \<Longrightarrow> label c' = label c \<Longrightarrow> node_ok s c'"
  using node_ok_label by metis

lemma add_segs_correct:
  assumes "wf_node n" "ss \<noteq> []" "add_segs pick route v i n ss = (e, n')"
  shows "wf_node n' \<and> label n' = label n \<and>
    value_at n' = (if e = None then (value_at n)(ss \<mapsto> v) else value_at n)"
  using assms
proof (induction ss arbitrary: n i e n')
  case Nil
  then show ?case by simp
next
  case (Cons s ss)
  let ?c = "next_node n s"
  have c: "wf_node ?c" "node_ok s ?c" using next_node_wf [OF Cons.prems(1)] by auto
  note step = add_segs_step [OF Cons.prems(1), of pick route v i s ss]
  show ?case
  proof (cases "may_enter n s")
    case False
    then show ?thesis using Cons.prems step by auto
  next
    case m: True
    show ?thesis
    proof (cases "ss = []")
      case True
      have "value_at (set_value ?c (Some v)) = (value_at ?c)([] := Some v)"
        by (rule ext) (simp add: value_at_set_value)
      then show ?thesis using True m Cons.prems step c wf_enter [OF Cons.prems(1) m]
        by (auto simp: value_at_put_update value_at_put_same node_ok_of_label split: if_splits)
    next
      case False
      obtain e1 c1 where a: "add_segs pick route v (Suc i) ?c ss = (e1, c1)" by fastforce
      from Cons.IH [OF c(1) False a]
      have IH: "wf_node c1" "label c1 = label ?c"
        "value_at c1 = (if e1 = None then (value_at ?c)(ss \<mapsto> v) else value_at ?c)" by auto
      have r: "e = e1" "n' = put_child n s c1" using Cons.prems(3) step m False a by auto
      have "wf_node n'" unfolding r
        using IH(1) node_ok_of_label [OF c(2) IH(2)] wf_enter [OF Cons.prems(1) m] by blast
      moreover have "value_at n' = (if e = None then (value_at n)(s # ss \<mapsto> v) else value_at n)"
        unfolding r using IH(3) value_at_put_update value_at_put_same by (metis (full_types))
      ultimately show ?thesis by (simp add: r)
    qed
  qed
qed

lemma clash_free_Nil [simp]: "clash_free n []"
proof -
  have "\<not> clash p []" for p by (cases p) auto
  then show ?thesis by (simp add: clash_free_def)
qed

lemma clash_free_Cons:
  "clash_free n (s # ss) \<longleftrightarrow>
   (\<forall>k \<in> fst ` set (children n). if k = s then \<not> is_wild s else is_static k \<and> is_static s) \<and>
   clash_free (next_node n s) ss"
  (is "?L \<longleftrightarrow> ?K \<and> ?R")
  unfolding clash_free_def
proof
  assume L: "\<forall>p. node_at n p \<noteq> None \<longrightarrow> \<not> clash p (s # ss)"
  have ?K
  proof
    fix k assume "k \<in> fst ` set (children n)"
    then have "child n k \<noteq> None" by (simp add: map_of_eq_None_iff)
    then have "node_at n [k] \<noteq> None" by auto
    then have "\<not> clash [k] (s # ss)" using L by blast
    then show "if k = s then \<not> is_wild s else is_static k \<and> is_static s"
      by (simp split: if_splits)
  qed
  moreover have "\<not> clash p ss" if "node_at (next_node n s) p \<noteq> None" for p
  proof (cases "p = []")
    case True
    then show ?thesis by simp
  next
    case False
    then have "node_at n (s # p) \<noteq> None" using that node_at_next by metis
    then have "\<not> clash (s # p) (s # ss)" using L by blast
    then show ?thesis by simp
  qed
  ultimately show "?K \<and> (\<forall>p. node_at (next_node n s) p \<noteq> None \<longrightarrow> \<not> clash p ss)" by blast
next
  assume KR: "?K \<and> (\<forall>p. node_at (next_node n s) p \<noteq> None \<longrightarrow> \<not> clash p ss)"
  show "\<forall>p. node_at n p \<noteq> None \<longrightarrow> \<not> clash p (s # ss)"
  proof (intro allI impI)
    fix p assume p: "node_at n p \<noteq> None"
    show "\<not> clash p (s # ss)"
    proof (cases p)
      case Nil
      then show ?thesis by simp
    next
      case (Cons k q)
      from p Cons have "child n k \<noteq> None" by (auto split: option.splits)
      then have k: "k \<in> fst ` set (children n)" by (simp add: map_of_eq_None_iff)
      show ?thesis
      proof (cases "k = s")
        case True
        then have "node_at (next_node n s) q \<noteq> None"
          using p Cons node_at_next [of q n s] by (cases q) auto
        then show ?thesis using KR Cons True k by auto
      next
        case False
        then show ?thesis using KR Cons k by auto
      qed
    qed
  qed
qed

lemma add_segs_succeeds_iff:
  assumes "wf_node n" "ss \<noteq> []"
  shows "fst (add_segs pick route v i n ss) = None \<longleftrightarrow>
    \<not> isWildcard n \<and> wild_last ss \<and> value_at n ss = None \<and> clash_free n ss"
  using assms
proof (induction ss arbitrary: n i)
  case Nil
  then show ?case by simp
next
  case (Cons s ss)
  let ?c = "next_node n s"
  have c: "wf_node ?c" "isWildcard ?c \<longleftrightarrow> is_wild s"
    using next_node_wf [OF Cons.prems(1)] by (auto simp: node_ok_def)
  have m: "may_enter n s \<longleftrightarrow> \<not> isWildcard n \<and>
    (\<forall>k \<in> fst ` set (children n). if k = s then \<not> is_wild s else is_static k \<and> is_static s)"
    by (simp add: may_enter_def)
  show ?case
  proof (cases "ss = []")
    case True
    have "value_at n [s] = node_value ?c" using value_at_next [of n s "[]"] by simp
    then show ?thesis
      using True m by (simp add: add_segs_step [OF Cons.prems(1)] clash_free_Cons)
  next
    case False
    have "fst (add_segs pick route v i n (s # ss)) = None \<longleftrightarrow>
      may_enter n s \<and> fst (add_segs pick route v (Suc i) ?c ss) = None"
      using False by (auto simp: add_segs_step [OF Cons.prems(1)] split: prod.splits)
    then show ?thesis
      using Cons.IH [OF c(1) False, of "Suc i"] m False c(2)
      by (auto simp: clash_free_Cons value_at_next)
  qed
qed

lemma add_segs_pick:
  "wf_node n \<Longrightarrow> add_segs pick route v i n ss = add_segs pick' route v j n ss"
proof (induction ss arbitrary: n i j)
  case Nil
  then show ?case by simp
next
  case (Cons s ss)
  have "add_segs pick route v (Suc i) (next_node n s) ss =
        add_segs pick' route v (Suc j) (next_node n s) ss"
    using Cons next_node_wf by blast
  then show ?case using Cons.prems by (simp only: add_segs_step)
qed

subsection \<open>Correctness of DeleteRoute\<close>

lemma delete_segs_outcome:
  assumes "ss \<noteq> []"
  shows "delete_segs n ss = DeletePanic \<longleftrightarrow> node_at n (butlast ss) = None"
    and "delete_segs n ss = DeleteError \<longleftrightarrow>
           node_at n (butlast ss) \<noteq> None \<and> node_at n ss = None"
  using assms
  by (induction n ss rule: delete_segs.induct)
    (auto split: option.splits delete_result.splits if_splits)

lemma wf_delete_child:
  assumes "wf_node n"
  shows "wf_node (set_children n (AList.delete s (children n)))"
proof -
  have "length (map fst (AList.delete s (children n))) \<le> length (map fst (children n))"
    by (simp add: AList.delete_eq)
  then have "homogeneous (map fst (AList.delete s (children n)))"
    using assms
    by (auto simp: wf_node_iff [of n] homogeneous_def dest: set_delete_subset)
  then show ?thesis using assms
    by (auto simp: wf_node_iff [of n] wf_node_iff [of "set_children n (AList.delete s (children n))"]
        dest: set_delete_subset intro: distinct_delete)
qed

lemma value_at_delete_child:
  assumes c: "child n s = Some c" and l: "children c = []"
  shows "value_at (set_children n (AList.delete s (children n))) = (value_at n)([s] := None)"
proof
  fix p
  show "value_at (set_children n (AList.delete s (children n))) p = ((value_at n)([s] := None)) p"
  proof (cases p)
    case Nil
    then show ?thesis by simp
  next
    case (Cons t ts)
    then show ?thesis using c l by (cases ts) (auto simp: value_at_def)
  qed
qed

lemma delete_segs_correct:
  assumes "wf_node n" "ss \<noteq> []" "delete_segs n ss = DeleteOk n'"
  shows "wf_node n' \<and> label n' = label n \<and> value_at n' = (value_at n)(ss := None)"
  using assms
proof (induction n ss arbitrary: n' rule: delete_segs.induct)
  case (1 cur)
  then show ?case by simp
next
  case (2 cur s)
  then obtain c where c: "child cur s = Some c" by (auto split: option.splits)
  have ok: "wf_node c" "node_ok s c" using wf_child [OF "2.prems"(1) c] by auto
  have nw: "\<not> isWildcard cur" using c "2.prems"(1) by (auto simp: wf_node_iff [of cur])
  show ?case
  proof (cases "children c = []")
    case True
    then show ?thesis using "2.prems" c value_at_delete_child [OF c] wf_delete_child by auto
  next
    case False
    let ?m = "put_child cur s (set_value c None)"
    have n': "n' = ?m" using "2.prems"(3) c False by simp
    have nx: "next_node cur s = c" using c by (simp add: next_node_def)
    have "value_at (set_value c None) = (value_at (next_node cur s))([] := None)"
      unfolding nx by (rule ext) (simp add: value_at_set_value)
    then have "value_at ?m = (value_at cur)([s] := None)" by (rule value_at_put_update)
    moreover have "wf_node ?m"
      using "2.prems"(1) ok nw c homogeneous_old_key [of cur s]
      by (intro wf_put_child) (auto simp: node_ok_of_label)
    ultimately show ?thesis by (simp add: n')
  qed
next
  case (3 cur s t ss)
  then obtain c where c: "child cur s = Some c" by (auto split: option.splits)
  then obtain m where m: "delete_segs c (t # ss) = DeleteOk m" "n' = put_child cur s m"
    using "3.prems"(3) by (auto split: delete_result.splits)
  have ok: "wf_node c" "node_ok s c" using wf_child [OF "3.prems"(1) c] by auto
  have IH: "wf_node m" "label m = label c" "value_at m = (value_at c)(t # ss := None)"
    using "3.IH" [OF c ok(1) _ m(1)] by auto
  have nw: "\<not> isWildcard cur" using c "3.prems"(1) by (auto simp: wf_node_iff [of cur])
  have nx: "next_node cur s = c" using c by (simp add: next_node_def)
  have "value_at n' = (value_at cur)(s # t # ss := None)"
    unfolding m(2) using IH(3) by (intro value_at_put_update) (simp add: nx)
  moreover have "wf_node n'" unfolding m(2)
    using "3.prems"(1) IH(1) node_ok_of_label [OF ok(2) IH(2)] nw c homogeneous_old_key [of cur s]
    by (intro wf_put_child) auto
  ultimately show ?case by (simp add: m(2))
qed

subsection \<open>Correctness of Resolve\<close>

lemma only_child:
  assumes "wf_node n" "(k, c) \<in> set (children n)" "\<not> is_static k"
  shows "children n = [(k, c)]"
proof -
  have "homogeneous (map fst (children n))" using assms(1) by (simp add: wf_node_iff [of n])
  then show ?thesis using assms(2,3)
    by (cases "children n") (auto simp: homogeneous_def image_iff split: if_splits)
qed

text \<open>The child that a segment of the request selects.\<close>

definition select_child :: "'v node \<Rightarrow> string \<Rightarrow> 'v node option" where
  "select_child n s =
     (case children n of
        [(k, c)] \<Rightarrow> if k = s \<or> \<not> is_static k then Some c else None
      | _ \<Rightarrow> child n s)"

lemma resolve_child:
  assumes "wf_node n"
  shows "(case child n s of Some c \<Rightarrow> Some c
          | None \<Rightarrow> (case first k (children n) of None \<Rightarrow> None
                      | Some c \<Rightarrow> if isParameter c \<or> isWildcard c then Some c else None)) =
         select_child n s"
proof (cases "\<exists>t c. (t, c) \<in> set (children n) \<and> \<not> is_static t")
  case True
  then obtain t c where tc: "children n = [(t, c)]" "\<not> is_static t"
    using only_child [OF assms] by metis
  then have "node_ok t c" using assms by (simp add: wf_node_iff [of n])
  then show ?thesis using tc by (auto simp: select_child_def first_def node_ok_def is_static_def)
next
  case False
  then have st: "(t, c) \<in> set (children n) \<Longrightarrow> \<not> isParameter c \<and> \<not> isWildcard c \<and> is_static t"
    for t c using assms by (fastforce simp: wf_node_iff [of n] node_ok_def)
  have none: "(case first k (children n) of None \<Rightarrow> None
         | Some c \<Rightarrow> if isParameter c \<or> isWildcard c then Some c else None) = None"
    using first_Some [of k "children n"] st by (auto split: option.split)
  have "select_child n s = child n s"
    using st by (auto simp: select_child_def split: list.split)
  then show ?thesis unfolding none by (simp split: option.split)
qed

lemma resolve_segs_step:
  assumes "wf_node n"
  shows "resolve_segs pick i n acc (s # ss) =
     (case select_child n s of
        None \<Rightarrow> (None, None)
      | Some c \<Rightarrow>
          (let acc = (if isParameter c then acc(parameter c \<mapsto> s) else acc) in
           if isWildcard c then (node_value c, Some (acc(parameter c \<mapsto> join_with ''/'' (s # ss))))
           else if ss = [] then (node_value c, Some acc)
           else resolve_segs pick (Suc i) c acc ss))"
  by (simp only: resolve_segs.simps resolve_child [OF assms])

declare resolve_segs.simps(2) [simp del]

lemma select_child_key:
  "wf_node n \<Longrightarrow> select_child n s = Some c \<Longrightarrow>
   \<exists>k. child n k = Some c \<and> node_ok k c \<and> wf_node c \<and> (is_static k \<longrightarrow> k = s)"
proof -
  assume wf: "wf_node n" and c: "select_child n s = Some c"
  have "\<exists>k. child n k = Some c \<and> (is_static k \<longrightarrow> k = s)"
  proof (cases "\<exists>k d. children n = [(k, d)]")
    case True
    then show ?thesis using c by (auto simp: select_child_def split: if_splits)
  next
    case False
    then have "child n s = Some c"
      using c by (auto simp: select_child_def split: list.splits prod.splits)
    then show ?thesis by blast
  qed
  then show ?thesis using wf_child [OF wf] by blast
qed

lemma select_child_static:
  "wf_node n \<Longrightarrow> child n k = Some c \<Longrightarrow> is_static k \<longrightarrow> k = s \<Longrightarrow> select_child n s = Some c"
proof (cases "is_static k")
  case True
  assume "child n k = Some c" "is_static k \<longrightarrow> k = s"
  then show ?thesis using True
    by (auto simp: select_child_def split: list.split if_splits)
next
  case False
  assume "wf_node n" "child n k = Some c"
  then have "children n = [(k, c)]" using only_child False map_of_SomeD by metis
  then show ?thesis using False by (simp add: select_child_def)
qed

lemma resolve_segs_complete:
  assumes "wf_node n" "ss \<noteq> []" "node_at n pat = Some c" "match_segs pat ss = Some m"
  shows "resolve_segs pick i n acc ss = (node_value c, Some (acc ++ m))"
  using assms
proof (induction pat ss arbitrary: n i acc m rule: match_segs.induct)
  case (2 p ps s ss)
  from "2.prems"(3) obtain d where d: "child n p = Some d" "node_at d ps = Some c"
    by (auto split: option.splits)
  have ok: "node_ok p d" "wf_node d" using wf_child [OF "2.prems"(1) d(1)] by auto
  have fl: "isWildcard d = is_wild p" "isParameter d = is_param p" "parameter d = param_name p"
    using ok(1) by (auto simp: node_ok_def)
  have "is_static p \<longrightarrow> p = s" using "2.prems"(4) by (auto simp: is_static_def split: if_splits)
  then have sel: "select_child n s = Some d"
    using select_child_static [OF "2.prems"(1) d(1)] by blast
  note step = resolve_segs_step [OF "2.prems"(1), of pick i acc s ss]
  consider (wild) "is_wild p" | (param) "is_param p" "\<not> is_wild p" | (static) "is_static p"
    by (auto simp: is_static_def)
  then show ?case
  proof cases
    case wild
    then have "\<not> is_param p" using param_xor_wild by blast
    then show ?thesis using wild "2.prems"(4) d(2) step sel fl by (auto split: if_splits)
  next
    case param
    then obtain m' where m': "match_segs ps ss = Some m'" "m = [param_name p \<mapsto> s] ++ m'"
      using "2.prems"(4) by auto
    show ?thesis
    proof (cases "ss = []")
      case True
      then have "ps = []" "m' = Map.empty" using m'(1) by (cases ps; auto)+
      then show ?thesis using True m'(2) d(2) step sel fl param
        by (auto simp: map_add_def)
    next
      case False
      show ?thesis using "2.IH"(1) [OF param(2,1) ok(2) False d(2) m'(1)] False m' step sel fl param
        by simp
    qed
  next
    case static
    then have np: "\<not> is_wild p" "\<not> is_param p" by auto
    then have m': "match_segs ps ss = Some m" "p = s"
      using "2.prems"(4) by (auto split: if_splits)
    show ?thesis
    proof (cases "ss = []")
      case True
      then have "ps = []" "m = Map.empty" using m'(1) by (cases ps; auto)+
      then show ?thesis using True d(2) step sel fl np by simp
    next
      case False
      show ?thesis using "2.IH"(2) [OF np m'(2) ok(2) False d(2) m'(1)] False step sel fl np by simp
    qed
  qed
qed simp_all

lemma resolve_segs_sound:
  assumes "wf_node n" "resolve_segs pick i n acc ss = (Some v, ps)"
  shows "\<exists>pat m. value_at n pat = Some v \<and> match_segs pat ss = Some m \<and> ps = Some (acc ++ m)"
  using assms
proof (induction ss arbitrary: n i acc)
  case Nil
  then show ?case by simp
next
  case (Cons s ss)
  note step = resolve_segs_step [OF Cons.prems(1), of pick i acc s ss]
  from Cons.prems(2) step obtain c where sel: "select_child n s = Some c"
    by (auto split: option.splits)
  from select_child_key [OF Cons.prems(1) this] obtain k where
    k: "child n k = Some c" "node_ok k c" "wf_node c" "is_static k \<longrightarrow> k = s" by blast
  have fl: "isWildcard c = is_wild k" "isParameter c = is_param k" "parameter c = param_name k"
    using k(2) by (auto simp: node_ok_def)
  have val: "value_at n (k # q) = value_at c q" for q using k(1) by (simp add: value_at_def)
  let ?acc = "if is_param k then acc(param_name k \<mapsto> s) else acc"
  consider (wild) "is_wild k" | (last) "\<not> is_wild k" "ss = []" | (go) "\<not> is_wild k" "ss \<noteq> []"
    by blast
  then show ?case
  proof cases
    case wild
    then have "\<not> is_param k" using param_xor_wild by blast
    then show ?thesis using wild Cons.prems(2) step sel fl val [of "[]"]
      by (intro exI [of _ "[k]"]) auto
  next
    case last
    then show ?thesis using Cons.prems(2) step sel fl val [of "[]"] k(4)
      by (intro exI [of _ "[k]"]) (auto simp: is_static_def)
  next
    case go
    then have "resolve_segs pick (Suc i) c ?acc ss = (Some v, ps)"
      using Cons.prems(2) step sel fl by (simp split: if_splits)
    from Cons.IH [OF k(3) this] obtain pat m where
      r: "value_at c pat = Some v" "match_segs pat ss = Some m" "ps = Some (?acc ++ m)" by blast
    then show ?thesis using go k(4) val [of pat]
      by (intro exI [of _ "k # pat"]) (auto simp: is_static_def)
  qed
qed

lemma resolve_segs_pick:
  "wf_node n \<Longrightarrow> resolve_segs pick i n acc ss = resolve_segs pick' j n acc ss"
proof (induction ss arbitrary: n i j acc)
  case Nil
  then show ?case by simp
next
  case (Cons s ss)
  then show ?case
    using select_child_key [OF Cons.prems, of s]
    by (auto simp: resolve_segs_step [OF Cons.prems] Let_def split: option.split)
qed

subsection \<open>Routes and segment lists\<close>

definition abs_route :: "string \<Rightarrow> bool" where
  "abs_route r \<longleftrightarrow> has_prefix r ''/''"

lemma toSegments_abs: "toSegments (CHR ''/'' # r) = split_on (CHR ''/'') r"
  by (simp add: toSegments_def)

lemma toSegments_not_Nil: "abs_route r \<Longrightarrow> toSegments r \<noteq> []"
  by (auto simp: abs_route_def has_prefix_iff toSegments_abs)

lemma toSegments_inject:
  "abs_route r \<Longrightarrow> abs_route r' \<Longrightarrow> toSegments r = toSegments r' \<longleftrightarrow> r = r'"
  by (auto simp: abs_route_def has_prefix_iff toSegments_abs split_on_inject)

text \<open>A root of a tree: a well-formed node that is not itself a wildcard.\<close>

definition wf_tree :: "'v node \<Rightarrow> bool" where
  "wf_tree n \<longleftrightarrow> wf_node n \<and> \<not> isWildcard n"

lemma wf_tree_New [simp]: "wf_tree NewNode"
  by (simp add: wf_tree_def)

lemma wf_tree_label: "wf_node n' \<Longrightarrow> label n' = label n \<Longrightarrow> wf_tree n \<Longrightarrow> wf_tree n'"
  by (simp add: wf_tree_def label_def)

lemma route_value_New [simp]: "abs_route r \<Longrightarrow> route_value NewNode r = None"
  by (simp add: route_value_def value_at_leaf toSegments_not_Nil)

definition routable :: "'v node \<Rightarrow> string \<Rightarrow> bool" where
  "routable n r \<longleftrightarrow> route_value n r = None \<and>
     (r \<noteq> ''/'' \<longrightarrow> wild_last (toSegments r) \<and> clash_free n (toSegments r))"

lemma route_value_upd:
  assumes "value_at n' = (value_at n)(toSegments r := x)" "abs_route r" "r \<noteq> ''/''" "abs_route r'"
  shows "route_value n' r' = (if r' = r then x else route_value n r')"
proof -
  have "node_value n' = node_value n"
    using fun_cong [OF assms(1), of "[]"] toSegments_not_Nil [OF assms(2)] by simp
  then show ?thesis using assms by (auto simp: route_value_def toSegments_inject)
qed

lemma AddRoute_facts:
  assumes "wf_tree n" and "abs_route r" and "AddRoute pick n r v = (e, n')"
  shows "wf_tree n' \<and> (e = None \<longleftrightarrow> routable n r) \<and>
    (\<forall>r'. abs_route r' \<longrightarrow>
       route_value n' r' = (if e = None \<and> r' = r then Some v else route_value n r'))"
proof (cases "r = ''/''")
  case True
  have "toSegments r' \<noteq> []" if "abs_route r'" for r' using that by (rule toSegments_not_Nil)
  then show ?thesis using True assms
    by (auto simp: AddRoute_def routable_def route_value_def value_at_set_value wf_tree_def
        split: if_splits)
next
  case False
  have ne: "toSegments r \<noteq> []" using assms(2) by (rule toSegments_not_Nil)
  have wf: "wf_node n" "\<not> isWildcard n" using assms(1) by (auto simp: wf_tree_def)
  have a: "add_segs pick r v 0 n (toSegments r) = (e, n')"
    using assms(3) False by (simp add: AddRoute_def)
  note c = add_segs_correct [OF wf(1) ne a]
  have "e = None \<longleftrightarrow> routable n r"
    using add_segs_succeeds_iff [OF wf(1) ne, of pick r v 0] a wf(2) False
    by (auto simp: routable_def route_value_def)
  moreover have "route_value n' r' = (if e = None \<and> r' = r then Some v else route_value n r')"
    if "abs_route r'" for r'
  proof (cases e)
    case None
    then have "value_at n' = (value_at n)(toSegments r := Some v)" using c by simp
    from route_value_upd [OF this assms(2) False that] show ?thesis using None by simp
  next
    case (Some x)
    then have v: "value_at n' = value_at n" using c by simp
    have "node_value n' = node_value n" using v value_at_Nil by metis
    then show ?thesis using Some v by (simp add: route_value_def)
  qed
  ultimately show ?thesis using c assms(1) wf_tree_label by blast
qed

lemma Resolve_iff:
  assumes "wf_tree n" and "abs_route path" and "path \<noteq> ''/''"
  shows "Resolve pick n path = (Some v, ps) \<longleftrightarrow>
    (\<exists>pat m. value_at n pat = Some v \<and> match_segs pat (toSegments path) = Some m \<and> ps = Some m)"
    (is "?L \<longleftrightarrow> ?R")
proof
  assume ?L
  then show ?R
    using resolve_segs_sound [of n pick 0 Map.empty "toSegments path" v ps] assms
    by (simp add: Resolve_def wf_tree_def)
next
  assume ?R
  then obtain pat m c where "node_at n pat = Some c" "node_value c = Some v"
    "match_segs pat (toSegments path) = Some m" "ps = Some m"
    by (auto simp: value_at_def split: option.splits)
  then show ?L
    using resolve_segs_complete [of n "toSegments path" pat c m pick 0 Map.empty] assms
    by (simp add: Resolve_def wf_tree_def toSegments_not_Nil)
qed

subsection \<open>The properties of the tree\<close>

text \<open>C5: AddRoute is exact. For a route that starts with a slash, on a well-formed tree and whatever child
  the runtime's map iteration returns, it succeeds exactly when the route is new, its
  wildcard (if any) is last and no node clashes with it; on success the routing table gains
  this one route, on an error no route changes; the tree stays well-formed either way.\<close>

theorem AddRoute_exact:
  assumes "wf_tree n" and "abs_route r" and "AddRoute pick n r v = (e, n')"
  shows "wf_tree n' \<and> (e = None \<longleftrightarrow> routable n r) \<and>
    (\<forall>r'. abs_route r' \<longrightarrow>
       route_value n' r' = (if e = None \<and> r' = r then Some v else route_value n r'))"
  using AddRoute_facts [OF assms] .

theorem AddRoute_exact_witness:
  "fst (AddRoute (\<lambda>_. 3) NewNode ''/users/:id'' (7::nat)) = None \<and>
   wf_tree (snd (AddRoute (\<lambda>_. 3) NewNode ''/users/:id'' (7::nat))) \<and>
   route_value (snd (AddRoute (\<lambda>_. 3) NewNode ''/users/:id'' (7::nat))) ''/users/:id'' = Some 7"
proof -
  let ?p = "AddRoute (\<lambda>_. 3) NewNode ''/users/:id'' (7::nat)"
  have a: "?p = (fst ?p, snd ?p)" by simp
  have r: "abs_route ''/users/:id''" by (simp add: abs_route_def)
  have "fst ?p = None" by code_simp
  then show ?thesis using AddRoute_exact [OF wf_tree_New r a] r by simp
qed

text \<open>Go does not specify the order of map iteration, but on a well-formed tree no
  result depends on it: AddRoute, error and tree alike, and Resolve are the same for any
  two choices of the runtime.\<close>

theorem iteration_order_irrelevant:
  assumes "wf_tree n"
  shows "AddRoute pick n r v = AddRoute pick' n r v \<and> Resolve pick n p = Resolve pick' n p"
  using assms add_segs_pick [of n pick r v 0 "toSegments r" pick' 0]
    resolve_segs_pick [of n pick 0 Map.empty "toSegments p" pick' 0]
  by (simp add: AddRoute_def Resolve_def wf_tree_def)

theorem iteration_order_irrelevant_witness:
  "AddRoute (\<lambda>_. 0) (NewNode :: nat node) ''/a'' 1 = AddRoute (\<lambda>i. i + 5) NewNode ''/a'' 1"
  using iteration_order_irrelevant [of "NewNode :: nat node" "\<lambda>_. 0" "''/a''" 1 "\<lambda>i. i + 5"] by simp

text \<open>C7: Resolve is sound and complete: a request path other than \<^verbatim>\<open>/\<close> gets a value and parameters exactly
  when some pattern of the routing table has this value and matches the path with these
  parameters; the path \<^verbatim>\<open>/\<close> gets the value of the route \<^verbatim>\<open>/\<close>, if any, and no parameters.\<close>

theorem Resolve_exact:
  assumes "wf_tree n" and "abs_route path" and "path \<noteq> ''/''"
  shows "(Resolve pick n path = (Some v, ps) \<longleftrightarrow>
      (\<exists>pat m. value_at n pat = Some v \<and> match_segs pat (toSegments path) = Some m \<and> ps = Some m)) \<and>
    Resolve pick n ''/'' = (route_value n ''/'', None)"
  using Resolve_iff [OF assms] by (simp_all add: Resolve_def route_value_def split: option.split)

theorem Resolve_exact_witness:
  "\<exists>pat m. value_at (snd (AddRoute (\<lambda>_. 0) NewNode ''/:x/*y'' (7::nat))) pat = Some 7 \<and>
     match_segs pat (toSegments ''/a/b/c'') = Some m \<and> m ''y'' = Some ''b/c'' \<and> m ''x'' = Some ''a''"
proof -
  let ?t = "snd (AddRoute (\<lambda>_. 0) NewNode ''/:x/*y'' (7::nat))"
  have wf: "wf_tree ?t" by code_simp
  have p: "abs_route ''/a/b/c''" "''/a/b/c'' \<noteq> ''/''" by (simp_all add: abs_route_def)
  obtain m where r: "Resolve (\<lambda>_. 0) ?t ''/a/b/c'' = (Some 7, Some m)"
    "m = [''x'' \<mapsto> ''a'', ''y'' \<mapsto> ''b/c'']"
    by (simp add: AddRoute_def Resolve_def toSegments_def add_segs.simps resolve_segs.simps
        createNode_def NewNode_def set_value_def set_children_def first_def is_param_def
        is_wild_def is_static_def param_name_def has_prefix_def trim_prefix_def)
  show ?thesis using Resolve_exact [OF wf p, of "\<lambda>_. 0" 7 "Some m"] r by auto
qed

text \<open>C29: DeleteRoute is exact on every branch: it panics (a nil dereference) exactly when a
  node before the last segment is missing, reports an error exactly when only the last one
  is, and otherwise takes this one route out of the table and keeps the tree well-formed. For the
  route \<^verbatim>\<open>/\<close> it never fails.\<close>

theorem DeleteRoute_exact:
  assumes "wf_tree n" and "abs_route r"
  shows "(DeleteRoute n r = DeletePanic \<longleftrightarrow> r \<noteq> ''/'' \<and> node_at n (butlast (toSegments r)) = None) \<and>
    (DeleteRoute n r = DeleteError \<longleftrightarrow>
       r \<noteq> ''/'' \<and> node_at n (butlast (toSegments r)) \<noteq> None \<and> node_at n (toSegments r) = None) \<and>
    (\<forall>n'. DeleteRoute n r = DeleteOk n' \<longrightarrow> wf_tree n' \<and>
       (\<forall>r'. abs_route r' \<longrightarrow> route_value n' r' = (if r' = r then None else route_value n r')))"
proof (cases "r = ''/''")
  case True
  then show ?thesis
    using assms(1) toSegments_not_Nil
    by (auto simp: DeleteRoute_def route_value_def value_at_set_value wf_tree_def)
next
  case False
  have ne: "toSegments r \<noteq> []" using assms(2) by (rule toSegments_not_Nil)
  have d: "DeleteRoute n r = delete_segs n (toSegments r)" using False by (simp add: DeleteRoute_def)
  have "wf_tree n' \<and>
      (\<forall>r'. abs_route r' \<longrightarrow> route_value n' r' = (if r' = r then None else route_value n r'))"
    if "DeleteRoute n r = DeleteOk n'" for n'
  proof -
    have c: "wf_node n'" "label n' = label n" "value_at n' = (value_at n)(toSegments r := None)"
      using delete_segs_correct [OF _ ne] that assms(1) d by (auto simp: wf_tree_def)
    then show ?thesis
      using wf_tree_label [OF c(1,2) assms(1)] route_value_upd [OF c(3) assms(2) False] by blast
  qed
  then show ?thesis using delete_segs_outcome [OF ne, of n] d False by auto
qed

theorem DeleteRoute_exact_witness:
  "DeleteRoute (NewNode :: nat node) ''/a'' = DeleteError \<and>
   DeleteRoute (NewNode :: nat node) ''/a/b/c'' = DeletePanic"
  using DeleteRoute_exact [of "NewNode :: nat node" "''/a''"]
    DeleteRoute_exact [of "NewNode :: nat node" "''/a/b/c''"]
  by (simp add: abs_route_def toSegments_def)

text \<open>Once AddRoute has accepted a route, every request path that its pattern matches
  resolves to its value, with the bindings of the pattern, whatever else is in the tree.\<close>

theorem AddRoute_then_Resolve:
  assumes "wf_tree n" and "abs_route r" and "r \<noteq> ''/''" and "AddRoute pick n r v = (None, n')"
    and "abs_route path" and "path \<noteq> ''/''"
    and "match_segs (toSegments r) (toSegments path) = Some m"
  shows "Resolve pick' n' path = (Some v, Some m)"
proof -
  have a: "wf_tree n'" "route_value n' r = Some v"
    using AddRoute_facts [OF assms(1,2,4)] assms(2) by auto
  then have "value_at n' (toSegments r) = Some v" using assms(3) by (simp add: route_value_def)
  then show ?thesis using Resolve_iff [OF a(1) assms(5,6)] assms(7) by blast
qed

theorem AddRoute_then_Resolve_witness:
  "Resolve (\<lambda>_. 1) (snd (AddRoute (\<lambda>_. 0) NewNode ''/users/:id'' (7::nat))) ''/users/42'' =
     (Some 7, Some [''id'' \<mapsto> ''42''])"
proof -
  let ?p = "AddRoute (\<lambda>_. 0) NewNode ''/users/:id'' (7::nat)"
  have "fst ?p = None" by code_simp
  then have a: "?p = (None, snd ?p)" by (metis prod.collapse)
  have m: "match_segs (toSegments ''/users/:id'') (toSegments ''/users/42'') = Some [''id'' \<mapsto> ''42'']"
    by (simp add: toSegments_def is_param_def is_wild_def param_name_def has_prefix_def trim_prefix_def)
  show ?thesis
    by (rule AddRoute_then_Resolve [OF wf_tree_New _ _ a _ _ m]) (simp_all add: abs_route_def)
qed

end
