(* ===== verification/Services.thy ===== *)
theory Services
  imports KVStore Entities PathTree
begin

section \<open>The configuration services (libkv)\<close>

text \<open>
  The operations of \<^verbatim>\<open>libkv.Service\<close> on event types, functions, subscriptions and CORS
  configurations. An operation that writes takes the state of the stores and returns its
  result with the new state; one that only reads returns its result. Every early return of
  the source is a branch. \<^verbatim>\<open>json.Marshal\<close> cannot fail on these entities. The argument
  \<open>E\<close> holds the third-party validator and the AWS session (theory Providers); \<open>pick\<close> is the
  runtime's choice in map iterations (theory PathTree). The debug log is left out here.
\<close>

subsection \<open>Space, keys and shared steps (space.go)\<close>

definition defaultSpace :: string where
  "defaultSpace = ''default''"

definition spacePath :: "string \<Rightarrow> string" where
  "spacePath sp = sp @ ''/''"

text \<open>The regular expression \<^verbatim>\<open>^[a-zA-Z0-9\.\-_]+$\<close> of three validators.\<close>

definition name_chars :: "string \<Rightarrow> bool" where
  "name_chars s \<longleftrightarrow> s \<noteq> [] \<and> list_all (\<lambda>c. is_alnum c \<or> c \<in> set ''.-_'') s"

definition spaceValidator :: "string \<Rightarrow> bool" where
  "spaceValidator s = name_chars s"

definition functionIDValidator :: "string \<Rightarrow> bool" where
  "functionIDValidator s = name_chars s"

definition eventTypeValidator :: "string \<Rightarrow> bool" where
  "eventTypeValidator s = name_chars s"

definition EventTypeKey :: "string \<Rightarrow> string \<Rightarrow> string" where
  "EventTypeKey sp n = sp @ ''/'' @ n"

definition FunctionKey :: "string \<Rightarrow> string \<Rightarrow> string" where
  "FunctionKey sp i = sp @ ''/'' @ i"

definition CORSKey :: "string \<Rightarrow> string \<Rightarrow> string" where
  "CORSKey sp i = sp @ ''/'' @ i"

definition subscriptionPath :: "string \<Rightarrow> string \<Rightarrow> string" where
  "subscriptionPath sp i = spacePath sp @ i"

text \<open>An error of \<^verbatim>\<open>Get\<close> becomes the given one when the key is missing.\<close>

definition get_error :: "svc_error \<Rightarrow> string \<Rightarrow> svc_error" where
  "get_error not_found e = (if e = errKeyNotFound then not_found else StoreError e)"

definition decode :: "(json \<Rightarrow> (svc_error, 'a) res) \<Rightarrow> blob \<Rightarrow> (svc_error, 'a) res" where
  "decode rd b = (case b of Doc j \<Rightarrow> rd j | Raw _ \<Rightarrow> Inl (JSONError ''syntax''))"

text \<open>The loop of the four \<^verbatim>\<open>List\<close> operations: decode each value, keep those that pass the filters.\<close>

fun list_loop :: "(json \<Rightarrow> (svc_error, 'a) res) \<Rightarrow> ('a \<Rightarrow> metadata) \<Rightarrow> metadata_filter list \<Rightarrow>
    kvpair list \<Rightarrow> (svc_error, 'a list) res" where
  "list_loop rd md fs [] = Inr []"
| "list_loop rd md fs (p # ps) =
     (case decode rd (Value p) of
        Inl e \<Rightarrow> Inl e
      | Inr x \<Rightarrow>
          (case list_loop rd md fs ps of
             Inl e \<Rightarrow> Inl e
           | Inr xs \<Rightarrow> Inr (if metadata_Check (md x) fs then x # xs else xs)))"

definition list_entities :: "(json \<Rightarrow> (svc_error, 'a) res) \<Rightarrow> ('a \<Rightarrow> metadata) \<Rightarrow> metadata_filter list \<Rightarrow>
    (string, kvpair list) res \<Rightarrow> (svc_error, 'a list) res" where
  "list_entities rd md fs r =
     (case r of
        Inl e \<Rightarrow> if e \<noteq> errKeyNotFound then Inl (StoreError e) else Inr []
      | Inr ps \<Rightarrow> list_loop rd md fs ps)"

subsection \<open>Functions (function.go)\<close>

definition validateFunction :: "env \<Rightarrow> func \<Rightarrow> (svc_error, func) res" where
  "validateFunction E f0 =
     (let f = (if fn_Space f0 = [] then f0\<lparr>fn_Space := defaultSpace\<rparr> else f0) in
      case validate_struct E
        [(''Space'', v_required E (fn_Space f) \<and> v_min E 3 (fn_Space f) \<and> spaceValidator (fn_Space f)),
         (''ID'', v_required E (fn_ID f) \<and> functionIDValidator (fn_ID f))] of
        Some m \<Rightarrow> Inl (ErrFunctionValidation m)
      | None \<Rightarrow> Inr f)"

definition GetFunction :: "env \<Rightarrow> ('st, 'h) service \<Rightarrow> string \<Rightarrow> string \<Rightarrow> 'st \<Rightarrow> (svc_error, func) res" where
  "GetFunction E svc sp i st =
     (case kv_Get (FunctionStore svc) (FunctionKey sp i) st of
        Inl e \<Rightarrow> Inl (get_error (ErrFunctionNotFound i) e)
      | Inr p \<Rightarrow> decode (read_func E) (Value p))"

definition ListFunctions ::
  "env \<Rightarrow> ('st, 'h) service \<Rightarrow> string \<Rightarrow> metadata_filter list \<Rightarrow> 'st \<Rightarrow> (svc_error, func list) res" where
  "ListFunctions E svc sp fs st =
     list_entities (read_func E) fn_Metadata fs (kv_List (FunctionStore svc) (spacePath sp) st)"

definition CreateFunction ::
  "env \<Rightarrow> ('st, 'h) service \<Rightarrow> func \<Rightarrow> 'st \<Rightarrow> (svc_error, func) res \<times> 'st" where
  "CreateFunction E svc f0 st =
     (case validateFunction E f0 of
        Inl e \<Rightarrow> (Inl e, st)
      | Inr f \<Rightarrow>
          (case kv_Get (FunctionStore svc) (FunctionKey (fn_Space f) (fn_ID f)) st of
             Inr _ \<Rightarrow> (Inl (ErrFunctionAlreadyRegistered (fn_ID f)), st)
           | Inl _ \<Rightarrow>
               (case kv_AtomicPut (FunctionStore svc) (FunctionKey (fn_Space f) (fn_ID f))
                       (Doc (func_json f)) None st of
                  (Inl e, st') \<Rightarrow> (Inl (StoreError e), st')
                | (Inr _, st') \<Rightarrow> (Inr f, st'))))"

definition UpdateFunction ::
  "env \<Rightarrow> ('st, 'h) service \<Rightarrow> func \<Rightarrow> 'st \<Rightarrow> (svc_error, func) res \<times> 'st" where
  "UpdateFunction E svc f0 st =
     (case validateFunction E f0 of
        Inl e \<Rightarrow> (Inl e, st)
      | Inr f \<Rightarrow>
          (case kv_Get (FunctionStore svc) (FunctionKey (fn_Space f) (fn_ID f)) st of
             Inl _ \<Rightarrow> (Inl (ErrFunctionNotFound (fn_ID f)), st)
           | Inr _ \<Rightarrow>
               (case kv_Put (FunctionStore svc) (FunctionKey (fn_Space f) (fn_ID f))
                       (Doc (func_json f)) st of
                  (Some e, st') \<Rightarrow> (Inl (StoreError e), st')
                | (None, st') \<Rightarrow> (Inr f, st'))))"

subsection \<open>Event types (eventtype.go)\<close>

definition validateEventType :: "env \<Rightarrow> event_type \<Rightarrow> (svc_error, event_type) res" where
  "validateEventType E t0 =
     (let t = (if et_Space t0 = [] then t0\<lparr>et_Space := defaultSpace\<rparr> else t0) in
      case validate_struct E
        [(''Space'', v_required E (et_Space t) \<and> v_min E 3 (et_Space t) \<and> spaceValidator (et_Space t)),
         (''Name'', v_required E (et_Name t))] of
        Some m \<Rightarrow> Inl (ErrEventTypeValidation m)
      | None \<Rightarrow> Inr t)"

definition GetEventType :: "('st, 'h) service \<Rightarrow> string \<Rightarrow> string \<Rightarrow> 'st \<Rightarrow> (svc_error, event_type) res" where
  "GetEventType svc sp n st =
     (case kv_Get (EventTypeStore svc) (EventTypeKey sp n) st of
        Inl e \<Rightarrow> Inl (get_error (ErrEventTypeNotFound n) e)
      | Inr p \<Rightarrow> decode read_event_type (Value p))"

definition ListEventTypes ::
  "('st, 'h) service \<Rightarrow> string \<Rightarrow> metadata_filter list \<Rightarrow> 'st \<Rightarrow> (svc_error, event_type list) res" where
  "ListEventTypes svc sp fs st =
     list_entities read_event_type et_Metadata fs (kv_List (EventTypeStore svc) (spacePath sp) st)"

text \<open>The authorizer, if any, must exist; the kind of error of the lookup is not looked at.\<close>

definition check_authorizer :: "env \<Rightarrow> ('st, 'h) service \<Rightarrow> event_type \<Rightarrow> 'st \<Rightarrow> svc_error option" where
  "check_authorizer E svc t st =
     (case et_AuthorizerID t of
        None \<Rightarrow> None
      | Some a \<Rightarrow>
          (case GetFunction E svc (et_Space t) a st of
             Inl Panicked \<Rightarrow> Some Panicked
           | Inl _ \<Rightarrow> Some ErrAuthorizerDoesNotExists
           | Inr _ \<Rightarrow> None))"

definition CreateEventType ::
  "env \<Rightarrow> ('st, 'h) service \<Rightarrow> event_type \<Rightarrow> 'st \<Rightarrow> (svc_error, event_type) res \<times> 'st" where
  "CreateEventType E svc t0 st =
     (case validateEventType E t0 of
        Inl e \<Rightarrow> (Inl e, st)
      | Inr t \<Rightarrow>
          (case kv_Get (EventTypeStore svc) (EventTypeKey (et_Space t) (et_Name t)) st of
             Inr _ \<Rightarrow> (Inl (ErrEventTypeAlreadyExists (et_Name t)), st)
           | Inl _ \<Rightarrow>
               (case check_authorizer E svc t st of
                  Some e \<Rightarrow> (Inl e, st)
                | None \<Rightarrow>
                    (case kv_AtomicPut (EventTypeStore svc) (EventTypeKey (et_Space t) (et_Name t))
                            (Doc (event_type_json t)) None st of
                       (Inl e, st') \<Rightarrow> (Inl (StoreError e), st')
                     | (Inr _, st') \<Rightarrow> (Inr t, st')))))"

definition UpdateEventType ::
  "env \<Rightarrow> ('st, 'h) service \<Rightarrow> event_type \<Rightarrow> 'st \<Rightarrow> (svc_error, event_type) res \<times> 'st" where
  "UpdateEventType E svc t0 st =
     (case validateEventType E t0 of
        Inl e \<Rightarrow> (Inl e, st)
      | Inr t \<Rightarrow>
          (case GetEventType svc (et_Space t) (et_Name t) st of
             Inl e \<Rightarrow> (Inl e, st)
           | Inr _ \<Rightarrow>
               (case check_authorizer E svc t st of
                  Some e \<Rightarrow> (Inl e, st)
                | None \<Rightarrow>
                    (case kv_Put (EventTypeStore svc) (EventTypeKey (et_Space t) (et_Name t))
                            (Doc (event_type_json t)) st of
                       (Some e, st') \<Rightarrow> (Inl (StoreError e), st')
                     | (None, st') \<Rightarrow> (Inr t, st')))))"

subsection \<open>Subscriptions (subscription.go)\<close>

definition http_methods :: "string list" where
  "http_methods = [''GET'', ''POST'', ''DELETE'', ''PUT'', ''PATCH'', ''HEAD'', ''OPTIONS'']"

definition urlPathValidator :: "string \<Rightarrow> bool" where
  "urlPathValidator s \<longleftrightarrow> s \<noteq> [] \<and> hd s = CHR ''/''"

definition validateSubscription :: "env \<Rightarrow> subscription \<Rightarrow> (svc_error, subscription) res" where
  "validateSubscription E s0 =
     (let s1 = s0\<lparr>sub_Path := EnsurePrefix (sub_Path s0) ''/''\<rparr>;
          s2 = (if sub_Space s1 = [] then s1\<lparr>sub_Space := defaultSpace\<rparr> else s1);
          s = (if sub_Method s2 = [] then s2\<lparr>sub_Method := ''POST''\<rparr>
               else s2\<lparr>sub_Method := ToUpper (sub_Method s2)\<rparr>) in
      case validate_struct E
        [(''Space'', v_required E (sub_Space s) \<and> v_min E 3 (sub_Space s) \<and> spaceValidator (sub_Space s)),
         (''Type'', v_required E (sub_Type s) \<and> list_ex (v_eq E (sub_Type s)) [''async'', ''sync'']),
         (''EventType'', v_required E (sub_EventType s) \<and> eventTypeValidator (sub_EventType s)),
         (''FunctionID'', v_required E (sub_FunctionID s)),
         (''Path'', v_required E (sub_Path s) \<and> urlPathValidator (sub_Path s)),
         (''Method'', v_required E (sub_Method s) \<and> list_ex (v_eq E (sub_Method s)) http_methods)] of
        Some m \<Rightarrow> Inl (ErrSubscriptionValidation m)
      | None \<Rightarrow> Inr s)"

definition newSubscriptionID :: "subscription \<Rightarrow> string" where
  "newSubscriptionID s =
     b64_encode
       (if sub_Type s = TypeAsync
        then sub_Type s @ '','' @ sub_EventType s @ '','' @ sub_FunctionID s @ '','' @
             PathEscape (sub_Path s) @ '','' @ sub_Method s
        else sub_Type s @ '','' @ sub_EventType s @ '','' @ PathEscape (sub_Path s) @ '','' @ sub_Method s)"

fun route_error_text :: "route_error \<Rightarrow> string" where
  "route_error_text RootConflict = ''route / conflicts with existing route''"
| "route_error_text WildcardNotLast = ''wildcard must be the last parameter''"
| "route_error_text (WildcardDefined p r) =
     ''wildcard with different name ('' @ quoted p @ '') already defined: for route: '' @ r"
| "route_error_text (ParameterDefined p r) =
     ''parameter with different name ('' @ quoted p @ '') already defined: for route: '' @ r"
| "route_error_text (StaticDefined r) = ''static route already defined for route: '' @ r"
| "route_error_text (RouteConflict r) = ''route '' @ r @ '' conflicts with existing route''"

text \<open>
  \<^verbatim>\<open>checkForPathConflict\<close>: a tree is filled with the paths of the sync subscriptions of the
  same space, method and event type; an error of an insertion into it is ignored, and so is an
  error of the store.
\<close>

fun conflict_tree :: "(nat \<Rightarrow> nat) \<Rightarrow> string \<Rightarrow> string \<Rightarrow> (string \<times> string) node \<Rightarrow> kvpair list \<Rightarrow>
    (svc_error, (string \<times> string) node) res" where
  "conflict_tree pick me et tree [] = Inr tree"
| "conflict_tree pick me et tree (p # ps) =
     (case decode read_subscription (Value p) of
        Inl e \<Rightarrow> Inl e
      | Inr s \<Rightarrow>
          conflict_tree pick me et
            (if sub_Type s = TypeSync \<and> sub_Method s = me \<and> sub_EventType s = et
             then snd (AddRoute pick tree (sub_Path s) (sub_Space s, [])) else tree) ps)"

definition checkForPathConflict ::
  "(nat \<Rightarrow> nat) \<Rightarrow> ('st, 'h) service \<Rightarrow> string \<Rightarrow> string \<Rightarrow> string \<Rightarrow> string \<Rightarrow> 'st \<Rightarrow> svc_error option" where
  "checkForPathConflict pick svc sp me path et st =
     (case conflict_tree pick me et NewNode
             (case kv_List (SubscriptionStore svc) (spacePath sp) st of Inl _ \<Rightarrow> [] | Inr ps \<Rightarrow> ps) of
        Inl e \<Rightarrow> Some e
      | Inr tree \<Rightarrow>
          (case fst (AddRoute pick tree path (sp, [])) of
             Some e \<Rightarrow> Some (ErrPathConfict (route_error_text e))
           | None \<Rightarrow> None))"

definition GetSubscription ::
  "('st, 'h) service \<Rightarrow> string \<Rightarrow> string \<Rightarrow> 'st \<Rightarrow> (svc_error, subscription) res" where
  "GetSubscription svc sp i st =
     (case kv_Get (SubscriptionStore svc) (subscriptionPath sp i) st of
        Inl e \<Rightarrow> Inl (get_error (ErrSubscriptionNotFound i) e)
      | Inr p \<Rightarrow> decode read_subscription (Value p))"

definition ListSubscriptions ::
  "('st, 'h) service \<Rightarrow> string \<Rightarrow> metadata_filter list \<Rightarrow> 'st \<Rightarrow> (svc_error, subscription list) res" where
  "ListSubscriptions svc sp fs st =
     list_entities read_subscription sub_Metadata fs (kv_List (SubscriptionStore svc) (spacePath sp) st)"

definition CreateSubscription ::
  "(nat \<Rightarrow> nat) \<Rightarrow> env \<Rightarrow> ('st, 'h) service \<Rightarrow> subscription \<Rightarrow> 'st \<Rightarrow> (svc_error, subscription) res \<times> 'st" where
  "CreateSubscription pick E svc s0 st =
     (case validateSubscription E s0 of
        Inl e \<Rightarrow> (Inl e, st)
      | Inr s1 \<Rightarrow>
          (let s = s1\<lparr>sub_ID := newSubscriptionID s1\<rparr> in
           case kv_Get (SubscriptionStore svc) (subscriptionPath (sub_Space s) (sub_ID s)) st of
             Inr _ \<Rightarrow> (Inl (ErrSubscriptionAlreadyExists (sub_ID s)), st)
           | Inl _ \<Rightarrow>
               (case (if sub_Type s = TypeSync
                      then checkForPathConflict pick svc (sub_Space s) (sub_Method s) (sub_Path s)
                             (sub_EventType s) st
                      else None) of
                  Some e \<Rightarrow> (Inl e, st)
                | None \<Rightarrow>
                    (case GetEventType svc (sub_Space s) (sub_EventType s) st of
                       Inl e \<Rightarrow> (Inl e, st)
                     | Inr _ \<Rightarrow>
                         (case GetFunction E svc (sub_Space s) (sub_FunctionID s) st of
                            Inl e \<Rightarrow> (Inl e, st)
                          | Inr _ \<Rightarrow>
                              (case kv_AtomicPut (SubscriptionStore svc)
                                      (subscriptionPath (sub_Space s) (sub_ID s))
                                      (Doc (subscription_json s)) None st of
                                 (Inl e, st') \<Rightarrow> (Inl (StoreError e), st')
                               | (Inr _, st') \<Rightarrow> (Inr s, st')))))))"

definition validateSubscriptionUpdate :: "subscription \<Rightarrow> subscription \<Rightarrow> svc_error option" where
  "validateSubscriptionUpdate new old =
     (if sub_Type new \<noteq> sub_Type old then Some (ErrInvalidSubscriptionUpdate ''Type'')
      else if sub_EventType new \<noteq> sub_EventType old then Some (ErrInvalidSubscriptionUpdate ''EventType'')
      else if sub_FunctionID new \<noteq> sub_FunctionID old then Some (ErrInvalidSubscriptionUpdate ''FunctionID'')
      else if sub_Path new \<noteq> sub_Path old then Some (ErrInvalidSubscriptionUpdate ''Path'')
      else if sub_Method new \<noteq> sub_Method old then Some (ErrInvalidSubscriptionUpdate ''Method'')
      else None)"

definition UpdateSubscription ::
  "env \<Rightarrow> ('st, 'h) service \<Rightarrow> string \<Rightarrow> subscription \<Rightarrow> 'st \<Rightarrow> (svc_error, subscription) res \<times> 'st" where
  "UpdateSubscription E svc i s0 st =
     (case validateSubscription E s0 of
        Inl e \<Rightarrow> (Inl e, st)
      | Inr s \<Rightarrow>
          (case GetSubscription svc (sub_Space s) i st of
             Inl e \<Rightarrow> (Inl e, st)
           | Inr old \<Rightarrow>
               (case validateSubscriptionUpdate s old of
                  Some e \<Rightarrow> (Inl e, st)
                | None \<Rightarrow>
                    (case GetFunction E svc (sub_Space s) (sub_FunctionID s) st of
                       Inl e \<Rightarrow> (Inl e, st)
                     | Inr _ \<Rightarrow>
                         (case kv_Put (SubscriptionStore svc) (subscriptionPath (sub_Space s) (sub_ID s))
                                 (Doc (subscription_json s)) st of
                            (Some e, st') \<Rightarrow> (Inl (StoreError e), st')
                          | (None, st') \<Rightarrow> (Inr s, st'))))))"

definition DeleteSubscription ::
  "('st, 'h) service \<Rightarrow> string \<Rightarrow> string \<Rightarrow> 'st \<Rightarrow> svc_error option \<times> 'st" where
  "DeleteSubscription svc sp i st =
     (case GetSubscription svc sp i st of
        Inl e \<Rightarrow> (Some e, st)
      | Inr s \<Rightarrow>
          (case kv_Delete (SubscriptionStore svc) (subscriptionPath sp i) st of
             (Some _, st') \<Rightarrow> (Some (ErrSubscriptionNotFound (sub_ID s)), st')
           | (None, st') \<Rightarrow> (None, st')))"

subsection \<open>Deleting event types and functions\<close>

definition DeleteEventType ::
  "('st, 'h) service \<Rightarrow> string \<Rightarrow> string \<Rightarrow> 'st \<Rightarrow> svc_error option \<times> 'st" where
  "DeleteEventType svc sp n st =
     (case ListSubscriptions svc sp [] st of
        Inl e \<Rightarrow> (Some e, st)
      | Inr subs \<Rightarrow>
          (if list_ex (\<lambda>s. n = sub_EventType s) subs then (Some ErrEventTypeHasSubscriptions, st)
           else
             (case kv_Delete (EventTypeStore svc) (EventTypeKey sp n) st of
                (Some _, st') \<Rightarrow> (Some (ErrEventTypeNotFound n), st')
              | (None, st') \<Rightarrow> (None, st'))))"

definition DeleteFunction ::
  "('st, 'h) service \<Rightarrow> string \<Rightarrow> string \<Rightarrow> 'st \<Rightarrow> svc_error option \<times> 'st" where
  "DeleteFunction svc sp i st =
     (case ListSubscriptions svc sp [] st of
        Inl e \<Rightarrow> (Some e, st)
      | Inr subs \<Rightarrow>
          (if list_ex (\<lambda>s. i = sub_FunctionID s) subs then (Some ErrFunctionHasSubscriptions, st)
           else
             (case ListEventTypes svc sp [] st of
                Inl e \<Rightarrow> (Some e, st)
              | Inr types \<Rightarrow>
                  (case find (\<lambda>t. et_AuthorizerID t = Some i) types of
                     Some t \<Rightarrow> (Some (ErrFunctionIsAuthorizer i (et_Name t)), st)
                   | None \<Rightarrow>
                       (case kv_Delete (FunctionStore svc) (FunctionKey sp i) st of
                          (Some _, st') \<Rightarrow> (Some (ErrFunctionNotFound i), st')
                        | (None, st') \<Rightarrow> (None, st'))))))"

subsection \<open>CORS configurations (cors.go)\<close>

definition pathValidator :: "string \<Rightarrow> bool" where
  "pathValidator s \<longleftrightarrow> s \<noteq> [] \<and> hd s = CHR ''/''"

definition validateCORS :: "env \<Rightarrow> cors \<Rightarrow> (svc_error, cors) res" where
  "validateCORS E c0 =
     (let c1 = (if cors_Space c0 = [] then c0\<lparr>cors_Space := defaultSpace\<rparr> else c0);
          c2 = (if length (cors_AllowedOrigins c1) = 0 then c1\<lparr>cors_AllowedOrigins := [''*'']\<rparr> else c1);
          c3 = (if length (cors_AllowedMethods c2) = 0
                then c2\<lparr>cors_AllowedMethods := [''HEAD'', ''GET'', ''POST'']\<rparr> else c2);
          c = (if length (cors_AllowedHeaders c3) = 0
               then c3\<lparr>cors_AllowedHeaders := [''Origin'', ''Accept'', ''Content-Type'']\<rparr> else c3) in
      case validate_struct E
        [(''Space'', v_required E (cors_Space c) \<and> v_min E 3 (cors_Space c) \<and> spaceValidator (cors_Space c)),
         (''Method'', list_ex (v_eq E (cors_Method c)) http_methods),
         (''Path'', pathValidator (cors_Path c)),
         (''AllowedOrigins'', v_min_len E 1 (cors_AllowedOrigins c)),
         (''AllowedMethods'', v_min_len E 1 (cors_AllowedMethods c)),
         (''AllowedHeaders'', v_min_len E 1 (cors_AllowedHeaders c))] of
        Some m \<Rightarrow> Inl (ErrCORSValidation m)
      | None \<Rightarrow> Inr c)"

definition newCORSID :: "cors \<Rightarrow> string" where
  "newCORSID c = cors_Method c @ PathEscape (cors_Path c)"

definition validateCORSUpdate :: "cors \<Rightarrow> cors \<Rightarrow> svc_error option" where
  "validateCORSUpdate new old =
     (if cors_Method new \<noteq> cors_Method old then Some (ErrInvalidCORSUpdate ''Method'')
      else if cors_Path new \<noteq> cors_Path old then Some (ErrInvalidCORSUpdate ''Path'')
      else None)"

definition GetCORS :: "('st, 'h) service \<Rightarrow> string \<Rightarrow> string \<Rightarrow> 'st \<Rightarrow> (svc_error, cors) res" where
  "GetCORS svc sp i st =
     (case kv_Get (CORSStore svc) (CORSKey sp i) st of
        Inl e \<Rightarrow> Inl (get_error (ErrCORSNotFound i) e)
      | Inr p \<Rightarrow> decode read_cors (Value p))"

definition ListCORS ::
  "('st, 'h) service \<Rightarrow> string \<Rightarrow> metadata_filter list \<Rightarrow> 'st \<Rightarrow> (svc_error, cors list) res" where
  "ListCORS svc sp fs st =
     list_entities read_cors cors_Metadata fs (kv_List (CORSStore svc) (spacePath sp) st)"

definition CreateCORS :: "env \<Rightarrow> ('st, 'h) service \<Rightarrow> cors \<Rightarrow> 'st \<Rightarrow> (svc_error, cors) res \<times> 'st" where
  "CreateCORS E svc c0 st =
     (case validateCORS E c0 of
        Inl e \<Rightarrow> (Inl e, st)
      | Inr c1 \<Rightarrow>
          (let c = c1\<lparr>cors_ID := newCORSID c1\<rparr> in
           case kv_Get (CORSStore svc) (CORSKey (cors_Space c) (cors_ID c)) st of
             Inr _ \<Rightarrow> (Inl (ErrCORSAlreadyExists (cors_ID c)), st)
           | Inl _ \<Rightarrow>
               (case kv_Put (CORSStore svc) (CORSKey (cors_Space c) (cors_ID c)) (Doc (cors_json c)) st of
                  (Some e, st') \<Rightarrow> (Inl (StoreError e), st')
                | (None, st') \<Rightarrow> (Inr c, st'))))"

definition UpdateCORS :: "env \<Rightarrow> ('st, 'h) service \<Rightarrow> cors \<Rightarrow> 'st \<Rightarrow> (svc_error, cors) res \<times> 'st" where
  "UpdateCORS E svc c0 st =
     (case validateCORS E c0 of
        Inl e \<Rightarrow> (Inl e, st)
      | Inr c \<Rightarrow>
          (case GetCORS svc (cors_Space c) (cors_ID c) st of
             Inl e \<Rightarrow> (Inl e, st)
           | Inr old \<Rightarrow>
               (case validateCORSUpdate c old of
                  Some e \<Rightarrow> (Inl e, st)
                | None \<Rightarrow>
                    (case kv_Put (CORSStore svc) (CORSKey (cors_Space c) (cors_ID c)) (Doc (cors_json c)) st of
                       (Some e, st') \<Rightarrow> (Inl (StoreError e), st')
                     | (None, st') \<Rightarrow> (Inr c, st')))))"

definition DeleteCORS :: "('st, 'h) service \<Rightarrow> string \<Rightarrow> string \<Rightarrow> 'st \<Rightarrow> svc_error option \<times> 'st" where
  "DeleteCORS svc sp i st =
     (case kv_Delete (CORSStore svc) (CORSKey sp i) st of
        (Some _, st') \<Rightarrow> (Some (ErrCORSNotFound i), st')
      | (None, st') \<Rightarrow> (None, st'))"

end
