(* ===== verification/PathConflict.thy ===== *)
theory PathConflict
  imports PathTree
begin

section \<open>Sets of routes that one tree can serve\<close>

text \<open>
  The configuration service (\<^verbatim>\<open>checkForPathConflict\<close> in \<^verbatim>\<open>libkv/subscription.go\<close>) and
  the caches fill a tree with one route after the other. This theory says when a list of
  routes can be served together and that the order in which they arrive does not matter.
  It also models \<^verbatim>\<open>isPathInConflict\<close>, the older test of two paths against each other,
  which only the tests still call.
\<close>

subsection \<open>The nodes of a tree\<close>

lemma add_segs_nodes:
  assumes "wf_node n" "ss \<noteq> []" "add_segs pick route v i n ss = (None, n')"
  shows "node_at n' p \<noteq> None \<longleftrightarrow> node_at n p \<noteq> None \<or> prefix p ss"
  using assms
proof (induction ss arbitrary: n i n' p)
  case Nil
  then show ?case by simp
next
  case (Cons s ss)
  let ?c = "next_node n s"
  note step = add_segs_step [OF Cons.prems(1), of pick route v i s ss]
  have m: "may_enter n s" using Cons.prems(3) step by (auto split: if_splits)
  obtain c where n': "n' = put_child n s c" and
    c: "node_at c q \<noteq> None \<longleftrightarrow> node_at ?c q \<noteq> None \<or> prefix q ss" for q
  proof (cases "ss = []")
    case True
    have "node_at (set_value ?c (Some v)) q \<noteq> None \<longleftrightarrow> node_at ?c q \<noteq> None \<or> prefix q ss" for q
      using True by (cases q) auto
    moreover have "n' = put_child n s (set_value ?c (Some v))"
      using True m step Cons.prems(3) by (auto split: if_splits)
    ultimately show ?thesis using that by blast
  next
    case False
    obtain c where "add_segs pick route v (Suc i) ?c ss = (None, c)" "n' = put_child n s c"
      using False m step Cons.prems(3) by (auto split: prod.splits)
    then show ?thesis using that Cons.IH [OF _ False] next_node_wf [OF Cons.prems(1)] by blast
  qed
  have "node_at ?c q \<noteq> None \<longleftrightarrow> node_at n (s # q) \<noteq> None \<or> q = []" for q
    using node_at_next [of q n s] by (cases "q = []") auto
  then show ?case unfolding n' using c by (cases p) auto
qed

lemma clash_prefix: "clash p ss \<Longrightarrow> prefix p q \<Longrightarrow> clash q ss"
proof (induction p ss arbitrary: q rule: clash.induct)
  case (1 a as b bs)
  then obtain zs where "q = a # zs" "prefix as zs" by (auto simp: prefix_def)
  then show ?case using 1 by (auto split: if_splits)
qed simp_all

lemma clash_sym: "clash p q \<Longrightarrow> clash q p"
  by (induction p q rule: clash.induct) (auto split: if_splits)

subsection \<open>Trees that serve a set of routes\<close>

text \<open>
  A tree serves \<open>R\<close> when exactly the routes of \<open>R\<close> have a value and every node lies on
  one of them: there are no nodes left over from routes that are gone.
\<close>

definition serves :: "'v node \<Rightarrow> string set \<Rightarrow> bool" where
  "serves n R \<longleftrightarrow> wf_tree n \<and> (\<forall>r \<in> R. abs_route r) \<and>
     (\<forall>r. abs_route r \<longrightarrow> (route_value n r \<noteq> None \<longleftrightarrow> r \<in> R)) \<and>
     (\<forall>p. node_at n p \<noteq> None \<longleftrightarrow> p = [] \<or> (\<exists>r \<in> R. r \<noteq> ''/'' \<and> prefix p (toSegments r)))"

text \<open>A route on its own, and two routes together.\<close>

definition route_ok :: "string \<Rightarrow> bool" where
  "route_ok r \<longleftrightarrow> abs_route r \<and> (r \<noteq> ''/'' \<longrightarrow> wild_last (toSegments r))"

definition compatible :: "string \<Rightarrow> string \<Rightarrow> bool" where
  "compatible q r \<longleftrightarrow> q \<noteq> r \<and> (q \<noteq> ''/'' \<and> r \<noteq> ''/'' \<longrightarrow> \<not> clash (toSegments q) (toSegments r))"

lemma compatible_sym: "compatible q r \<Longrightarrow> compatible r q"
  by (auto simp: compatible_def dest: clash_sym)

lemma compatible_irrefl [simp]: "\<not> compatible r r"
  by (simp add: compatible_def)

lemma serves_New: "serves (NewNode :: 'v node) {}"
proof -
  have "node_at (NewNode :: 'v node) p \<noteq> None \<longleftrightarrow> p = []" for p by (cases p) auto
  then show ?thesis by (simp add: serves_def)
qed

lemma serves_wf: "serves n R \<Longrightarrow> wf_tree n"
  by (simp add: serves_def)

lemma serves_clash_free:
  assumes "serves n R"
  shows "clash_free n ss \<longleftrightarrow> (\<forall>q \<in> R. q \<noteq> ''/'' \<longrightarrow> \<not> clash (toSegments q) ss)"
  using assms unfolding serves_def clash_free_def
  by (metis clash.simps(2) clash_prefix prefix_order.order_refl)

lemma serves_routable:
  assumes "serves n R" "abs_route r"
  shows "routable n r \<longleftrightarrow> route_ok r \<and> (\<forall>q \<in> R. compatible q r)"
proof -
  have "route_value n r = None \<longleftrightarrow> r \<notin> R" using assms by (auto simp: serves_def)
  then show ?thesis using assms(2) serves_clash_free [OF assms(1), of "toSegments r"]
    by (auto simp: routable_def route_ok_def compatible_def)
qed

lemma serves_AddRoute:
  assumes "serves n R" "abs_route r" "AddRoute pick n r v = (None, n')"
  shows "serves n' (insert r R)"
proof -
  have wf: "wf_tree n" using assms(1) by (rule serves_wf)
  note f = AddRoute_facts [OF wf assms(2,3)]
  have nodes: "node_at n' p \<noteq> None \<longleftrightarrow>
      node_at n p \<noteq> None \<or> (r \<noteq> ''/'' \<and> prefix p (toSegments r))" for p
  proof (cases "r = ''/''")
    case True
    then have "n' = set_value n (Some v)" using assms(3) by (auto simp: AddRoute_def split: if_splits)
    then show ?thesis using True by (cases p) auto
  next
    case False
    then have "add_segs pick r v 0 n (toSegments r) = (None, n')"
      using assms(3) by (simp add: AddRoute_def)
    then have "node_at n' p \<noteq> None \<longleftrightarrow> node_at n p \<noteq> None \<or> prefix p (toSegments r)"
      using wf by (intro add_segs_nodes toSegments_not_Nil [OF assms(2)]) (simp_all add: wf_tree_def)
    then show ?thesis using False by simp
  qed
  show ?thesis using assms(1,2) f nodes unfolding serves_def by auto
qed

text \<open>Adding routes one after the other; an error is ignored, as both callers do.\<close>

definition add_routes :: "(nat \<Rightarrow> nat) \<Rightarrow> 'v node \<Rightarrow> (string \<times> 'v) list \<Rightarrow> 'v node" where
  "add_routes pick n rvs = foldl (\<lambda>t (r, v). snd (AddRoute pick t r v)) n rvs"

definition admissible :: "string list \<Rightarrow> bool" where
  "admissible rs \<longleftrightarrow> distinct rs \<and> (\<forall>r \<in> set rs. route_ok r) \<and>
     (\<forall>q \<in> set rs. \<forall>r \<in> set rs. q \<noteq> r \<longrightarrow> compatible q r)"

lemma admissible_snoc:
  "admissible (rs @ [r]) \<longleftrightarrow> admissible rs \<and> route_ok r \<and> (\<forall>q \<in> set rs. compatible q r)"
  unfolding admissible_def by (auto dest: compatible_sym)

lemma add_routes_serves:
  assumes "admissible (map fst rvs)"
  shows "serves (add_routes pick NewNode rvs) (fst ` set rvs) \<and>
    (\<forall>r. abs_route r \<longrightarrow> route_value (add_routes pick NewNode rvs) r = map_of rvs r)"
  using assms
proof (induction rvs rule: rev_induct)
  case Nil
  then show ?case by (simp add: add_routes_def serves_New)
next
  case (snoc rv rvs)
  obtain r v where rv: "rv = (r, v)" by fastforce
  let ?n = "add_routes pick NewNode rvs"
  have ad: "admissible (map fst rvs)" "route_ok r" "\<forall>q \<in> fst ` set rvs. compatible q r"
    using snoc.prems rv by (auto simp: admissible_snoc)
  have IH: "serves ?n (fst ` set rvs)" "\<forall>r. abs_route r \<longrightarrow> route_value ?n r = map_of rvs r"
    using snoc.IH ad(1) by auto
  have r: "abs_route r" using ad(2) by (simp add: route_ok_def)
  obtain e n' where a: "AddRoute pick ?n r v = (e, n')" by fastforce
  note f = AddRoute_facts [OF serves_wf [OF IH(1)] r a]
  have e: "e = None" using f serves_routable [OF IH(1) r] ad by blast
  have n': "add_routes pick NewNode (rvs @ [rv]) = n'" using a rv by (simp add: add_routes_def)
  have "map_of rvs r = None" using ad(3) by (auto simp: compatible_def map_of_eq_None_iff)
  then have "map_of (rvs @ [rv]) = (map_of rvs)(r \<mapsto> v)"
    using rv by (auto simp: map_add_def fun_eq_iff split: option.split)
  then show ?case unfolding n'
    using serves_AddRoute [OF IH(1) r] a e f IH(2) rv by auto
qed

text \<open>Routes that are pairwise free of conflicts can be added in any order: every one is
  accepted, and the table of the tree is exactly the list, whatever the order of arrival and
  of map iteration.\<close>

theorem routes_in_any_order:
  assumes "admissible (map fst rvs)" and "set rvs' = set rvs" and "distinct (map fst rvs')"
    and "abs_route r"
  shows "route_value (add_routes pick NewNode rvs') r = map_of rvs r \<and>
    route_value (add_routes pick' NewNode rvs) r = map_of rvs r"
proof -
  have ad: "admissible (map fst rvs')"
    using assms(1,3) arg_cong [OF assms(2), of "image fst"] by (simp add: admissible_def)
  have "map_of rvs' = map_of rvs"
    using assms by (simp add: admissible_def map_of_inject_set)
  then show ?thesis
    using add_routes_serves [OF ad, of pick] add_routes_serves [OF assms(1), of pick'] assms(4) by simp
qed

theorem routes_in_any_order_witness:
  "route_value (add_routes (\<lambda>_. 0) NewNode [(''/users'', 1), (''/users/:id'', 2), (''/'', 3 :: nat)])
     ''/users/:id'' = Some 2"
proof -
  let ?l = "[(''/'', 3), (''/users/:id'', 2), (''/users'', 1 :: nat)]"
  have "admissible (map fst ?l)"
    by (simp add: admissible_def route_ok_def compatible_def abs_route_def toSegments_def
        is_wild_def is_static_def is_param_def)
  then show ?thesis
    using routes_in_any_order [of ?l "[(''/users'', 1), (''/users/:id'', 2), (''/'', 3)]"
        "''/users/:id''" "\<lambda>_. 0"]
    by (auto simp: abs_route_def)
qed

subsection \<open>isPathInConflict (libkv/subscription.go)\<close>

fun conflict_loop :: "string list \<Rightarrow> string list \<Rightarrow> bool" where
  "conflict_loop existing [] = True"
| "conflict_loop [] (n # ns) = False"
| "conflict_loop (e # es) (n # ns) =
     (if \<not> is_param e \<and> \<not> is_wild e \<and> \<not> is_param n \<and> \<not> is_wild n
      then (if e = n \<and> es = [] then False else conflict_loop es ns)
      else if is_wild e then True
      else if is_param e \<and> is_param n \<and> e \<noteq> n then True
      else if is_param e \<and> \<not> is_param n then True
      else conflict_loop es ns)"

definition isPathInConflict :: "string \<Rightarrow> string \<Rightarrow> bool" where
  "isPathInConflict existing new = conflict_loop (toSegments existing) (toSegments new)"

text \<open>
  The function does not decide whether a tree can serve both paths: it reports a conflict
  between two different static paths and none between \<^verbatim>\<open>/a\<close> and \<^verbatim>\<open>/:x/y\<close>, which clash.
\<close>

lemma isPathInConflict_not_compatible:
  "isPathInConflict ''/foo'' ''/bar'' \<and> compatible ''/foo'' ''/bar'' \<and>
   \<not> isPathInConflict ''/a'' ''/:x/y'' \<and> \<not> compatible ''/a'' ''/:x/y''"
  by (simp add: isPathInConflict_def compatible_def toSegments_def is_static_def is_param_def is_wild_def)

end
