(* ===== verification/Caches.thy ===== *)
theory Caches
  imports Services PathConflict
begin

section \<open>The caches of the router (internal/cache)\<close>

text \<open>
  The router works on caches of the configuration that follow the database: a
  \<^verbatim>\<open>Watcher\<close> turns the batches of key-value pairs that a watch on a directory delivers into
  events \<^verbatim>\<open>Modified\<close> and \<^verbatim>\<open>Deleted\<close>, which four reactors apply to their caches, and
  \<^verbatim>\<open>Target\<close> answers the router's lookups from them. The locks make each event and each
  lookup one step; a panic in a reactor (in its goroutine, which nothing recovers) ends the
  process and is the outcome \<open>Crash\<close>. Log entries are left out.
\<close>

datatype 'a outcome = Done 'a | Crash

type_synonym fkey = "string \<times> string"

subsection \<open>Function and event type caches (function_cache.go, eventtype_cache.go)\<close>

text \<open>The key of an entry is the first two segments of the key of the event.\<close>

definition two_segments :: "string \<Rightarrow> fkey option" where
  "two_segments k = (case split_on (CHR ''/'') k of a # b # _ \<Rightarrow> Some (a, b) | _ \<Rightarrow> None)"

type_synonym function_cache = "fkey \<rightharpoonup> func"

definition newFunctionCache :: function_cache where
  "newFunctionCache = Map.empty"

definition functionCache_Modified :: "env \<Rightarrow> string \<Rightarrow> blob \<Rightarrow> function_cache \<Rightarrow> function_cache outcome" where
  "functionCache_Modified E k v c =
     (case decode (read_func E) v of
        Inl Panicked \<Rightarrow> Crash
      | Inl _ \<Rightarrow> Done c
      | Inr f \<Rightarrow> (case two_segments k of None \<Rightarrow> Crash | Some key \<Rightarrow> Done (c(key \<mapsto> f))))"

definition functionCache_Deleted :: "string \<Rightarrow> blob \<Rightarrow> function_cache \<Rightarrow> function_cache outcome" where
  "functionCache_Deleted k v c =
     (case two_segments k of None \<Rightarrow> Crash | Some key \<Rightarrow> Done (c(key := None)))"

type_synonym event_type_cache = "fkey \<rightharpoonup> event_type"

definition newEventTypeCache :: event_type_cache where
  "newEventTypeCache = Map.empty"

definition eventTypeCache_Modified :: "string \<Rightarrow> blob \<Rightarrow> event_type_cache \<Rightarrow> event_type_cache outcome" where
  "eventTypeCache_Modified k v c =
     (case decode read_event_type v of
        Inl _ \<Rightarrow> Done c
      | Inr t \<Rightarrow> (case two_segments k of None \<Rightarrow> Crash | Some key \<Rightarrow> Done (c(key \<mapsto> t))))"

definition eventTypeCache_Deleted :: "string \<Rightarrow> blob \<Rightarrow> event_type_cache \<Rightarrow> event_type_cache outcome" where
  "eventTypeCache_Deleted k v c =
     (case two_segments k of None \<Rightarrow> Crash | Some key \<Rightarrow> Done (c(key := None)))"

subsection \<open>Subscription cache (subscription_cache.go)\<close>

record subscription_cache =
  sc_async :: "string \<rightharpoonup> (string \<rightharpoonup> (string \<rightharpoonup> fkey list))"
  sc_sync :: "string \<rightharpoonup> (string \<rightharpoonup> fkey node)"

definition newSubscriptionCache :: subscription_cache where
  "newSubscriptionCache = \<lparr>sc_async = Map.empty, sc_sync = Map.empty\<rparr>"

text \<open>Reading a nested map: a missing (nil) inner map has no entries.\<close>

definition inner :: "('a \<rightharpoonup> ('b \<rightharpoonup> 'c)) \<Rightarrow> 'a \<Rightarrow> ('b \<rightharpoonup> 'c)" where
  "inner m k = (case m k of None \<Rightarrow> Map.empty | Some i \<Rightarrow> i)"

definition ensureSyncMethod :: "string \<Rightarrow> subscription_cache \<Rightarrow> subscription_cache" where
  "ensureSyncMethod me c =
     (if sc_sync c me = None then c\<lparr>sc_sync := (sc_sync c)(me \<mapsto> Map.empty)\<rparr> else c)"

definition ensureAsyncMethodPath :: "string \<Rightarrow> string \<Rightarrow> subscription_cache \<Rightarrow> subscription_cache" where
  "ensureAsyncMethodPath me path c =
     (let c1 = (if sc_async c me = None then c\<lparr>sc_async := (sc_async c)(me \<mapsto> Map.empty)\<rparr> else c) in
      if inner (sc_async c1) me path = None
      then c1\<lparr>sc_async := (sc_async c1)(me \<mapsto> (inner (sc_async c1) me)(path \<mapsto> Map.empty))\<rparr> else c1)"

definition set_sync :: "string \<Rightarrow> string \<Rightarrow> fkey node \<Rightarrow> subscription_cache \<Rightarrow> subscription_cache" where
  "set_sync me et n c = c\<lparr>sc_sync := (sc_sync c)(me \<mapsto> (inner (sc_sync c) me)(et \<mapsto> n))\<rparr>"

definition set_async :: "string \<Rightarrow> string \<Rightarrow> string \<Rightarrow> fkey list option \<Rightarrow> subscription_cache \<Rightarrow> subscription_cache" where
  "set_async me path et ids c =
     c\<lparr>sc_async := (sc_async c)(me \<mapsto> (inner (sc_async c) me)(path \<mapsto>
        (inner (inner (sc_async c) me) path)(et := ids)))\<rparr>"

text \<open>An error of \<^verbatim>\<open>AddRoute\<close> is only logged; the root may have been changed all the same.\<close>

definition add_subscription :: "(nat \<Rightarrow> nat) \<Rightarrow> subscription \<Rightarrow> subscription_cache \<Rightarrow> subscription_cache" where
  "add_subscription pick s c0 =
     (let key = (sub_Space s, sub_FunctionID s) in
      if sub_Type s = TypeSync then
        (let c = ensureSyncMethod (sub_Method s) c0;
             root = (case inner (sc_sync c) (sub_Method s) (sub_EventType s) of Some n \<Rightarrow> n | None \<Rightarrow> NewNode) in
         set_sync (sub_Method s) (sub_EventType s) (snd (AddRoute pick root (sub_Path s) key)) c)
      else
        (let c = ensureAsyncMethodPath (sub_Method s) (sub_Path s) c0;
             ids = (case inner (inner (sc_async c) (sub_Method s)) (sub_Path s) (sub_EventType s) of
                      Some ids \<Rightarrow> ids @ [key] | None \<Rightarrow> [key]) in
         set_async (sub_Method s) (sub_Path s) (sub_EventType s) (Some ids) c))"

definition subscriptionCache_Modified ::
  "(nat \<Rightarrow> nat) \<Rightarrow> string \<Rightarrow> blob \<Rightarrow> subscription_cache \<Rightarrow> subscription_cache outcome" where
  "subscriptionCache_Modified pick k v c =
     (case decode read_subscription v of Inl _ \<Rightarrow> Done c | Inr s \<Rightarrow> Done (add_subscription pick s c))"

definition sub_deleteEndpoint :: "subscription \<Rightarrow> subscription_cache \<Rightarrow> subscription_cache outcome" where
  "sub_deleteEndpoint s c =
     (case inner (sc_sync c) (sub_Method s) (sub_EventType s) of
        None \<Rightarrow> Done c
      | Some root \<Rightarrow>
          (case DeleteRoute root (sub_Path s) of
             DeleteOk n \<Rightarrow> Done (set_sync (sub_Method s) (sub_EventType s) n c)
           | DeleteError \<Rightarrow> Done c
           | DeletePanic \<Rightarrow> Crash))"

definition deleteSubscription :: "subscription \<Rightarrow> subscription_cache \<Rightarrow> subscription_cache" where
  "deleteSubscription s c =
     (case inner (inner (sc_async c) (sub_Method s)) (sub_Path s) (sub_EventType s) of
        None \<Rightarrow> c
      | Some ids0 \<Rightarrow>
          (let ids = remove1 (sub_Space s, sub_FunctionID s) ids0 in
           set_async (sub_Method s) (sub_Path s) (sub_EventType s) (if length ids = 0 then None else Some ids) c))"

definition subscriptionCache_Deleted :: "string \<Rightarrow> blob \<Rightarrow> subscription_cache \<Rightarrow> subscription_cache outcome" where
  "subscriptionCache_Deleted k v c =
     (case decode read_subscription v of
        Inl _ \<Rightarrow> Done c
      | Inr s \<Rightarrow> if sub_Type s = TypeSync then sub_deleteEndpoint s c else Done (deleteSubscription s c))"

subsection \<open>CORS cache (cors_cache.go)\<close>

type_synonym cors_cache = "string \<rightharpoonup> cors node"

definition newCORSCache :: cors_cache where
  "newCORSCache = Map.empty"

definition corsCache_Modified :: "(nat \<Rightarrow> nat) \<Rightarrow> string \<Rightarrow> blob \<Rightarrow> cors_cache \<Rightarrow> cors_cache outcome" where
  "corsCache_Modified pick k v c =
     (case decode read_cors v of
        Inl _ \<Rightarrow> Done c
      | Inr config \<Rightarrow>
          (let root = (case c (cors_Method config) of Some n \<Rightarrow> n | None \<Rightarrow> NewNode) in
           Done (c(cors_Method config \<mapsto> snd (AddRoute pick root (cors_Path config) config)))))"

definition cors_deleteEndpoint :: "cors \<Rightarrow> cors_cache \<Rightarrow> cors_cache outcome" where
  "cors_deleteEndpoint config c =
     (case c (cors_Method config) of
        None \<Rightarrow> Done c
      | Some root \<Rightarrow>
          (case DeleteRoute root (cors_Path config) of
             DeleteOk n \<Rightarrow> Done (c(cors_Method config \<mapsto> n))
           | DeleteError \<Rightarrow> Done c
           | DeletePanic \<Rightarrow> Crash))"

definition corsCache_Deleted :: "string \<Rightarrow> blob \<Rightarrow> cors_cache \<Rightarrow> cors_cache outcome" where
  "corsCache_Deleted k v c =
     (case decode read_cors v of Inl _ \<Rightarrow> Done c | Inr config \<Rightarrow> cors_deleteEndpoint config c)"

subsection \<open>Target (target.go, router/targeter.go)\<close>

record target =
  eventTypeCache :: event_type_cache
  functionCache :: function_cache
  subscriptionCache :: subscription_cache
  corsCache :: cors_cache

record sync_subscriber =
  ss_Space :: string
  ss_FunctionID :: string
  ss_Params :: "params option"

record async_subscriber =
  as_Space :: string
  as_FunctionID :: string

definition target_EventType :: "target \<Rightarrow> string \<Rightarrow> string \<Rightarrow> event_type option" where
  "target_EventType tc sp n = eventTypeCache tc (sp, n)"

definition target_Function :: "target \<Rightarrow> string \<Rightarrow> string \<Rightarrow> func option" where
  "target_Function tc sp i = functionCache tc (sp, i)"

definition SyncSubscriber :: "(nat \<Rightarrow> nat) \<Rightarrow> subscription_cache \<Rightarrow> string \<Rightarrow> string \<Rightarrow> string \<Rightarrow> sync_subscriber option" where
  "SyncSubscriber pick c me path et =
     (case inner (sc_sync c) me et of
        None \<Rightarrow> None
      | Some root \<Rightarrow>
          (case Resolve pick root path of
             (None, _) \<Rightarrow> None
           | (Some (sp, i), ps) \<Rightarrow> Some \<lparr>ss_Space = sp, ss_FunctionID = i, ss_Params = ps\<rparr>))"

definition AsyncSubscribers :: "subscription_cache \<Rightarrow> string \<Rightarrow> string \<Rightarrow> string \<Rightarrow> async_subscriber list" where
  "AsyncSubscribers c me path et =
     (case inner (inner (sc_async c) me) path et of
        None \<Rightarrow> []
      | Some ids \<Rightarrow> map (\<lambda>(sp, i). \<lparr>as_Space = sp, as_FunctionID = i\<rparr>) ids)"

definition target_CORS :: "(nat \<Rightarrow> nat) \<Rightarrow> cors_cache \<Rightarrow> string \<Rightarrow> string \<Rightarrow> cors option" where
  "target_CORS pick c me path =
     (case c me of
        None \<Rightarrow> None
      | Some root \<Rightarrow> (case Resolve pick root path of (None, _) \<Rightarrow> None | (Some config, _) \<Rightarrow> Some config))"

subsection \<open>Watcher (watcher.go)\<close>

definition NewWatcher :: "string \<Rightarrow> string outcome" where
  "NewWatcher path =
     (if path = ''/'' then Crash
      else if \<not> has_prefix path ''/'' then Crash
      else Done (if has_suffix path ''/'' then path else path @ ''/''))"

text \<open>The four directories that \<^verbatim>\<open>NewTarget\<close> watches.\<close>

definition NewTarget_paths :: "string \<Rightarrow> string outcome list" where
  "NewTarget_paths path0 =
     (let path = (if has_suffix path0 ''/'' then path0 else path0 @ ''/'') in
      map NewWatcher [path @ ''eventtypes'', path @ ''functions'', path @ ''subscriptions'', path @ ''cors''])"

text \<open>A pair of a watch; no value means that the key was deleted.\<close>

record watch_pair =
  wp_Key :: string
  wp_Value :: "blob option"

datatype watch_event = ModifiedNode string blob | DeletedNode string blob

text \<open>One pair: the events sent for it and the local cache of last values.\<close>

definition process_pair :: "string \<Rightarrow> watch_pair \<Rightarrow> (string \<rightharpoonup> blob) \<Rightarrow> watch_event list \<times> (string \<rightharpoonup> blob)" where
  "process_pair path p cache =
     (if wp_Key p = path then ([], cache)
      else
        (case wp_Value p of
           Some v \<Rightarrow> ([ModifiedNode (wp_Key p) v], cache(wp_Key p \<mapsto> v))
         | None \<Rightarrow>
             (case cache (wp_Key p) of
                Some old \<Rightarrow> ([DeletedNode (wp_Key p) old], cache(wp_Key p := None))
              | None \<Rightarrow> ([], cache))))"

fun process_batch :: "string \<Rightarrow> watch_pair list \<Rightarrow> (string \<rightharpoonup> blob) \<Rightarrow> watch_event list \<times> (string \<rightharpoonup> blob)" where
  "process_batch path [] cache = ([], cache)"
| "process_batch path (p # ps) cache =
     (case process_pair path p cache of (es, cache1) \<Rightarrow>
      case process_batch path ps cache1 of (es', cache2) \<Rightarrow> (es @ es', cache2))"

text \<open>
  \<^verbatim>\<open>processEvents\<close>: the batches that are received until the channel closes or the shutdown
  signal is seen; the result says whether to shut down.
\<close>

datatype session_end = ChannelClosed | ShutdownSignal

fun process_batches :: "string \<Rightarrow> watch_pair list list \<Rightarrow> (string \<rightharpoonup> blob) \<Rightarrow> watch_event list" where
  "process_batches path [] cache = []"
| "process_batches path (b # bs) cache =
     (case process_batch path b cache of (es, cache1) \<Rightarrow> es @ process_batches path bs cache1)"

definition processEvents :: "string \<Rightarrow> watch_pair list list \<Rightarrow> session_end \<Rightarrow> watch_event list \<times> bool" where
  "processEvents path batches end = (process_batches path batches Map.empty, end = ShutdownSignal)"

text \<open>
  \<^verbatim>\<open>watchRoot\<close>: one iteration of its loop is given by what the store answers; \<open>watch\<close> is the
  error of \<^verbatim>\<open>WatchTree\<close> or the session that follows.
\<close>

record attempt =
  at_exists :: "(string, bool) res"
  at_put :: "string option"
  at_watch :: "(string, watch_pair list list \<times> session_end) res"

fun watchRoot :: "string \<Rightarrow> attempt list \<Rightarrow> watch_event list" where
  "watchRoot path [] = []"
| "watchRoot path (a # as) =
     (case at_exists a of
        Inl _ \<Rightarrow> watchRoot path as
      | Inr ex \<Rightarrow>
          (if \<not> ex \<and> at_put a \<noteq> None then watchRoot path as
           else
             (case at_watch a of
                Inl _ \<Rightarrow> watchRoot path as
              | Inr (batches, end) \<Rightarrow>
                  (case processEvents path batches end of
                     (es, stop) \<Rightarrow> if stop then es else es @ watchRoot path as))))"

text \<open>\<^verbatim>\<open>React\<close>: the events, in order, applied by a reactor to its state.\<close>

fun react :: "string \<Rightarrow> (string \<Rightarrow> blob \<Rightarrow> 'c \<Rightarrow> 'c outcome) \<Rightarrow> (string \<Rightarrow> blob \<Rightarrow> 'c \<Rightarrow> 'c outcome) \<Rightarrow>
    watch_event list \<Rightarrow> 'c \<Rightarrow> 'c outcome" where
  "react path modified deleted [] c = Done c"
| "react path modified deleted (e # es) c =
     (case (case e of
              ModifiedNode k v \<Rightarrow> modified (trim_prefix k path) v c
            | DeletedNode k v \<Rightarrow> deleted (trim_prefix k path) v c) of
        Crash \<Rightarrow> Crash
      | Done c' \<Rightarrow> react path modified deleted es c')"

subsection \<open>NewTarget and Shutdown (target.go)\<close>

text \<open>
  A watcher that is started on an empty cache: \<open>answers\<close> is what the store has answered to the
  watcher of a directory so far. Without a watcher there was a panic before.
\<close>

definition start_watcher :: "(string \<Rightarrow> attempt list) \<Rightarrow> (string \<Rightarrow> blob \<Rightarrow> 'c \<Rightarrow> 'c outcome) \<Rightarrow>
    (string \<Rightarrow> blob \<Rightarrow> 'c \<Rightarrow> 'c outcome) \<Rightarrow> 'c \<Rightarrow> string outcome \<Rightarrow> 'c outcome" where
  "start_watcher answers modified deleted c w =
     (case w of Crash \<Rightarrow> Crash | Done path \<Rightarrow> react path modified deleted (watchRoot path (answers path)) c)"

text \<open>The four caches once their watchers have handled these answers; each keeps to its own directory.\<close>

definition NewTarget :: "(nat \<Rightarrow> nat) \<Rightarrow> env \<Rightarrow> string \<Rightarrow> (string \<Rightarrow> attempt list) \<Rightarrow> target outcome" where
  "NewTarget pick E path answers =
     (case NewTarget_paths path of
        [w1, w2, w3, w4] \<Rightarrow>
          (case (start_watcher answers eventTypeCache_Modified eventTypeCache_Deleted newEventTypeCache w1,
                 start_watcher answers (functionCache_Modified E) functionCache_Deleted newFunctionCache w2,
                 start_watcher answers (subscriptionCache_Modified pick) subscriptionCache_Deleted newSubscriptionCache w3,
                 start_watcher answers (corsCache_Modified pick) corsCache_Deleted newCORSCache w4) of
             (Done ec, Done fc, Done sc, Done cc) \<Rightarrow>
               Done \<lparr>eventTypeCache = ec, functionCache = fc, subscriptionCache = sc, corsCache = cc\<rparr>
           | _ \<Rightarrow> Crash)
      | _ \<Rightarrow> Crash)"

text \<open>\<^verbatim>\<open>Shutdown\<close> closes the channel of all watchers; \<open>closed\<close> says whether it was closed before, which panics.\<close>

definition Target_Shutdown :: "bool \<Rightarrow> bool outcome" where
  "Target_Shutdown closed = (if closed then Crash else Done True)"

end
