(* ===== verification/CacheFacts.thy ===== *)
theory CacheFacts
  imports Caches
begin

section \<open>What the caches hold\<close>

text \<open>
  The watcher reports exactly the changes it sees; the function and event type caches then
  mirror the watched directory; the trees of the subscription cache route to the sync
  subscriptions. The ways in which a cache can leave the database are stated as well:
  deletions between two sessions of a watcher, updates of async subscriptions and of CORS
  configurations, nodes that a deleted route leaves in a tree, and event type names with a
  slash.
\<close>

subsection \<open>The watcher reports what it sees\<close>

text \<open>What a list of events says about the directory, and what a list of pairs does.\<close>

fun replay :: "watch_event list \<Rightarrow> (string \<rightharpoonup> blob) \<Rightarrow> (string \<rightharpoonup> blob)" where
  "replay [] m = m"
| "replay (ModifiedNode k v # es) m = replay es (m(k \<mapsto> v))"
| "replay (DeletedNode k v # es) m = replay es (m(k := None))"

fun apply_pairs :: "string \<Rightarrow> watch_pair list \<Rightarrow> (string \<rightharpoonup> blob) \<Rightarrow> (string \<rightharpoonup> blob)" where
  "apply_pairs path [] m = m"
| "apply_pairs path (p # ps) m =
     apply_pairs path ps (if wp_Key p = path then m else m(wp_Key p := wp_Value p))"

text \<open>Every deletion carries the last value.\<close>

fun carries_last :: "watch_event list \<Rightarrow> (string \<rightharpoonup> blob) \<Rightarrow> bool" where
  "carries_last [] m = True"
| "carries_last (ModifiedNode k v # es) m = carries_last es (m(k \<mapsto> v))"
| "carries_last (DeletedNode k v # es) m = (m k = Some v \<and> carries_last es (m(k := None)))"

lemma replay_append: "replay (es @ es') m = replay es' (replay es m)"
proof (induction es arbitrary: m)
  case (Cons e es)
  then show ?case by (cases e) (simp_all del: fun_upd_apply)
qed simp

lemma carries_last_append: "carries_last (es @ es') m \<longleftrightarrow> carries_last es m \<and> carries_last es' (replay es m)"
proof (induction es arbitrary: m)
  case (Cons e es)
  then show ?case by (cases e) (simp_all del: fun_upd_apply)
qed simp

lemma apply_pairs_append: "apply_pairs path (ps @ qs) m = apply_pairs path qs (apply_pairs path ps m)"
  by (induction ps arbitrary: m) (simp_all del: fun_upd_apply)

lemma process_pair_replay:
  "process_pair path p m = (es, m') \<Longrightarrow>
   replay es m = m' \<and> apply_pairs path [p] m = m' \<and> carries_last es m"
  by (auto simp: process_pair_def split: if_splits option.splits)

lemma process_batch_replay:
  "process_batch path ps m = (es, m') \<Longrightarrow>
   replay es m = m' \<and> apply_pairs path ps m = m' \<and> carries_last es m"
proof (induction path ps m arbitrary: es m' rule: process_batch.induct)
  case (2 path p ps m)
  obtain es1 m1 where 1: "process_pair path p m = (es1, m1)" by fastforce
  obtain es2 m2 where "process_batch path ps m1 = (es2, m2)" by fastforce
  then show ?case using 2 1 process_pair_replay [OF 1]
    by (auto simp: replay_append carries_last_append)
qed simp

lemma process_batches_replay:
  "replay (process_batches path bs m) m = apply_pairs path (concat bs) m \<and>
   carries_last (process_batches path bs m) m"
proof (induction path bs m rule: process_batches.induct)
  case (2 path b bs m)
  obtain es m1 where 1: "process_batch path b m = (es, m1)" by fastforce
  then show ?case using 2 process_batch_replay [OF 1]
    by (auto simp: replay_append carries_last_append apply_pairs_append)
qed simp

subsection \<open>What several sessions leave\<close>

text \<open>
  What a listener knows after a session that delivered the pairs \<open>ps\<close>: a key that was delivered with
  a value in this session has what the session's pairs say; of any other key the session said
  nothing, so the listener still knows what it knew before. \<open>told\<close> folds this over the attempts of
  \<^verbatim>\<open>watchRoot\<close> that reach a session, up to the one that the shutdown ends.
\<close>

definition told_session :: "string \<Rightarrow> watch_pair list \<Rightarrow> (string \<rightharpoonup> blob) \<Rightarrow> (string \<rightharpoonup> blob)" where
  "told_session path ps known k =
     (if k \<noteq> path \<and> (\<exists>p \<in> set ps. wp_Key p = k \<and> wp_Value p \<noteq> None) then apply_pairs path ps Map.empty k
      else known k)"

definition watch_session :: "attempt \<Rightarrow> (watch_pair list list \<times> session_end) option" where
  "watch_session a =
     (if at_exists a = Inr True \<or> at_exists a = Inr False \<and> at_put a = None
      then (case at_watch a of Inl _ \<Rightarrow> None | Inr s \<Rightarrow> Some s) else None)"

fun told :: "string \<Rightarrow> attempt list \<Rightarrow> (string \<rightharpoonup> blob) \<Rightarrow> (string \<rightharpoonup> blob)" where
  "told path [] known = known"
| "told path (a # as) known =
     (case watch_session a of
        None \<Rightarrow> told path as known
      | Some (batches, ShutdownSignal) \<Rightarrow> told_session path (concat batches) known
      | Some (batches, ChannelClosed) \<Rightarrow> told path as (told_session path (concat batches) known))"

fun event_key :: "watch_event \<Rightarrow> string" where
  "event_key (ModifiedNode k v) = k"
| "event_key (DeletedNode k v) = k"

lemma replay_local: "replay es m k = (if k \<in> event_key ` set es then replay es m' k else m k)"
proof (induction es arbitrary: m m')
  case (Cons e es)
  obtain k0 w where e: "\<And>m. replay (e # es) m = replay es (m(k0 := w))" "event_key e = k0"
  proof (cases e)
    case (ModifiedNode k0 v)
    then show ?thesis using that [of k0 "Some v"] by simp
  next
    case (DeletedNode k0 v)
    then show ?thesis using that [of k0 None] by simp
  qed
  show ?case
  proof (cases "k \<in> event_key ` set es")
    case True
    then show ?thesis using Cons.IH [of "m(k0 := w)" "m'(k0 := w)"] unfolding e(1) by (simp del: fun_upd_apply)
  next
    case False
    then have "replay es m1 k = m1 k" for m1 using Cons.IH [of m1 m1] by (simp del: fun_upd_apply)
    then show ?thesis using e(2) False unfolding e(1) by (cases "k = k0") simp_all
  qed
qed simp

lemma process_batch_append:
  "process_batch path (ps @ qs) c =
     (case process_batch path ps c of (es, c1) \<Rightarrow>
      case process_batch path qs c1 of (es', c2) \<Rightarrow> (es @ es', c2))"
proof (induction ps arbitrary: c)
  case (Cons p ps)
  obtain es c1 where "process_pair path p c = (es, c1)" by fastforce
  then show ?case using Cons [of c1] by (simp split: prod.splits)
qed (simp split: prod.splits)

lemma process_batches_flat: "process_batches path bs c = fst (process_batch path (concat bs) c)"
proof (induction path bs c rule: process_batches.induct)
  case (2 path b bs c)
  obtain es c1 where "process_batch path b c = (es, c1)" by fastforce
  then show ?case using 2 by (simp add: process_batch_append split: prod.splits)
qed simp

lemma event_keys:
  "k \<in> event_key ` set (fst (process_batch path ps c)) \<longleftrightarrow>
   k \<noteq> path \<and> (\<exists>p \<in> set ps. wp_Key p = k \<and> (wp_Value p \<noteq> None \<or> c k \<noteq> None))"
proof (induction ps arbitrary: c)
  case (Cons p ps)
  obtain es c1 where 1: "process_pair path p c = (es, c1)" by fastforce
  have "k \<in> event_key ` set es \<longleftrightarrow> k \<noteq> path \<and> wp_Key p = k \<and> (wp_Value p \<noteq> None \<or> c k \<noteq> None)"
    and "c1 k \<noteq> None \<longrightarrow> c k \<noteq> None \<or> k \<noteq> path \<and> wp_Key p = k \<and> wp_Value p \<noteq> None"
    and "c k \<noteq> None \<longrightarrow> c1 k \<noteq> None \<or> k \<noteq> path \<and> wp_Key p = k"
    using 1 by (auto simp: process_pair_def split: if_splits option.splits)
  then show ?case using Cons [of c1] by (auto simp: 1 image_Un split: prod.splits)
qed simp

lemma session_told: "replay (process_batches path bs Map.empty) m = told_session path (concat bs) m"
proof
  fix k
  show "replay (process_batches path bs Map.empty) m k = told_session path (concat bs) m k"
    using replay_local [of "process_batches path bs Map.empty" m k Map.empty]
      process_batches_replay [of path bs Map.empty] event_keys [of k path "concat bs" Map.empty]
    unfolding told_session_def process_batches_flat [symmetric] by presburger
qed

lemma watchRoot_session:
  "watchRoot path (a # as) =
     (case watch_session a of
        None \<Rightarrow> watchRoot path as
      | Some (bs, stop) \<Rightarrow> process_batches path bs Map.empty @ (if stop = ShutdownSignal then [] else watchRoot path as))"
  by (cases "at_exists a"; cases "at_watch a"; auto simp: watch_session_def processEvents_def)

lemma watchRoot_told: "replay (watchRoot path as) m = told path as m"
proof (induction as arbitrary: m)
  case (Cons a as)
  show ?case
  proof (cases "watch_session a")
    case None
    then show ?thesis using Cons by (simp add: watchRoot_session del: watchRoot.simps)
  next
    case (Some s)
    obtain bs e where s: "s = (bs, e)" by fastforce
    show ?thesis
      using Cons Some s by (cases e) (simp_all add: watchRoot_session replay_append session_told del: watchRoot.simps)
  qed
qed simp

lemma told_first:
  "watch_session a = Some (bs, stop) \<Longrightarrow> told path [a] Map.empty = apply_pairs path (concat bs) Map.empty"
  using session_told [of path bs Map.empty] process_batches_replay [of path bs Map.empty] by (cases stop) simp_all

subsection \<open>Caches that are maps\<close>

text \<open>The interface of a reactor whose cache is a map from the two segments of a key to entities.\<close>

locale map_reactor =
  fixes modified :: "string \<Rightarrow> blob \<Rightarrow> (fkey \<rightharpoonup> 'e) \<Rightarrow> (fkey \<rightharpoonup> 'e) outcome"
    and deleted :: "string \<Rightarrow> blob \<Rightarrow> (fkey \<rightharpoonup> 'e) \<Rightarrow> (fkey \<rightharpoonup> 'e) outcome"
    and dec :: "blob \<Rightarrow> (svc_error, 'e) res"
  assumes modified_ok: "dec v = Inr x \<Longrightarrow> two_segments k = Some key \<Longrightarrow> modified k v c = Done (c(key \<mapsto> x))"
    and deleted_ok: "two_segments k = Some key \<Longrightarrow> deleted k v c = Done (c(key := None))"
begin

definition mirrors :: "string \<Rightarrow> (fkey \<rightharpoonup> 'e) \<Rightarrow> (string \<rightharpoonup> blob) \<Rightarrow> bool" where
  "mirrors path c m \<longleftrightarrow> (\<forall>sp i. CHR ''/'' \<notin> set sp \<longrightarrow> CHR ''/'' \<notin> set i \<longrightarrow>
     c (sp, i) = (case m (path @ sp @ ''/'' @ i) of
       None \<Rightarrow> None | Some v \<Rightarrow> (case dec v of Inl _ \<Rightarrow> None | Inr x \<Rightarrow> Some x)))"

definition good_event :: "string \<Rightarrow> watch_event \<Rightarrow> bool" where
  "good_event path e \<longleftrightarrow> (\<exists>sp i. CHR ''/'' \<notin> set sp \<and> CHR ''/'' \<notin> set i \<and>
     (case e of ModifiedNode k v \<Rightarrow> k = path @ sp @ ''/'' @ i \<and> \<not> isl (dec v)
      | DeletedNode k v \<Rightarrow> k = path @ sp @ ''/'' @ i))"

lemma two_segments_key: "CHR ''/'' \<notin> set sp \<Longrightarrow> CHR ''/'' \<notin> set i \<Longrightarrow> two_segments (sp @ ''/'' @ i) = Some (sp, i)"
  by (simp add: two_segments_def split_on_append split_on_no_sep_id)

lemma mirrors_upd:
  assumes "mirrors path c m" and "CHR ''/'' \<notin> set sp" "CHR ''/'' \<notin> set i"
    and "y = (case w of None \<Rightarrow> None | Some v \<Rightarrow> (case dec v of Inl _ \<Rightarrow> None | Inr x \<Rightarrow> Some x))"
  shows "mirrors path (c((sp, i) := y)) (m(path @ sp @ ''/'' @ i := w))"
  unfolding mirrors_def
proof (intro allI impI)
  fix sp' i' :: string
  assume n: "CHR ''/'' \<notin> set sp'" "CHR ''/'' \<notin> set i'"
  have "path @ sp' @ ''/'' @ i' = path @ sp @ ''/'' @ i \<longleftrightarrow> sp' = sp \<and> i' = i"
    using slash_key_inject [OF n(1) assms(2), of i' i] by simp
  then show "(c((sp, i) := y)) (sp', i') = (case (m(path @ sp @ ''/'' @ i := w)) (path @ sp' @ ''/'' @ i') of
       None \<Rightarrow> None | Some v \<Rightarrow> (case dec v of Inl _ \<Rightarrow> None | Inr x \<Rightarrow> Some x))"
    using assms(1,4) n unfolding mirrors_def by (cases "sp' = sp \<and> i' = i") auto
qed

lemma react_mirrors:
  assumes "mirrors path c m" and "list_all (good_event path) es"
  shows "\<exists>c'. react path modified deleted es c = Done c' \<and> mirrors path c' (replay es m)"
  using assms
proof (induction es arbitrary: c m)
  case Nil
  then show ?case by simp
next
  case (Cons e es)
  then obtain sp i where n: "CHR ''/'' \<notin> set sp" "CHR ''/'' \<notin> set i"
    and e: "case e of ModifiedNode k v \<Rightarrow> k = path @ sp @ ''/'' @ i \<and> \<not> isl (dec v)
      | DeletedNode k v \<Rightarrow> k = path @ sp @ ''/'' @ i"
    by (auto simp: good_event_def)
  note k = two_segments_key [OF n]
  show ?case
  proof (cases e)
    case (ModifiedNode k' v)
    then obtain x where x: "dec v = Inr x" "k' = path @ sp @ ''/'' @ i" using e by (cases "dec v") auto
    have "mirrors path (c((sp, i) \<mapsto> x)) (m(k' \<mapsto> v))"
      using mirrors_upd [OF Cons.prems(1) n, of "Some x" "Some v"] x by simp
    then show ?thesis
      using Cons.IH [of "c((sp, i) \<mapsto> x)" "m(k' \<mapsto> v)"] Cons.prems(2) ModifiedNode x modified_ok [OF x(1) k, of c]
      by (simp del: fun_upd_apply)
  next
    case (DeletedNode k' v)
    then have k': "k' = path @ sp @ ''/'' @ i" using e by simp
    have "mirrors path (c((sp, i) := None)) (m(k' := None))"
      using mirrors_upd [OF Cons.prems(1) n, of None None] k' by simp
    then show ?thesis
      using Cons.IH [of "c((sp, i) := None)" "m(k' := None)"] Cons.prems(2) DeletedNode k' deleted_ok [OF k, of v c]
      by (simp del: fun_upd_apply)
  qed
qed

end

interpretation function_reactor:
  map_reactor "functionCache_Modified E" functionCache_Deleted "decode (read_func E)" for E
  by unfold_locales (simp_all add: functionCache_Modified_def functionCache_Deleted_def)

interpretation event_type_reactor:
  map_reactor eventTypeCache_Modified eventTypeCache_Deleted "decode read_event_type"
  by unfold_locales (simp_all add: eventTypeCache_Modified_def eventTypeCache_Deleted_def)

subsection \<open>The trees of the subscription cache\<close>

lemma inner_upd [simp]: "inner (m(k \<mapsto> i)) k' = (if k' = k then i else inner m k')"
  by (simp add: inner_def)

definition sub_in :: "string \<Rightarrow> string \<Rightarrow> subscription \<Rightarrow> bool" where
  "sub_in me et s \<longleftrightarrow> sub_Type s = TypeSync \<and> sub_Method s = me \<and> sub_EventType s = et"

definition sub_route :: "subscription \<Rightarrow> string \<times> fkey" where
  "sub_route s = (sub_Path s, (sub_Space s, sub_FunctionID s))"

lemma inner_ensureSync [simp]: "inner (sc_sync (ensureSyncMethod me c)) = inner (sc_sync c)"
  by (auto simp: ensureSyncMethod_def inner_def fun_eq_iff)

lemma sc_sync_ensureAsync [simp]: "sc_sync (ensureAsyncMethodPath me p c) = sc_sync c"
  by (simp add: ensureAsyncMethodPath_def Let_def)

lemma sync_tree_add:
  "inner (sc_sync (add_subscription pick s c)) me et =
    (if sub_in me et s
     then Some (snd (AddRoute pick (case inner (sc_sync c) me et of Some n \<Rightarrow> n | None \<Rightarrow> NewNode)
                 (sub_Path s) (sub_Space s, sub_FunctionID s)))
     else inner (sc_sync c) me et)"
  by (auto simp: add_subscription_def Let_def set_sync_def set_async_def sub_in_def)

text \<open>The cache after a list of subscriptions has been added, one after the other.\<close>

definition add_all :: "(nat \<Rightarrow> nat) \<Rightarrow> subscription list \<Rightarrow> subscription_cache" where
  "add_all pick ss = foldl (\<lambda>c s. add_subscription pick s c) newSubscriptionCache ss"

lemma add_routes_Nil: "add_routes pick n [] = n"
  by (simp add: add_routes_def)

lemma add_routes_snoc_sub:
  "add_routes pick n (rs @ [sub_route s]) =
   snd (AddRoute pick (add_routes pick n rs) (sub_Path s) (sub_Space s, sub_FunctionID s))"
  by (simp add: add_routes_def sub_route_def)

lemma sync_tree_add_all:
  "inner (sc_sync (add_all pick ss)) me et =
    (if \<exists>s \<in> set ss. sub_in me et s
     then Some (add_routes pick NewNode (map sub_route (filter (sub_in me et) ss))) else None)"
proof (induction ss rule: rev_induct)
  case Nil
  then show ?case by (simp add: add_all_def newSubscriptionCache_def inner_def)
next
  case (snoc s ss)
  have "add_all pick (ss @ [s]) = add_subscription pick s (add_all pick ss)"
    by (simp add: add_all_def)
  moreover have "filter (sub_in me et) ss = [] \<longleftrightarrow> \<not> (\<exists>s \<in> set ss. sub_in me et s)"
    by (auto simp: filter_empty_conv)
  ultimately show ?case using snoc
    by (auto simp: sync_tree_add add_routes_Nil add_routes_snoc_sub)
qed

lemma segments_no_slash:
  assumes "abs_route r" and "p \<in> set (toSegments r)"
  shows "CHR ''/'' \<notin> set p"
proof -
  obtain u where "r = CHR ''/'' # u" using assms(1) by (auto simp: abs_route_def has_prefix_iff)
  then show ?thesis using assms(2) split_on_no_sep by (simp add: toSegments_abs)
qed

text \<open>A pattern of a served tree is a route, unless it is the one of the root.\<close>

lemma serves_value_route:
  assumes "serves n R" and "value_at n pat \<noteq> None" and "pat \<noteq> []" and "pat \<noteq> [[]]"
  obtains r where "abs_route r" "toSegments r = pat" "r \<noteq> ''/''"
proof -
  from assms(2) have "node_at n pat \<noteq> None" by (auto simp: value_at_def split: option.splits)
  then obtain r where r: "r \<in> R" "prefix pat (toSegments r)" "abs_route r"
    using assms(1,3) unfolding serves_def by blast
  have "\<forall>p \<in> set pat. CHR ''/'' \<notin> set p"
    using set_mono_prefix [OF r(2)] segments_no_slash [OF r(3)] by blast
  then have "toSegments (CHR ''/'' # join_with ''/'' pat) = pat"
    using assms(3) by (simp add: toSegments_abs split_join)
  then show thesis using that [of "CHR ''/'' # join_with ''/'' pat"] assms(4)
    by (cases "join_with ''/'' pat") (auto simp: abs_route_def toSegments_abs)
qed

lemma match_root_segment: "match_segs [[]] ss = Some m \<Longrightarrow> ss = [[]]"
  by (cases ss; cases "tl ss") (auto simp: is_wild_def is_param_def split: if_splits)

lemma sync_routing:
  assumes ad: "admissible (map sub_Path (filter (sub_in me et) ss))"
    and path: "abs_route path" "path \<noteq> ''/''"
  shows "SyncSubscriber pick (add_all pick' ss) me path et = Some x \<longleftrightarrow>
    (\<exists>s \<in> set ss. sub_in me et s \<and> sub_Path s \<noteq> ''/'' \<and>
      (\<exists>m. match_segs (toSegments (sub_Path s)) (toSegments path) = Some m \<and>
        x = \<lparr>ss_Space = sub_Space s, ss_FunctionID = sub_FunctionID s, ss_Params = Some m\<rparr>))"
    (is "?L \<longleftrightarrow> ?R")
proof (cases "\<exists>s \<in> set ss. sub_in me et s")
  case False
  then have "inner (sc_sync (add_all pick' ss)) me et = None" by (simp add: sync_tree_add_all)
  then show ?thesis using False by (auto simp: SyncSubscriber_def)
next
  case True
  let ?l = "map sub_route (filter (sub_in me et) ss)"
  define T where "T = add_routes pick' NewNode ?l"
  have root: "inner (sc_sync (add_all pick' ss)) me et = Some T"
    using True by (simp add: sync_tree_add_all T_def)
  have fst: "map fst ?l = map sub_Path (filter (sub_in me et) ss)" by (simp add: sub_route_def comp_def)
  have T: "serves T (fst ` set ?l)" "\<And>r. abs_route r \<Longrightarrow> route_value T r = map_of ?l r"
    using add_routes_serves [of ?l pick'] ad unfolding fst T_def by blast+
  have dist: "distinct (map fst ?l)" using ad unfolding fst admissible_def by blast
  have ne: "toSegments path \<noteq> []" using path(1) by (rule toSegments_not_Nil)
  have not_root: "toSegments path \<noteq> [[]]"
    using path toSegments_inject [OF path(1), of "''/''"] by (auto simp: abs_route_def toSegments_def)
  show ?thesis
  proof
    assume ?L
    then obtain sp i ps where r: "Resolve pick T path = (Some (sp, i), ps)"
      and x: "x = \<lparr>ss_Space = sp, ss_FunctionID = i, ss_Params = ps\<rparr>"
      by (auto simp: SyncSubscriber_def root split: prod.splits option.splits)
    then obtain pat m where pm: "value_at T pat = Some (sp, i)" "match_segs pat (toSegments path) = Some m"
      "ps = Some m"
      using Resolve_iff [OF serves_wf [OF T(1)] path] by blast
    have "pat \<noteq> []" "pat \<noteq> [[]]"
      using pm(2) ne not_root match_root_segment by (cases "toSegments path"; auto)+
    then obtain r where r: "abs_route r" "toSegments r = pat" "r \<noteq> ''/''"
      using serves_value_route [OF T(1)] pm(1) by (metis option.distinct(1))
    then have "map_of ?l r = Some (sp, i)" using T(2) [OF r(1)] pm(1) by (simp add: route_value_def)
    then have "(r, (sp, i)) \<in> set ?l" by (rule map_of_SomeD)
    then obtain s where "s \<in> set ss" "sub_in me et s" "sub_route s = (r, (sp, i))" by auto
    then show ?R using pm r x by (auto simp: sub_route_def)
  next
    assume ?R
    then obtain s m where s: "s \<in> set ss" "sub_in me et s" "sub_Path s \<noteq> ''/''"
      "match_segs (toSegments (sub_Path s)) (toSegments path) = Some m"
      "x = \<lparr>ss_Space = sub_Space s, ss_FunctionID = sub_FunctionID s, ss_Params = Some m\<rparr>" by blast
    have "route_ok (sub_Path s)" using ad s(1,2) by (auto simp: admissible_def)
    then have abs: "abs_route (sub_Path s)" by (simp add: route_ok_def)
    have "sub_route s \<in> set ?l" using s by simp
    then have "map_of ?l (sub_Path s) = Some (sub_Space s, sub_FunctionID s)"
      using dist by (simp add: sub_route_def map_of_is_SomeI)
    then have "value_at T (toSegments (sub_Path s)) = Some (sub_Space s, sub_FunctionID s)"
      using T(2) [OF abs] s(3) by (simp add: route_value_def)
    then have "Resolve pick T path = (Some (sub_Space s, sub_FunctionID s), Some m)"
      using Resolve_iff [OF serves_wf [OF T(1)] path] s(4) by blast
    then show ?L using s(5) by (simp add: SyncSubscriber_def root)
  qed
qed

text \<open>A subscription to \<^verbatim>\<open>/\<close> is the value of the root of its tree.\<close>

lemma sync_routing_root:
  assumes ad: "admissible (map sub_Path (filter (sub_in me et) ss))"
    and s: "s \<in> set ss" "sub_in me et s" "sub_Path s = ''/''"
  shows "SyncSubscriber pick (add_all pick' ss) me ''/'' et =
    Some \<lparr>ss_Space = sub_Space s, ss_FunctionID = sub_FunctionID s, ss_Params = None\<rparr>"
proof -
  let ?l = "map sub_route (filter (sub_in me et) ss)"
  let ?T = "add_routes pick' NewNode ?l"
  have fst: "map fst ?l = map sub_Path (filter (sub_in me et) ss)" by (simp add: sub_route_def comp_def)
  have "route_value ?T ''/'' = map_of ?l ''/''"
    using add_routes_serves [of ?l pick'] ad unfolding fst by (simp add: abs_route_def)
  moreover have "map_of ?l ''/'' = Some (sub_Space s, sub_FunctionID s)"
    using ad s unfolding fst [symmetric] admissible_def
    by (intro map_of_is_SomeI) (auto simp: sub_route_def intro!: image_eqI [of _ _ s])
  ultimately have "node_value ?T = Some (sub_Space s, sub_FunctionID s)" by (simp add: route_value_def)
  moreover have "inner (sc_sync (add_all pick' ss)) me et = Some ?T" using s by (auto simp: sync_tree_add_all)
  ultimately show ?thesis by (simp add: SyncSubscriber_def Resolve_def)
qed

end
