(* ===== verification/Effects.thy ===== *)
theory Effects
  imports Services
begin

section \<open>What the services do to the stores\<close>

text \<open>
  For each writing operation of theory Services, what can have happened to the contents of the
  four stores when it returns: either nothing, or one write with all the checks before it
  passed, whatever the result says (a failed write may have taken effect). The proofs use only
  the contract of the stores (theory KVStore).
\<close>

subsection \<open>Validation\<close>

lemma name_chars_no_slash: "name_chars s \<Longrightarrow> CHR ''/'' \<notin> set s"
  by (auto simp: name_chars_def list_all_iff is_alnum_def is_upper_def is_lower_def is_digit_def)

lemma name_chars_no_comma: "name_chars s \<Longrightarrow> CHR '','' \<notin> set s"
  by (auto simp: name_chars_def list_all_iff is_alnum_def is_upper_def is_lower_def is_digit_def)

lemma validateFunction_Inr:
  "validateFunction E f0 = Inr f \<Longrightarrow>
   name_chars (fn_Space f) \<and> name_chars (fn_ID f) \<and> (loaded E f0 \<longrightarrow> loaded E f)"
  by (auto simp: validateFunction_def Let_def validate_struct_None spaceValidator_def
      functionIDValidator_def loaded_def split: option.splits if_splits)

lemma validateEventType_Inr: "validateEventType E t0 = Inr t \<Longrightarrow> name_chars (et_Space t)"
  by (auto simp: validateEventType_def Let_def validate_struct_None spaceValidator_def
      split: option.splits if_splits)

text \<open>What every subscription that passes validation satisfies.\<close>

definition valid_sub :: "env \<Rightarrow> subscription \<Rightarrow> bool" where
  "valid_sub E s \<longleftrightarrow> name_chars (sub_Space s) \<and> name_chars (sub_EventType s) \<and> abs_route (sub_Path s) \<and>
     (v_eq E (sub_Type s) ''async'' \<or> v_eq E (sub_Type s) ''sync'') \<and>
     list_ex (v_eq E (sub_Method s)) http_methods"

lemma urlPathValidator_abs: "urlPathValidator p \<Longrightarrow> abs_route p"
  by (cases p) (simp_all add: urlPathValidator_def abs_route_def)

lemma validateSubscription_Inr:
  assumes "validateSubscription E s0 = Inr s"
  shows "valid_sub E s \<and> sub_ID s = sub_ID s0 \<and> sub_FunctionID s = sub_FunctionID s0 \<and>
    sub_Type s = sub_Type s0 \<and> sub_EventType s = sub_EventType s0 \<and> sub_Metadata s = sub_Metadata s0"
proof -
  define s1 where "s1 = s0\<lparr>sub_Path := EnsurePrefix (sub_Path s0) ''/''\<rparr>"
  define s2 where "s2 = (if sub_Space s1 = [] then s1\<lparr>sub_Space := defaultSpace\<rparr> else s1)"
  define s3 where "s3 = (if sub_Method s2 = [] then s2\<lparr>sub_Method := ''POST''\<rparr>
    else s2\<lparr>sub_Method := ToUpper (sub_Method s2)\<rparr>)"
  have "s = s3" and v: "spaceValidator (sub_Space s3)" "eventTypeValidator (sub_EventType s3)"
    "urlPathValidator (sub_Path s3)" "list_ex (v_eq E (sub_Type s3)) [''async'', ''sync'']"
    "list_ex (v_eq E (sub_Method s3)) http_methods"
    using assms unfolding validateSubscription_def Let_def s1_def [symmetric] s2_def [symmetric]
      s3_def [symmetric]
    by (auto simp: validate_struct_None split: option.splits)
  moreover have "sub_ID s3 = sub_ID s0 \<and> sub_FunctionID s3 = sub_FunctionID s0 \<and>
    sub_Type s3 = sub_Type s0 \<and> sub_EventType s3 = sub_EventType s0 \<and> sub_Metadata s3 = sub_Metadata s0"
    by (simp add: s3_def s2_def s1_def)
  ultimately show ?thesis
    by (simp add: valid_sub_def spaceValidator_def eventTypeValidator_def urlPathValidator_abs)
qed

lemma validateCORS_Inr:
  assumes "validateCORS E c0 = Inr c"
  shows "name_chars (cors_Space c) \<and> abs_route (cors_Path c) \<and> list_ex (v_eq E (cors_Method c)) http_methods \<and>
    cors_ID c = cors_ID c0 \<and> cors_Path c = cors_Path c0 \<and> cors_Method c = cors_Method c0"
proof -
  define c1 where "c1 = (if cors_Space c0 = [] then c0\<lparr>cors_Space := defaultSpace\<rparr> else c0)"
  define c2 where "c2 = (if length (cors_AllowedOrigins c1) = 0 then c1\<lparr>cors_AllowedOrigins := [''*'']\<rparr> else c1)"
  define c3 where "c3 = (if length (cors_AllowedMethods c2) = 0
    then c2\<lparr>cors_AllowedMethods := [''HEAD'', ''GET'', ''POST'']\<rparr> else c2)"
  define c4 where "c4 = (if length (cors_AllowedHeaders c3) = 0
    then c3\<lparr>cors_AllowedHeaders := [''Origin'', ''Accept'', ''Content-Type'']\<rparr> else c3)"
  have "c = c4" "spaceValidator (cors_Space c4)" "pathValidator (cors_Path c4)"
    "list_ex (v_eq E (cors_Method c4)) http_methods"
    using assms unfolding validateCORS_def Let_def c1_def [symmetric] c2_def [symmetric]
      c3_def [symmetric] c4_def [symmetric]
    by (auto simp: validate_struct_None split: option.splits)
  moreover have "cors_ID c4 = cors_ID c0 \<and> cors_Path c4 = cors_Path c0 \<and> cors_Method c4 = cors_Method c0"
    by (simp add: c4_def c3_def c2_def c1_def)
  ultimately show ?thesis
    using urlPathValidator_abs by (simp add: spaceValidator_def pathValidator_def urlPathValidator_def)
qed

lemma validateSubscriptionUpdate_None:
  "validateSubscriptionUpdate new old = None \<longleftrightarrow>
   sub_Type new = sub_Type old \<and> sub_EventType new = sub_EventType old \<and>
   sub_FunctionID new = sub_FunctionID old \<and> sub_Path new = sub_Path old \<and> sub_Method new = sub_Method old"
  by (simp add: validateSubscriptionUpdate_def)

subsection \<open>Lists\<close>

lemma list_loop_Inr:
  "list_loop rd md [] ps = Inr xs \<Longrightarrow> map (\<lambda>p. decode rd (Value p)) ps = map Inr xs"
  by (induction ps arbitrary: xs) (auto split: sum.splits)

lemma list_loop_filter:
  "list_loop rd md fs ps = (case list_loop rd md [] ps of Inl e \<Rightarrow> Inl e
     | Inr xs \<Rightarrow> Inr (filter (\<lambda>x. metadata_Check (md x) fs) xs))"
  by (induction ps) (auto split: sum.splits)

lemma spacePath_not_Nil [simp]: "spacePath sp \<noteq> []"
  by (simp add: spacePath_def)

text \<open>Nothing below the prefix of the space is missing from a list that succeeded.\<close>

context kv_store
begin

lemma list_complete:
  assumes "list_entities rd md [] (kv_List kv (spacePath sp) st) = Inr xs"
    and "contents st (sp @ ''/'' @ i) = Some b" and "decode rd b = Inr x"
  shows "x \<in> set xs"
proof (cases "kv_List kv (spacePath sp) st")
  case (Inl e)
  then have "e = errKeyNotFound" using assms(1) by (simp add: list_entities_def split: if_splits)
  then have "contents st (spacePath sp @ i) = None" using List_missing [of "spacePath sp"] Inl by simp
  then show ?thesis using assms(2) by (simp add: spacePath_def)
next
  case (Inr ps)
  then have l: "map (\<lambda>p. decode rd (Value p)) ps = map Inr xs"
    using assms(1) by (auto simp: list_entities_def intro: list_loop_Inr)
  obtain p where "p \<in> set ps" "Value p = b"
    using List_mem [OF _ Inr, of "sp @ ''/'' @ i" b] assms(2) by (auto simp: spacePath_def has_prefix_iff)
  then have "Inr x \<in> set (map (\<lambda>p. decode rd (Value p)) ps)" using assms(3) by force
  then show ?thesis unfolding l by auto
qed

lemma list_sound:
  assumes "list_entities rd md fs (kv_List kv (spacePath sp) st) = Inr xs" and "x \<in> set xs"
  obtains k b where "contents st k = Some b" and "has_prefix k (spacePath sp)" and "decode rd b = Inr x"
    and "metadata_Check (md x) fs"
proof (cases "kv_List kv (spacePath sp) st")
  case (Inl e)
  then show ?thesis using assms by (simp add: list_entities_def split: if_splits)
next
  case (Inr ps)
  then obtain ys where ys: "list_loop rd md [] ps = Inr ys" "xs = filter (\<lambda>x. metadata_Check (md x) fs) ys"
    using assms(1) list_loop_filter [of rd md fs ps] by (auto simp: list_entities_def split: sum.splits)
  then have "Inr x \<in> set (map (\<lambda>p. decode rd (Value p)) ps)" "metadata_Check (md x) fs"
    using list_loop_Inr [OF ys(1)] assms(2) by auto
  then obtain p where p: "p \<in> set ps" "decode rd (Value p) = Inr x" by auto
  then show ?thesis using that [of "Key p" "Value p"] List_sound [OF _ Inr p(1)] ys(2) assms(2) by simp
qed

end

subsection \<open>Effects\<close>

context config_stores
begin

text \<open>The contents of all four stores.\<close>

definition view :: "'st \<Rightarrow> (string \<Rightarrow> blob option) \<times> (string \<Rightarrow> blob option) \<times> (string \<Rightarrow> blob option) \<times> (string \<Rightarrow> blob option)" where
  "view st = (ec st, fc st, sc st, cc st)"

lemma put_E: "kv_Put (EventTypeStore svc) k v st = (e, st') \<Longrightarrow>
    view st' = view st \<or> view st' = ((ec st)(k \<mapsto> v), fc st, sc st, cc st)"
  using E.Put [of k v st e st'] E.Put_rest [of k v st e st'] by (auto simp: view_def)

lemma put_F: "kv_Put (FunctionStore svc) k v st = (e, st') \<Longrightarrow>
    view st' = view st \<or> view st' = (ec st, (fc st)(k \<mapsto> v), sc st, cc st)"
  using F.Put [of k v st e st'] F.Put_rest [of k v st e st'] by (auto simp: view_def)

lemma put_S: "kv_Put (SubscriptionStore svc) k v st = (e, st') \<Longrightarrow>
    view st' = view st \<or> view st' = (ec st, fc st, (sc st)(k \<mapsto> v), cc st)"
  using S.Put [of k v st e st'] S.Put_rest [of k v st e st'] by (auto simp: view_def)

lemma put_C: "kv_Put (CORSStore svc) k v st = (e, st') \<Longrightarrow>
    view st' = view st \<or> view st' = (ec st, fc st, sc st, (cc st)(k \<mapsto> v))"
  using C.Put [of k v st e st'] C.Put_rest [of k v st e st'] by (auto simp: view_def)

lemma aput_E: "kv_AtomicPut (EventTypeStore svc) k v None st = (r, st') \<Longrightarrow>
    view st' = view st \<or> ec st k = None \<and> view st' = ((ec st)(k \<mapsto> v), fc st, sc st, cc st)"
  using E.AtomicPut [of k v st r st'] E.AtomicPut_rest [of k v st r st'] by (auto simp: view_def)

lemma aput_F: "kv_AtomicPut (FunctionStore svc) k v None st = (r, st') \<Longrightarrow>
    view st' = view st \<or> fc st k = None \<and> view st' = (ec st, (fc st)(k \<mapsto> v), sc st, cc st)"
  using F.AtomicPut [of k v st r st'] F.AtomicPut_rest [of k v st r st'] by (auto simp: view_def)

lemma aput_S: "kv_AtomicPut (SubscriptionStore svc) k v None st = (r, st') \<Longrightarrow>
    view st' = view st \<or> sc st k = None \<and> view st' = (ec st, fc st, (sc st)(k \<mapsto> v), cc st)"
  using S.AtomicPut [of k v st r st'] S.AtomicPut_rest [of k v st r st'] by (auto simp: view_def)

lemma del_E: "kv_Delete (EventTypeStore svc) k st = (e, st') \<Longrightarrow>
    view st' = view st \<or> view st' = ((ec st)(k := None), fc st, sc st, cc st)"
  using E.Delete [of k st e st'] E.Delete_rest [of k st e st'] by (auto simp: view_def)

lemma del_F: "kv_Delete (FunctionStore svc) k st = (e, st') \<Longrightarrow>
    view st' = view st \<or> view st' = (ec st, (fc st)(k := None), sc st, cc st)"
  using F.Delete [of k st e st'] F.Delete_rest [of k st e st'] by (auto simp: view_def)

lemma del_S: "kv_Delete (SubscriptionStore svc) k st = (e, st') \<Longrightarrow>
    view st' = view st \<or> view st' = (ec st, fc st, (sc st)(k := None), cc st)"
  using S.Delete [of k st e st'] S.Delete_rest [of k st e st'] by (auto simp: view_def)

lemma del_C: "kv_Delete (CORSStore svc) k st = (e, st') \<Longrightarrow>
    view st' = view st \<or> view st' = (ec st, fc st, sc st, (cc st)(k := None))"
  using C.Delete [of k st e st'] C.Delete_rest [of k st e st'] by (auto simp: view_def)

lemma GetFunction_Inr: "GetFunction E svc sp i st = Inr f \<Longrightarrow>
    \<exists>b. fc st (FunctionKey sp i) = Some b \<and> decode (read_func E) b = Inr f"
  using F.Get_found by (fastforce simp: GetFunction_def split: sum.splits)

lemma GetEventType_Inr: "GetEventType svc sp n st = Inr t \<Longrightarrow>
    \<exists>b. ec st (EventTypeKey sp n) = Some b \<and> decode read_event_type b = Inr t"
  using E.Get_found by (fastforce simp: GetEventType_def split: sum.splits)

lemma GetSubscription_Inr: "GetSubscription svc sp i st = Inr s \<Longrightarrow>
    \<exists>b. sc st (subscriptionPath sp i) = Some b \<and> decode read_subscription b = Inr s"
  using S.Get_found by (fastforce simp: GetSubscription_def split: sum.splits)

lemma GetCORS_Inr: "GetCORS svc sp i st = Inr c \<Longrightarrow>
    \<exists>b. cc st (CORSKey sp i) = Some b \<and> decode read_cors b = Inr c"
  using C.Get_found by (fastforce simp: GetCORS_def split: sum.splits)

lemma check_authorizer_None:
  "check_authorizer E svc t st = None \<Longrightarrow> et_AuthorizerID t = Some a \<Longrightarrow>
   fc st (FunctionKey (et_Space t) a) \<noteq> None"
  using GetFunction_Inr [of E "et_Space t" a st]
  by (auto simp: check_authorizer_def split: sum.splits svc_error.splits)

lemma CreateFunction_effect:
  assumes "CreateFunction E svc f0 st = (r, st')"
  shows "view st' = view st \<or> (\<exists>f. validateFunction E f0 = Inr f \<and>
    fc st (FunctionKey (fn_Space f) (fn_ID f)) = None \<and>
    view st' = (ec st, (fc st)(FunctionKey (fn_Space f) (fn_ID f) \<mapsto> Doc (func_json f)), sc st, cc st))"
  using assms unfolding CreateFunction_def
  by (auto split: sum.splits prod.splits dest!: aput_F)

lemma UpdateFunction_effect:
  assumes "UpdateFunction E svc f0 st = (r, st')"
  shows "view st' = view st \<or> (\<exists>f. validateFunction E f0 = Inr f \<and>
    fc st (FunctionKey (fn_Space f) (fn_ID f)) \<noteq> None \<and>
    view st' = (ec st, (fc st)(FunctionKey (fn_Space f) (fn_ID f) \<mapsto> Doc (func_json f)), sc st, cc st))"
  using assms unfolding UpdateFunction_def
  by (auto split: sum.splits prod.splits option.splits dest!: put_F F.Get_found)

lemma CreateEventType_effect:
  assumes "CreateEventType E svc t0 st = (r, st')"
  shows "view st' = view st \<or> (\<exists>t. validateEventType E t0 = Inr t \<and>
    check_authorizer E svc t st = None \<and> ec st (EventTypeKey (et_Space t) (et_Name t)) = None \<and>
    view st' = ((ec st)(EventTypeKey (et_Space t) (et_Name t) \<mapsto> Doc (event_type_json t)), fc st, sc st, cc st))"
  using assms unfolding CreateEventType_def
  by (auto split: sum.splits prod.splits option.splits dest!: aput_E)

lemma UpdateEventType_effect:
  assumes "UpdateEventType E svc t0 st = (r, st')"
  shows "view st' = view st \<or> (\<exists>t. validateEventType E t0 = Inr t \<and>
    check_authorizer E svc t st = None \<and> ec st (EventTypeKey (et_Space t) (et_Name t)) \<noteq> None \<and>
    view st' = ((ec st)(EventTypeKey (et_Space t) (et_Name t) \<mapsto> Doc (event_type_json t)), fc st, sc st, cc st))"
  using assms unfolding UpdateEventType_def
  by (auto split: sum.splits prod.splits option.splits dest!: put_E GetEventType_Inr)

lemma CreateSubscription_effect:
  assumes "CreateSubscription pick E svc s0 st = (r, st')"
  shows "view st' = view st \<or> (\<exists>s1 s. validateSubscription E s0 = Inr s1 \<and> s = s1\<lparr>sub_ID := newSubscriptionID s1\<rparr> \<and>
    sc st (subscriptionPath (sub_Space s) (sub_ID s)) = None \<and>
    (sub_Type s = TypeSync \<longrightarrow> checkForPathConflict pick svc (sub_Space s) (sub_Method s) (sub_Path s)
       (sub_EventType s) st = None) \<and>
    ec st (EventTypeKey (sub_Space s) (sub_EventType s)) \<noteq> None \<and>
    fc st (FunctionKey (sub_Space s) (sub_FunctionID s)) \<noteq> None \<and>
    view st' = (ec st, fc st,
      (sc st)(subscriptionPath (sub_Space s) (sub_ID s) \<mapsto> Doc (subscription_json s)), cc st))"
  using assms unfolding CreateSubscription_def Let_def
  by (auto split: sum.splits prod.splits option.splits if_splits
      dest!: aput_S GetEventType_Inr GetFunction_Inr)

lemma UpdateSubscription_effect:
  assumes "UpdateSubscription E svc i s0 st = (r, st')"
  shows "view st' = view st \<or> (\<exists>s old b. validateSubscription E s0 = Inr s \<and>
    sc st (subscriptionPath (sub_Space s) i) = Some b \<and> decode read_subscription b = Inr old \<and>
    validateSubscriptionUpdate s old = None \<and>
    fc st (FunctionKey (sub_Space s) (sub_FunctionID s)) \<noteq> None \<and>
    view st' = (ec st, fc st,
      (sc st)(subscriptionPath (sub_Space s) (sub_ID s) \<mapsto> Doc (subscription_json s)), cc st))"
  using assms unfolding UpdateSubscription_def
  by (auto split: sum.splits prod.splits option.splits dest!: put_S GetSubscription_Inr GetFunction_Inr)

lemma DeleteSubscription_effect:
  assumes "DeleteSubscription svc sp i st = (r, st')"
  shows "view st' = view st \<or> view st' = (ec st, fc st, (sc st)(subscriptionPath sp i := None), cc st)"
  using assms unfolding DeleteSubscription_def
  by (auto split: sum.splits prod.splits option.splits dest!: del_S)

lemma DeleteEventType_effect:
  assumes "DeleteEventType svc sp n st = (r, st')"
  shows "view st' = view st \<or> (\<exists>subs. ListSubscriptions svc sp [] st = Inr subs \<and>
    (\<forall>s \<in> set subs. sub_EventType s \<noteq> n) \<and>
    view st' = ((ec st)(EventTypeKey sp n := None), fc st, sc st, cc st))"
  using assms unfolding DeleteEventType_def
  by (auto simp: list_ex_iff split: sum.splits prod.splits option.splits if_splits dest!: del_E)

lemma DeleteFunction_effect:
  assumes "DeleteFunction svc sp i st = (r, st')"
  shows "view st' = view st \<or> (\<exists>subs types. ListSubscriptions svc sp [] st = Inr subs \<and>
    (\<forall>s \<in> set subs. sub_FunctionID s \<noteq> i) \<and>
    ListEventTypes svc sp [] st = Inr types \<and> (\<forall>t \<in> set types. et_AuthorizerID t \<noteq> Some i) \<and>
    view st' = (ec st, (fc st)(FunctionKey sp i := None), sc st, cc st))"
  using assms unfolding DeleteFunction_def
  by (auto simp: list_ex_iff find_None_iff split: sum.splits prod.splits option.splits if_splits
      dest!: del_F)

lemma CreateCORS_effect:
  assumes "CreateCORS E svc c0 st = (r, st')"
  shows "view st' = view st \<or> (\<exists>c1 c. validateCORS E c0 = Inr c1 \<and> c = c1\<lparr>cors_ID := newCORSID c1\<rparr> \<and>
    view st' = (ec st, fc st, sc st, (cc st)(CORSKey (cors_Space c) (cors_ID c) \<mapsto> Doc (cors_json c))))"
  using assms unfolding CreateCORS_def Let_def
  by (auto split: sum.splits prod.splits option.splits dest!: put_C)

lemma UpdateCORS_effect:
  assumes "UpdateCORS E svc c0 st = (r, st')"
  shows "view st' = view st \<or> (\<exists>c old b. validateCORS E c0 = Inr c \<and>
    cc st (CORSKey (cors_Space c) (cors_ID c)) = Some b \<and> decode read_cors b = Inr old \<and>
    validateCORSUpdate c old = None \<and>
    view st' = (ec st, fc st, sc st, (cc st)(CORSKey (cors_Space c) (cors_ID c) \<mapsto> Doc (cors_json c))))"
  using assms unfolding UpdateCORS_def
  by (auto split: sum.splits prod.splits option.splits dest!: put_C GetCORS_Inr)

lemma DeleteCORS_effect:
  assumes "DeleteCORS svc sp i st = (r, st')"
  shows "view st' = view st \<or> view st' = (ec st, fc st, sc st, (cc st)(CORSKey sp i := None))"
  using assms unfolding DeleteCORS_def
  by (auto split: prod.splits option.splits dest!: del_C)

end

end
