(* ===== verification/Integrity.thy ===== *)
theory Integrity
  imports Effects PathConflict
begin

section \<open>Integrity of the configuration\<close>

text \<open>
  The invariant of the configuration data that the services maintain: every entity lies under
  its own key; the event type and the function of every subscription exist, and so does the
  authorizer of every event type; the identifier of a subscription or CORS configuration is
  the one computed from its fields; and (when lists of the store do not fail) the paths of the
  sync subscriptions to one event type and method of a space can all be served by one tree.
\<close>

subsection \<open>The invariant\<close>

definition event_types_ok :: "(string \<Rightarrow> blob option) \<Rightarrow> (string \<Rightarrow> blob option) \<Rightarrow> bool" where
  "event_types_ok ec fc \<longleftrightarrow> (\<forall>k b. ec k = Some b \<longrightarrow> (\<exists>t. b = Doc (event_type_json t) \<and>
     k = EventTypeKey (et_Space t) (et_Name t) \<and> name_chars (et_Space t) \<and>
     (\<forall>a. et_AuthorizerID t = Some a \<longrightarrow> fc (FunctionKey (et_Space t) a) \<noteq> None)))"

definition functions_ok :: "(string \<Rightarrow> blob option) \<Rightarrow> bool" where
  "functions_ok fc \<longleftrightarrow> (\<forall>k b. fc k = Some b \<longrightarrow> (\<exists>f. b = Doc (func_json f) \<and>
     k = FunctionKey (fn_Space f) (fn_ID f) \<and> name_chars (fn_Space f) \<and> name_chars (fn_ID f)))"

definition subscriptions_ok ::
  "env \<Rightarrow> (string \<Rightarrow> blob option) \<Rightarrow> (string \<Rightarrow> blob option) \<Rightarrow> (string \<Rightarrow> blob option) \<Rightarrow> bool" where
  "subscriptions_ok E ec fc sc \<longleftrightarrow> (\<forall>k b. sc k = Some b \<longrightarrow> (\<exists>s. b = Doc (subscription_json s) \<and>
     k = subscriptionPath (sub_Space s) (sub_ID s) \<and> sub_ID s = newSubscriptionID s \<and> valid_sub E s \<and>
     ec (EventTypeKey (sub_Space s) (sub_EventType s)) \<noteq> None \<and>
     fc (FunctionKey (sub_Space s) (sub_FunctionID s)) \<noteq> None))"

definition corses_ok :: "(string \<Rightarrow> blob option) \<Rightarrow> bool" where
  "corses_ok cc \<longleftrightarrow> (\<forall>k b. cc k = Some b \<longrightarrow> (\<exists>c. b = Doc (cors_json c) \<and>
     k = CORSKey (cors_Space c) (cors_ID c) \<and> cors_ID c = newCORSID c \<and>
     name_chars (cors_Space c) \<and> abs_route (cors_Path c)))"

definition config_ok :: "env \<Rightarrow> (string \<Rightarrow> blob option) \<Rightarrow> (string \<Rightarrow> blob option) \<Rightarrow>
    (string \<Rightarrow> blob option) \<Rightarrow> (string \<Rightarrow> blob option) \<Rightarrow> bool" where
  "config_ok E ec fc sc cc \<longleftrightarrow>
     event_types_ok ec fc \<and> functions_ok fc \<and> subscriptions_ok E ec fc sc \<and> corses_ok cc"

text \<open>The sync subscriptions that share a tree, and the paths they occupy.\<close>

definition stored_sub :: "(string \<Rightarrow> blob option) \<Rightarrow> subscription \<Rightarrow> bool" where
  "stored_sub sc s \<longleftrightarrow> sc (subscriptionPath (sub_Space s) (sub_ID s)) = Some (Doc (subscription_json s))"

definition same_tree :: "subscription \<Rightarrow> subscription \<Rightarrow> bool" where
  "same_tree s t \<longleftrightarrow> sub_Type s = TypeSync \<and> sub_Type t = TypeSync \<and> sub_Space s = sub_Space t \<and>
     sub_Method s = sub_Method t \<and> sub_EventType s = sub_EventType t"

definition paths_ok :: "(string \<Rightarrow> blob option) \<Rightarrow> bool" where
  "paths_ok sc \<longleftrightarrow> (\<forall>s t. stored_sub sc s \<longrightarrow> stored_sub sc t \<longrightarrow> same_tree s t \<longrightarrow>
     route_ok (sub_Path s) \<and> (sub_ID s \<noteq> sub_ID t \<longrightarrow> compatible (sub_Path s) (sub_Path t)))"

lemma subscription_json_inject: "subscription_json s = subscription_json t \<longleftrightarrow> s = t"
  by (metis read_subscription_json sum.inject(2))

lemma event_type_json_inject: "event_type_json s = event_type_json t \<longleftrightarrow> s = t"
  by (metis read_event_type_json sum.inject(2))

lemma decode_Doc [simp]: "decode rd (Doc j) = rd j"
  by (simp add: decode_def)

lemmas key_defs = EventTypeKey_def FunctionKey_def CORSKey_def subscriptionPath_def spacePath_def

lemma two_slashes:
  assumes "c \<notin> set a'" "c \<notin> set b'" "a @ c # b = a' @ c # b'"
  shows "a = a' \<and> b = b'"
proof -
  have "c \<notin> set a"
  proof
    assume "c \<in> set a"
    then obtain x y where a: "a = x @ c # y" "c \<notin> set x" by (meson split_list_first)
    then have "x @ c # (y @ c # b) = a' @ c # b'" using assms(3) by simp
    then have "y @ c # b = b'" using slash_key_inject [OF a(2) assms(1), of "y @ c # b" b'] by simp
    then show False using assms(2) by auto
  qed
  from slash_key_inject [OF this assms(1), of b b'] show ?thesis using assms(3) by simp
qed

text \<open>What holds of every entry of a map after one entry changes.\<close>

lemma all_update:
  assumes "\<forall>k b. m k = Some b \<longrightarrow> P k b" and "P k0 b0"
  shows "\<forall>k b. (m(k0 \<mapsto> b0)) k = Some b \<longrightarrow> P k b"
proof (intro allI impI)
  fix k b
  assume "(m(k0 \<mapsto> b0)) k = Some b"
  then show "P k b" using assms by (cases "k = k0") auto
qed

lemma all_delete:
  assumes "\<forall>k b. m k = Some b \<longrightarrow> P k b"
  shows "\<forall>k b. (m(k0 := None)) k = Some b \<longrightarrow> P k b"
proof (intro allI impI)
  fix k b
  assume "(m(k0 := None)) k = Some b"
  then show "P k b" using assms by (cases "k = k0") auto
qed

subsection \<open>Each kind of change keeps the invariant\<close>

lemma subscriptions_ok_change:
  assumes "subscriptions_ok E ec fc sc"
    and "\<And>s. sc (subscriptionPath (sub_Space s) (sub_ID s)) = Some (Doc (subscription_json s)) \<Longrightarrow>
      valid_sub E s \<Longrightarrow> ec (EventTypeKey (sub_Space s) (sub_EventType s)) \<noteq> None \<Longrightarrow>
      fc (FunctionKey (sub_Space s) (sub_FunctionID s)) \<noteq> None \<Longrightarrow>
      ec' (EventTypeKey (sub_Space s) (sub_EventType s)) \<noteq> None \<and>
      fc' (FunctionKey (sub_Space s) (sub_FunctionID s)) \<noteq> None"
  shows "subscriptions_ok E ec' fc' sc"
  unfolding subscriptions_ok_def
proof (intro allI impI)
  fix k b
  assume k: "sc k = Some b"
  then obtain s where s: "b = Doc (subscription_json s)" "k = subscriptionPath (sub_Space s) (sub_ID s)"
    "sub_ID s = newSubscriptionID s" "valid_sub E s"
    "ec (EventTypeKey (sub_Space s) (sub_EventType s)) \<noteq> None"
    "fc (FunctionKey (sub_Space s) (sub_FunctionID s)) \<noteq> None"
    using assms(1) unfolding subscriptions_ok_def by blast
  then show "\<exists>s. b = Doc (subscription_json s) \<and> k = subscriptionPath (sub_Space s) (sub_ID s) \<and>
      sub_ID s = newSubscriptionID s \<and> valid_sub E s \<and>
      ec' (EventTypeKey (sub_Space s) (sub_EventType s)) \<noteq> None \<and>
      fc' (FunctionKey (sub_Space s) (sub_FunctionID s)) \<noteq> None"
    using assms(2) [of s] k by (intro exI [of _ s]) simp
qed

lemma config_ok_add_function:
  assumes "config_ok E ec fc sc cc" and "name_chars (fn_Space f)" and "name_chars (fn_ID f)"
  shows "config_ok E ec (fc(FunctionKey (fn_Space f) (fn_ID f) \<mapsto> Doc (func_json f))) sc cc"
proof -
  let ?fc = "fc(FunctionKey (fn_Space f) (fn_ID f) \<mapsto> Doc (func_json f))"
  have d: "fc k \<noteq> None \<Longrightarrow> ?fc k \<noteq> None" for k by simp
  have "event_types_ok ec ?fc"
    using assms(1) d unfolding config_ok_def event_types_ok_def by blast
  moreover have "subscriptions_ok E ec ?fc sc"
    using assms(1) d unfolding config_ok_def subscriptions_ok_def by blast
  moreover have "functions_ok ?fc"
    using assms unfolding config_ok_def functions_ok_def by (intro all_update) blast+
  ultimately show ?thesis using assms(1) by (simp add: config_ok_def)
qed

lemma config_ok_add_event_type:
  assumes "config_ok E ec fc sc cc" and "name_chars (et_Space t)"
    and "\<forall>a. et_AuthorizerID t = Some a \<longrightarrow> fc (FunctionKey (et_Space t) a) \<noteq> None"
  shows "config_ok E (ec(EventTypeKey (et_Space t) (et_Name t) \<mapsto> Doc (event_type_json t))) fc sc cc"
proof -
  let ?ec = "ec(EventTypeKey (et_Space t) (et_Name t) \<mapsto> Doc (event_type_json t))"
  have d: "ec k \<noteq> None \<Longrightarrow> ?ec k \<noteq> None" for k by simp
  have "event_types_ok ?ec fc"
    using assms unfolding config_ok_def event_types_ok_def by (intro all_update) blast+
  moreover have "subscriptions_ok E ?ec fc sc"
    using assms(1) d unfolding config_ok_def subscriptions_ok_def by blast
  ultimately show ?thesis using assms(1) by (simp add: config_ok_def)
qed

lemma config_ok_put_subscription:
  assumes "config_ok E ec fc sc cc" and "valid_sub E s" and "sub_ID s = newSubscriptionID s"
    and "ec (EventTypeKey (sub_Space s) (sub_EventType s)) \<noteq> None"
    and "fc (FunctionKey (sub_Space s) (sub_FunctionID s)) \<noteq> None"
  shows "config_ok E ec fc (sc(subscriptionPath (sub_Space s) (sub_ID s) \<mapsto> Doc (subscription_json s))) cc"
proof -
  have "subscriptions_ok E ec fc (sc(subscriptionPath (sub_Space s) (sub_ID s) \<mapsto> Doc (subscription_json s)))"
    using assms unfolding config_ok_def subscriptions_ok_def by (intro all_update) blast+
  then show ?thesis using assms(1) by (simp add: config_ok_def)
qed

lemma config_ok_del_subscription:
  "config_ok E ec fc sc cc \<Longrightarrow> config_ok E ec fc (sc(k := None)) cc"
  unfolding config_ok_def subscriptions_ok_def by (elim conjE, intro conjI all_delete)

lemma config_ok_put_cors:
  assumes "config_ok E ec fc sc cc" and "name_chars (cors_Space c)" and "cors_ID c = newCORSID c"
    and "abs_route (cors_Path c)"
  shows "config_ok E ec fc sc (cc(CORSKey (cors_Space c) (cors_ID c) \<mapsto> Doc (cors_json c)))"
  using assms unfolding config_ok_def corses_ok_def by (intro conjI all_update) blast+

lemma config_ok_del_cors: "config_ok E ec fc sc cc \<Longrightarrow> config_ok E ec fc sc (cc(k := None))"
  unfolding config_ok_def corses_ok_def by (elim conjE, intro conjI all_delete)

lemma config_ok_del_event_type:
  assumes "config_ok E ec fc sc cc"
    and unused: "\<And>i s. sc (subscriptionPath sp i) = Some (Doc (subscription_json s)) \<Longrightarrow> sub_EventType s \<noteq> n"
  shows "config_ok E (ec(EventTypeKey sp n := None)) fc sc cc"
proof -
  have "subscriptions_ok E (ec(EventTypeKey sp n := None)) fc sc"
  proof (rule subscriptions_ok_change)
    show "subscriptions_ok E ec fc sc" using assms(1) by (simp add: config_ok_def)
    fix s
    assume s: "sc (subscriptionPath (sub_Space s) (sub_ID s)) = Some (Doc (subscription_json s))"
      "valid_sub E s" "ec (EventTypeKey (sub_Space s) (sub_EventType s)) \<noteq> None"
      "fc (FunctionKey (sub_Space s) (sub_FunctionID s)) \<noteq> None"
    have "EventTypeKey sp n \<noteq> EventTypeKey (sub_Space s) (sub_EventType s)"
    proof
      assume "EventTypeKey sp n = EventTypeKey (sub_Space s) (sub_EventType s)"
      then have "sp = sub_Space s \<and> n = sub_EventType s"
        using two_slashes [of "CHR ''/''" "sub_Space s" "sub_EventType s" sp n] s(2)
        by (simp add: key_defs valid_sub_def name_chars_no_slash)
      then show False using unused [of "sub_ID s" s] s(1) by simp
    qed
    then show "(ec(EventTypeKey sp n := None)) (EventTypeKey (sub_Space s) (sub_EventType s)) \<noteq> None \<and>
        fc (FunctionKey (sub_Space s) (sub_FunctionID s)) \<noteq> None"
      using s(3,4) by simp
  qed
  moreover have "event_types_ok (ec(EventTypeKey sp n := None)) fc"
    using assms(1) unfolding config_ok_def event_types_ok_def by (intro all_delete) blast
  ultimately show ?thesis using assms(1) by (simp add: config_ok_def)
qed

lemma function_key_parts:
  assumes "functions_ok fc" and "fc (FunctionKey sp i) \<noteq> None" and "FunctionKey sp i = FunctionKey sp' i'"
  shows "sp = sp' \<and> i = i'"
proof -
  obtain f :: func where f: "FunctionKey sp i = FunctionKey (fn_Space f) (fn_ID f)"
    "name_chars (fn_Space f)" "name_chars (fn_ID f)"
  proof -
    from assms(2) obtain b where "fc (FunctionKey sp i) = Some b" by auto
    then show thesis using assms(1) that unfolding functions_ok_def by blast
  qed
  have parts: "a = fn_Space f \<and> j = fn_ID f" if "FunctionKey a j = FunctionKey (fn_Space f) (fn_ID f)" for a j
    by (rule two_slashes [of "CHR ''/''"]) (use f that in \<open>simp_all add: key_defs name_chars_no_slash\<close>)
  from parts [OF f(1)] parts [of sp' i'] f(1) assms(3) show ?thesis by simp
qed

lemma config_ok_del_function:
  assumes "config_ok E ec fc sc cc"
    and unused: "\<And>j s. sc (subscriptionPath sp j) = Some (Doc (subscription_json s)) \<Longrightarrow> sub_FunctionID s \<noteq> i"
    and no_auth: "\<And>n t. ec (EventTypeKey sp n) = Some (Doc (event_type_json t)) \<Longrightarrow> et_AuthorizerID t \<noteq> Some i"
  shows "config_ok E ec (fc(FunctionKey sp i := None)) sc cc"
proof -
  have fok: "functions_ok fc" using assms(1) by (simp add: config_ok_def)
  have "event_types_ok ec (fc(FunctionKey sp i := None))"
    unfolding event_types_ok_def
  proof (intro allI impI)
    fix k b
    assume "ec k = Some b"
    then obtain t where t: "b = Doc (event_type_json t)" "k = EventTypeKey (et_Space t) (et_Name t)"
      "name_chars (et_Space t)" "\<forall>a. et_AuthorizerID t = Some a \<longrightarrow> fc (FunctionKey (et_Space t) a) \<noteq> None"
      "ec k = Some b"
      using assms(1) unfolding config_ok_def event_types_ok_def by metis
    have "(fc(FunctionKey sp i := None)) (FunctionKey (et_Space t) a) \<noteq> None"
      if a: "et_AuthorizerID t = Some a" for a
    proof -
      have "FunctionKey (et_Space t) a \<noteq> FunctionKey sp i"
        using function_key_parts [OF fok, of "et_Space t" a sp i] no_auth [of "et_Name t" t] t a by auto
      then show ?thesis using t(4) a by simp
    qed
    then show "\<exists>t. b = Doc (event_type_json t) \<and> k = EventTypeKey (et_Space t) (et_Name t) \<and>
        name_chars (et_Space t) \<and> (\<forall>a. et_AuthorizerID t = Some a \<longrightarrow>
          (fc(FunctionKey sp i := None)) (FunctionKey (et_Space t) a) \<noteq> None)"
      using t by blast
  qed
  moreover have "subscriptions_ok E ec (fc(FunctionKey sp i := None)) sc"
  proof (rule subscriptions_ok_change)
    show "subscriptions_ok E ec fc sc" using assms(1) by (simp add: config_ok_def)
    fix s
    assume s: "sc (subscriptionPath (sub_Space s) (sub_ID s)) = Some (Doc (subscription_json s))"
      "ec (EventTypeKey (sub_Space s) (sub_EventType s)) \<noteq> None"
      "fc (FunctionKey (sub_Space s) (sub_FunctionID s)) \<noteq> None"
    have "FunctionKey (sub_Space s) (sub_FunctionID s) \<noteq> FunctionKey sp i"
      using function_key_parts [OF fok s(3), of sp i] unused [of "sub_ID s" s] s(1) by auto
    then show "ec (EventTypeKey (sub_Space s) (sub_EventType s)) \<noteq> None \<and>
        (fc(FunctionKey sp i := None)) (FunctionKey (sub_Space s) (sub_FunctionID s)) \<noteq> None"
      using s(2,3) by simp
  qed
  moreover have "functions_ok (fc(FunctionKey sp i := None))"
    using fok unfolding functions_ok_def by (intro all_delete) blast
  ultimately show ?thesis using assms(1) by (simp add: config_ok_def)
qed

subsection \<open>The path conflict check is exact\<close>

definition sub_of :: "kvpair \<Rightarrow> subscription" where
  "sub_of p = projr (decode read_subscription (Value p))"

definition in_tree :: "string \<Rightarrow> string \<Rightarrow> subscription \<Rightarrow> bool" where
  "in_tree me et s \<longleftrightarrow> sub_Type s = TypeSync \<and> sub_Method s = me \<and> sub_EventType s = et"

lemma conflict_tree_add_routes:
  assumes "\<forall>p \<in> set ps. \<exists>s. decode read_subscription (Value p) = Inr s"
  shows "conflict_tree pick me et tree ps = Inr (add_routes pick tree
    (map (\<lambda>p. (sub_Path (sub_of p), (sub_Space (sub_of p), []))) (filter (\<lambda>p. in_tree me et (sub_of p)) ps)))"
  using assms
proof (induction ps arbitrary: tree)
  case Nil
  then show ?case by (simp add: add_routes_def)
next
  case (Cons p ps)
  then obtain s where s: "decode read_subscription (Value p) = Inr s" by auto
  then have "sub_of p = s" by (simp add: sub_of_def)
  then show ?case using Cons s by (simp add: add_routes_def in_tree_def)
qed

lemma space_prefix:
  assumes "name_chars sp'" and "name_chars sp"
  shows "has_prefix (subscriptionPath sp' i) (spacePath sp) \<longleftrightarrow> sp' = sp"
  using slash_key_prefix [of "CHR ''/''" sp' sp i] assms by (simp add: key_defs name_chars_no_slash)

lemma subscriptions_okE:
  assumes "subscriptions_ok E ec fc sc" and "sc k = Some b"
  obtains s :: subscription where "b = Doc (subscription_json s)" "k = subscriptionPath (sub_Space s) (sub_ID s)"
    "sub_ID s = newSubscriptionID s" "valid_sub E s" "stored_sub sc s"
proof -
  from assms obtain s :: subscription where "b = Doc (subscription_json s)"
    "k = subscriptionPath (sub_Space s) (sub_ID s)" "sub_ID s = newSubscriptionID s" "valid_sub E s"
    unfolding subscriptions_ok_def by blast
  then show thesis using that [of s] assms(2) by (simp add: stored_sub_def)
qed

context config_stores
begin

lemma conflict_check_exact:
  assumes ok: "subscriptions_ok E (ec st) (fc st) (sc st)" "paths_ok (sc st)"
    and list: "(\<exists>ps. kv_List (SubscriptionStore svc) (spacePath sp) st = Inr ps) \<or>
      kv_List (SubscriptionStore svc) (spacePath sp) st = Inl errKeyNotFound"
    and sp: "name_chars sp" and path: "abs_route path"
  shows "checkForPathConflict pick svc sp me path et st = None \<longleftrightarrow>
    route_ok path \<and> (\<forall>s. stored_sub (sc st) s \<longrightarrow> sub_Space s = sp \<longrightarrow> in_tree me et s \<longrightarrow>
      compatible (sub_Path s) path)"
proof -
  define ps where "ps = (case kv_List (SubscriptionStore svc) (spacePath sp) st of Inl _ \<Rightarrow> [] | Inr ps \<Rightarrow> ps)"
  have keys: "distinct (map Key ps)"
    using list S.List_found [of "spacePath sp" st] by (auto simp: ps_def)
  have sound: "sc st (Key p) = Some (Value p) \<and> has_prefix (Key p) (spacePath sp)" if "p \<in> set ps" for p
    using that list S.List_sound [of "spacePath sp" st] by (auto simp: ps_def)
  have complete: "\<exists>p \<in> set ps. Key p = k \<and> Value p = b"
    if "sc st k = Some b" "has_prefix k (spacePath sp)" for k b
    using that list S.List_mem [of "spacePath sp" st _ k b] S.List_missing [of "spacePath sp" st k]
    by (auto simp: ps_def)
  have sub: "decode read_subscription (Value p) = Inr (sub_of p) \<and> stored_sub (sc st) (sub_of p) \<and>
      sub_Space (sub_of p) = sp \<and> Key p = subscriptionPath sp (sub_ID (sub_of p)) \<and> valid_sub E (sub_of p)"
    if p: "p \<in> set ps" for p
  proof -
    obtain s :: subscription where s: "Value p = Doc (subscription_json s)"
      "Key p = subscriptionPath (sub_Space s) (sub_ID s)" "valid_sub E s" "stored_sub (sc st) s"
      using sound [OF p] by (auto elim: subscriptions_okE [OF ok(1)])
    then have "sub_of p = s" "sub_Space s = sp"
      using sound [OF p] space_prefix [OF _ sp] by (auto simp: sub_of_def valid_sub_def)
    then show ?thesis using s by simp
  qed
  let ?l = "map (\<lambda>p. (sub_Path (sub_of p), (sub_Space (sub_of p), [] :: string)))
    (filter (\<lambda>p. in_tree me et (sub_of p)) ps)"
  have "route_ok (sub_Path (sub_of p)) \<and> (\<forall>q \<in> set ps. in_tree me et (sub_of q) \<longrightarrow> p \<noteq> q \<longrightarrow>
      compatible (sub_Path (sub_of p)) (sub_Path (sub_of q)))" if p: "p \<in> set ps" "in_tree me et (sub_of p)" for p
  proof -
    have "sub_ID (sub_of p) \<noteq> sub_ID (sub_of q)" if "q \<in> set ps" "p \<noteq> q" for q
      using keys sub [OF p(1)] sub [OF that(1)] that p(1) by (metis distinct_map inj_on_eq_iff)
    then show ?thesis
      using ok(2) sub p unfolding paths_ok_def same_tree_def in_tree_def by metis
  qed
  then have ad: "admissible (map fst ?l)"
    using keys by (auto simp: admissible_def distinct_map comp_def intro!: inj_onI)
      (metis compatible_irrefl)
  have tree: "conflict_tree pick me et NewNode ps = Inr (add_routes pick NewNode ?l)"
    using sub by (intro conflict_tree_add_routes) blast
  have serves: "serves (add_routes pick NewNode ?l) (fst ` set ?l)"
    using add_routes_serves [OF ad] by blast
  have "fst (AddRoute pick (add_routes pick NewNode ?l) path (sp, [])) = None \<longleftrightarrow>
      route_ok path \<and> (\<forall>q \<in> fst ` set ?l. compatible q path)"
    using AddRoute_facts [OF serves_wf [OF serves] path prod.collapse [symmetric]]
      serves_routable [OF serves path] by blast
  moreover have "(\<forall>q \<in> fst ` set ?l. compatible q path) \<longleftrightarrow>
      (\<forall>s. stored_sub (sc st) s \<longrightarrow> sub_Space s = sp \<longrightarrow> in_tree me et s \<longrightarrow> compatible (sub_Path s) path)"
  proof
    assume l: "\<forall>q \<in> fst ` set ?l. compatible q path"
    show "\<forall>s. stored_sub (sc st) s \<longrightarrow> sub_Space s = sp \<longrightarrow> in_tree me et s \<longrightarrow> compatible (sub_Path s) path"
    proof (intro allI impI)
      fix s :: subscription
      assume s: "stored_sub (sc st) s" "sub_Space s = sp" "in_tree me et s"
      then obtain p where p: "p \<in> set ps" "Value p = Doc (subscription_json s)"
        using complete [of "subscriptionPath sp (sub_ID s)"] space_prefix [OF sp sp]
        by (auto simp: stored_sub_def)
      then have "sub_of p = s" by (simp add: sub_of_def)
      then have "sub_Path s \<in> fst ` set ?l" using p s(3) by force
      then show "compatible (sub_Path s) path" using l by blast
    qed
  next
    assume "\<forall>s. stored_sub (sc st) s \<longrightarrow> sub_Space s = sp \<longrightarrow> in_tree me et s \<longrightarrow> compatible (sub_Path s) path"
    then show "\<forall>q \<in> fst ` set ?l. compatible q path" using sub by auto
  qed
  moreover have "checkForPathConflict pick svc sp me path et st = None \<longleftrightarrow>
      fst (AddRoute pick (add_routes pick NewNode ?l) path (sp, [])) = None"
    unfolding checkForPathConflict_def ps_def [symmetric] tree sum.case
    by (cases "fst (AddRoute pick (add_routes pick NewNode ?l) path (sp, []))") simp_all
  ultimately show ?thesis by (simp only:)
qed

end

subsection \<open>Identifiers\<close>

text \<open>The documented rule of the validator that the identifiers rely on.\<close>

definition eq_rule :: "env \<Rightarrow> bool" where
  "eq_rule E \<longleftrightarrow> (\<forall>a b. v_eq E a b \<longrightarrow> a = b)"

lemma comma_inject:
  "CHR '','' \<notin> set a \<Longrightarrow> CHR '','' \<notin> set a' \<Longrightarrow>
   a @ CHR '','' # b = a' @ CHR '','' # b' \<longleftrightarrow> a = a' \<and> b = b'"
  by (rule slash_key_inject)

lemma PathEscape_no_comma: "CHR '','' \<notin> set (PathEscape p)"
  using PathEscape_no_slash [of "CHR '',''" p] by (auto simp: is_alnum_def is_upper_def is_lower_def is_digit_def)

lemma newSubscriptionID_inject:
  assumes "CHR '','' \<notin> set (sub_EventType s)" "CHR '','' \<notin> set (sub_EventType t)"
    and "CHR '','' \<notin> set (sub_FunctionID s)" "CHR '','' \<notin> set (sub_FunctionID t)"
    and "sub_Type s = TypeAsync \<or> sub_Type s = TypeSync" "sub_Type t = TypeAsync \<or> sub_Type t = TypeSync"
  shows "newSubscriptionID s = newSubscriptionID t \<longleftrightarrow>
    sub_Type s = sub_Type t \<and> sub_EventType s = sub_EventType t \<and> sub_Path s = sub_Path t \<and>
    sub_Method s = sub_Method t \<and> (sub_Type s = TypeAsync \<longrightarrow> sub_FunctionID s = sub_FunctionID t)"
proof -
  have c: "CHR '','' \<notin> set ''async''" "CHR '','' \<notin> set ''sync''" by simp_all
  note inj = comma_inject [OF assms(1,2)] comma_inject [OF assms(3,4)]
    comma_inject [OF PathEscape_no_comma PathEscape_no_comma] PathEscape_inject
  from assms(5,6) show ?thesis
    unfolding newSubscriptionID_def b64_encode_inject by (elim disjE) (auto simp: inj)
qed

text \<open>
  Under the invariant a function identifier of a subscription has no comma, because a function
  of this name exists.
\<close>

lemma stored_sub_facts:
  assumes "config_ok E ec fc sc cc" and "stored_sub sc s" and "eq_rule E"
  shows "CHR '','' \<notin> set (sub_EventType s) \<and> CHR '','' \<notin> set (sub_FunctionID s) \<and>
    (sub_Type s = TypeAsync \<or> sub_Type s = TypeSync) \<and> sub_ID s = newSubscriptionID s \<and> valid_sub E s \<and>
    ec (EventTypeKey (sub_Space s) (sub_EventType s)) \<noteq> None \<and>
    fc (FunctionKey (sub_Space s) (sub_FunctionID s)) \<noteq> None"
proof -
  have s: "sub_ID s = newSubscriptionID s" "valid_sub E s"
    "ec (EventTypeKey (sub_Space s) (sub_EventType s)) \<noteq> None"
    "fc (FunctionKey (sub_Space s) (sub_FunctionID s)) \<noteq> None"
  proof -
    obtain s' :: subscription where "Doc (subscription_json s) = Doc (subscription_json s')"
      "sub_ID s' = newSubscriptionID s'" "valid_sub E s'"
      "ec (EventTypeKey (sub_Space s') (sub_EventType s')) \<noteq> None"
      "fc (FunctionKey (sub_Space s') (sub_FunctionID s')) \<noteq> None"
      using assms(1,2) unfolding config_ok_def subscriptions_ok_def stored_sub_def by blast
    then show "sub_ID s = newSubscriptionID s" "valid_sub E s"
      "ec (EventTypeKey (sub_Space s) (sub_EventType s)) \<noteq> None"
      "fc (FunctionKey (sub_Space s) (sub_FunctionID s)) \<noteq> None"
      by (simp_all add: subscription_json_inject)
  qed
  have fok: "functions_ok fc" using assms(1) by (simp add: config_ok_def)
  obtain b where "fc (FunctionKey (sub_Space s) (sub_FunctionID s)) = Some b" using s(4) by auto
  then obtain f :: func where f: "FunctionKey (sub_Space s) (sub_FunctionID s) = FunctionKey (fn_Space f) (fn_ID f)"
    "name_chars (fn_ID f)"
    using fok unfolding functions_ok_def by blast
  have "sub_FunctionID s = fn_ID f" using function_key_parts [OF fok s(4) f(1)] by simp
  then show ?thesis using s f(2) assms(3)
    by (auto simp: valid_sub_def eq_rule_def dest: name_chars_no_comma)
qed

lemma one_sync_subscription:
  assumes "config_ok E ec fc sc cc" and "eq_rule E" and "stored_sub sc s" and "stored_sub sc t"
    and "same_tree s t" and "sub_Path s = sub_Path t"
  shows "s = t"
proof -
  have "sub_ID s = sub_ID t" "sub_Space s = sub_Space t"
    using stored_sub_facts [OF assms(1,3,2)] stored_sub_facts [OF assms(1,4,2)] assms(5,6)
      newSubscriptionID_inject [of s t] by (simp_all add: same_tree_def)
  then show ?thesis using assms(3,4) by (simp add: stored_sub_def subscription_json_inject)
qed

end
