(* ===== verification/Requests.thy ===== *)
theory Requests
  imports Integrity
begin

section \<open>Runs of the configuration service\<close>

text \<open>
  The twelve writing operations as requests, a run as a sequence of requests, and the
  invariants of theory Integrity over every run. As the HTTP handlers do, the identifier
  of a subscription to update is also written into the subscription.
\<close>

datatype request =
    CreateEventTypeReq event_type
  | UpdateEventTypeReq event_type
  | DeleteEventTypeReq string string
  | CreateFunctionReq func
  | UpdateFunctionReq func
  | DeleteFunctionReq string string
  | CreateSubscriptionReq subscription
  | UpdateSubscriptionReq string subscription
  | DeleteSubscriptionReq string string
  | CreateCORSReq cors
  | UpdateCORSReq cors
  | DeleteCORSReq string string

fun perform :: "(nat \<Rightarrow> nat) \<Rightarrow> env \<Rightarrow> ('st, 'h) service \<Rightarrow> request \<Rightarrow> 'st \<Rightarrow> 'st" where
  "perform pick E svc (CreateEventTypeReq t) st = snd (CreateEventType E svc t st)"
| "perform pick E svc (UpdateEventTypeReq t) st = snd (UpdateEventType E svc t st)"
| "perform pick E svc (DeleteEventTypeReq sp n) st = snd (DeleteEventType svc sp n st)"
| "perform pick E svc (CreateFunctionReq f) st = snd (CreateFunction E svc f st)"
| "perform pick E svc (UpdateFunctionReq f) st = snd (UpdateFunction E svc f st)"
| "perform pick E svc (DeleteFunctionReq sp i) st = snd (DeleteFunction svc sp i st)"
| "perform pick E svc (CreateSubscriptionReq s) st = snd (CreateSubscription pick E svc s st)"
| "perform pick E svc (UpdateSubscriptionReq i s) st = snd (UpdateSubscription E svc i (s\<lparr>sub_ID := i\<rparr>) st)"
| "perform pick E svc (DeleteSubscriptionReq sp i) st = snd (DeleteSubscription svc sp i st)"
| "perform pick E svc (CreateCORSReq c) st = snd (CreateCORS E svc c st)"
| "perform pick E svc (UpdateCORSReq c) st = snd (UpdateCORS E svc c st)"
| "perform pick E svc (DeleteCORSReq sp i) st = snd (DeleteCORS svc sp i st)"

fun run :: "(nat \<Rightarrow> nat) \<Rightarrow> env \<Rightarrow> ('st, 'h) service \<Rightarrow> request list \<Rightarrow> 'st \<Rightarrow> 'st" where
  "run pick E svc [] st = st"
| "run pick E svc (r # rs) st = run pick E svc rs (perform pick E svc r st)"

lemma newSubscriptionID_ID [simp]: "newSubscriptionID (s\<lparr>sub_ID := i\<rparr>) = newSubscriptionID s"
  by (simp add: newSubscriptionID_def)

lemma valid_sub_ID [simp]: "valid_sub E (s\<lparr>sub_ID := i\<rparr>) = valid_sub E s"
  by (simp add: valid_sub_def)

lemma newCORSID_ID [simp]: "newCORSID (c\<lparr>cors_ID := i\<rparr>) = newCORSID c"
  by (simp add: newCORSID_def)

subsection \<open>Every request keeps the configuration consistent\<close>

context config_stores
begin

abbreviation ok :: "env \<Rightarrow> 'st \<Rightarrow> bool" where
  "ok E st \<equiv> config_ok E (ec st) (fc st) (sc st) (cc st)"

lemma ok_same: "view st' = view st \<Longrightarrow> ok E st \<Longrightarrow> ok E st'"
  by (simp add: view_def)

lemma ok_viewD: "view st' = (a, b, c, d) \<Longrightarrow> config_ok E a b c d \<Longrightarrow> ok E st'"
  by (simp add: view_def)

lemma list_subs_unused:
  assumes "ListSubscriptions svc sp [] st = Inr subs"
    and "sc st (subscriptionPath sp i) = Some (Doc (subscription_json s))"
  shows "s \<in> set subs"
  using S.list_complete [of read_subscription sub_Metadata sp st subs i "Doc (subscription_json s)" s] assms
  by (simp add: ListSubscriptions_def key_defs)

lemma list_types_unused:
  assumes "ListEventTypes svc sp [] st = Inr types"
    and "ec st (EventTypeKey sp n) = Some (Doc (event_type_json t))"
  shows "t \<in> set types"
  using E.list_complete [of read_event_type et_Metadata sp st types n "Doc (event_type_json t)" t] assms
  by (simp add: ListEventTypes_def key_defs)

lemma update_keeps_id:
  assumes "subscriptions_ok E ec' fc' (sc st)" and "name_chars (sub_Space s)"
    and "sc st (subscriptionPath (sub_Space s) (sub_ID s)) = Some b" and "decode read_subscription b = Inr old"
    and "validateSubscriptionUpdate s old = None"
  shows "stored_sub (sc st) old \<and> sub_Space old = sub_Space s \<and> sub_ID old = sub_ID s \<and>
    sub_ID s = newSubscriptionID s \<and> ec' (EventTypeKey (sub_Space s) (sub_EventType s)) \<noteq> None"
proof -
  obtain o' :: subscription where o': "b = Doc (subscription_json o')"
    "subscriptionPath (sub_Space s) (sub_ID s) = subscriptionPath (sub_Space o') (sub_ID o')"
    "sub_ID o' = newSubscriptionID o'" "valid_sub E o'" "ec' (EventTypeKey (sub_Space o') (sub_EventType o')) \<noteq> None"
    using assms(1,3) unfolding subscriptions_ok_def by blast
  have "old = o'" using assms(4) o'(1) by simp
  moreover have "sub_Space s = sub_Space o' \<and> sub_ID s = sub_ID o'"
    using o'(2,4) assms(2) slash_key_inject [of "CHR ''/''" "sub_Space s" "sub_Space o'"]
    by (simp add: key_defs valid_sub_def name_chars_no_slash)
  moreover have "newSubscriptionID s = newSubscriptionID o'"
    using assms(5) \<open>old = o'\<close> by (simp add: validateSubscriptionUpdate_None newSubscriptionID_def)
  ultimately show ?thesis
    using o' assms(3,5) by (simp add: stored_sub_def validateSubscriptionUpdate_None)
qed

lemma CreateFunction_ok: "ok E st \<Longrightarrow> CreateFunction E svc f0 st = (r, st') \<Longrightarrow> ok E st'"
  by (drule CreateFunction_effect, elim disjE exE conjE, erule ok_same, assumption,
      erule ok_viewD, rule config_ok_add_function) (auto dest: validateFunction_Inr)

lemma UpdateFunction_ok: "ok E st \<Longrightarrow> UpdateFunction E svc f0 st = (r, st') \<Longrightarrow> ok E st'"
  by (drule UpdateFunction_effect, elim disjE exE conjE, erule ok_same, assumption,
      erule ok_viewD, rule config_ok_add_function) (auto dest: validateFunction_Inr)

lemma CreateEventType_ok: "ok E st \<Longrightarrow> CreateEventType E svc t0 st = (r, st') \<Longrightarrow> ok E st'"
  by (drule CreateEventType_effect, elim disjE exE conjE, erule ok_same, assumption,
      erule ok_viewD, rule config_ok_add_event_type)
    (auto dest: validateEventType_Inr check_authorizer_None)

lemma UpdateEventType_ok: "ok E st \<Longrightarrow> UpdateEventType E svc t0 st = (r, st') \<Longrightarrow> ok E st'"
  by (drule UpdateEventType_effect, elim disjE exE conjE, erule ok_same, assumption,
      erule ok_viewD, rule config_ok_add_event_type)
    (auto dest: validateEventType_Inr check_authorizer_None)

lemma DeleteEventType_ok: "ok E st \<Longrightarrow> DeleteEventType svc sp n st = (r, st') \<Longrightarrow> ok E st'"
  by (drule DeleteEventType_effect, elim disjE exE conjE, erule ok_same, assumption,
      erule ok_viewD, rule config_ok_del_event_type) (auto dest: list_subs_unused)

lemma DeleteFunction_ok: "ok E st \<Longrightarrow> DeleteFunction svc sp i st = (r, st') \<Longrightarrow> ok E st'"
  by (drule DeleteFunction_effect, elim disjE exE conjE, erule ok_same, assumption,
      erule ok_viewD, rule config_ok_del_function) (auto dest: list_subs_unused list_types_unused)

lemma CreateSubscription_ok:
  assumes "ok E st" and "CreateSubscription pick E svc s0 st = (r, st')"
  shows "ok E st'"
  using CreateSubscription_effect [OF assms(2)]
proof (elim disjE exE conjE)
  assume "view st' = view st"
  then show ?thesis using assms(1) by (rule ok_same)
next
  fix s1 s :: subscription
  assume s: "validateSubscription E s0 = Inr s1" "s = s1\<lparr>sub_ID := newSubscriptionID s1\<rparr>"
    "ec st (EventTypeKey (sub_Space s) (sub_EventType s)) \<noteq> None"
    "fc st (FunctionKey (sub_Space s) (sub_FunctionID s)) \<noteq> None"
    "view st' = (ec st, fc st,
      (sc st)(subscriptionPath (sub_Space s) (sub_ID s) \<mapsto> Doc (subscription_json s)), cc st)"
  have "valid_sub E s" "sub_ID s = newSubscriptionID s" using validateSubscription_Inr [OF s(1)] s(2) by simp_all
  then show ?thesis by (intro ok_viewD [OF s(5)] config_ok_put_subscription assms(1) s(3,4))
qed

lemma UpdateSubscription_ok:
  assumes "ok E st" and "UpdateSubscription E svc i s0 st = (r, st')" and "sub_ID s0 = i"
  shows "ok E st'"
  using UpdateSubscription_effect [OF assms(2)]
proof (elim disjE exE conjE)
  assume "view st' = view st"
  then show ?thesis using assms(1) by (rule ok_same)
next
  fix s old :: subscription and b
  assume s: "validateSubscription E s0 = Inr s" "sc st (subscriptionPath (sub_Space s) i) = Some b"
    "decode read_subscription b = Inr old" "validateSubscriptionUpdate s old = None"
    "fc st (FunctionKey (sub_Space s) (sub_FunctionID s)) \<noteq> None"
    "view st' = (ec st, fc st,
      (sc st)(subscriptionPath (sub_Space s) (sub_ID s) \<mapsto> Doc (subscription_json s)), cc st)"
  have v: "valid_sub E s" "sub_ID s = i" using validateSubscription_Inr [OF s(1)] assms(3) by simp_all
  have "sub_ID s = newSubscriptionID s \<and> ec st (EventTypeKey (sub_Space s) (sub_EventType s)) \<noteq> None"
    using update_keeps_id [of E "ec st" "fc st" st s b old] assms(1) s v
    by (simp add: config_ok_def valid_sub_def)
  then show ?thesis by (intro ok_viewD [OF s(6)] config_ok_put_subscription assms(1) v s(5)) simp_all
qed

lemma DeleteSubscription_ok: "ok E st \<Longrightarrow> DeleteSubscription svc sp i st = (r, st') \<Longrightarrow> ok E st'"
  by (drule DeleteSubscription_effect, elim disjE, erule ok_same, assumption,
      erule ok_viewD, rule config_ok_del_subscription)

lemma CreateCORS_ok: "ok E st \<Longrightarrow> CreateCORS E svc c0 st = (r, st') \<Longrightarrow> ok E st'"
  by (drule CreateCORS_effect, elim disjE exE conjE, erule ok_same, assumption,
      erule ok_viewD, rule config_ok_put_cors) (auto dest: validateCORS_Inr)

lemma UpdateCORS_ok:
  assumes "ok E st" and "UpdateCORS E svc c0 st = (r, st')"
  shows "ok E st'"
  using UpdateCORS_effect [OF assms(2)]
proof (elim disjE exE conjE)
  assume "view st' = view st"
  then show ?thesis using assms(1) by (rule ok_same)
next
  fix c old :: cors and b
  assume c: "validateCORS E c0 = Inr c" "cc st (CORSKey (cors_Space c) (cors_ID c)) = Some b"
    "decode read_cors b = Inr old" "validateCORSUpdate c old = None"
    "view st' = (ec st, fc st, sc st, (cc st)(CORSKey (cors_Space c) (cors_ID c) \<mapsto> Doc (cors_json c)))"
  note v = validateCORS_Inr [OF c(1)]
  obtain d :: cors where d: "b = Doc (cors_json d)" "CORSKey (cors_Space c) (cors_ID c) = CORSKey (cors_Space d) (cors_ID d)"
    "cors_ID d = newCORSID d" "name_chars (cors_Space d)"
    using assms(1) c(2) unfolding config_ok_def corses_ok_def by blast
  have "cors_ID c = cors_ID d"
    using d(2,4) v slash_key_inject [of "CHR ''/''" "cors_Space c" "cors_Space d"]
    by (simp add: key_defs name_chars_no_slash)
  moreover have "newCORSID c = newCORSID d"
    using c(3,4) d(1) by (simp add: validateCORSUpdate_def newCORSID_def split: if_splits)
  ultimately show ?thesis
    using v d(3) by (intro ok_viewD [OF c(5)] config_ok_put_cors assms(1)) auto
qed

lemma DeleteCORS_ok: "ok E st \<Longrightarrow> DeleteCORS svc sp i st = (r, st') \<Longrightarrow> ok E st'"
  by (drule DeleteCORS_effect, elim disjE, erule ok_same, assumption, erule ok_viewD, rule config_ok_del_cors)

lemmas operations_ok = CreateFunction_ok UpdateFunction_ok CreateEventType_ok UpdateEventType_ok
  DeleteEventType_ok DeleteFunction_ok CreateSubscription_ok UpdateSubscription_ok
  DeleteSubscription_ok CreateCORS_ok UpdateCORS_ok DeleteCORS_ok

lemma perform_ok: "ok E st \<Longrightarrow> ok E (perform pick E svc q st)"
  by (cases q) (auto intro: operations_ok [OF _ prod.collapse [symmetric]])

lemma run_ok: "ok E st \<Longrightarrow> ok E (run pick E svc qs st)"
  by (induction qs arbitrary: st) (simp_all add: perform_ok)

end

subsection \<open>Every request keeps the sync paths compatible\<close>

lemma paths_ok_subset:
  "paths_ok sc \<Longrightarrow> (\<And>s. stored_sub sc' s \<Longrightarrow> stored_sub sc s) \<Longrightarrow> paths_ok sc'"
  unfolding paths_ok_def by blast

text \<open>An update may change what is stored under an identifier, but not where it routes.\<close>

lemma paths_ok_replace:
  assumes "paths_ok sc" and "stored_sub sc old"
    and "sub_Space s = sub_Space old" "sub_ID s = sub_ID old" "sub_Type s = sub_Type old"
      "sub_EventType s = sub_EventType old" "sub_Path s = sub_Path old" "sub_Method s = sub_Method old"
  shows "paths_ok (sc(subscriptionPath (sub_Space s) (sub_ID s) \<mapsto> Doc (subscription_json s)))"
proof -
  let ?sc = "sc(subscriptionPath (sub_Space s) (sub_ID s) \<mapsto> Doc (subscription_json s))"
  have "\<exists>t'. stored_sub sc t' \<and> sub_Space t' = sub_Space t \<and> sub_ID t' = sub_ID t \<and> sub_Type t' = sub_Type t \<and>
      sub_EventType t' = sub_EventType t \<and> sub_Path t' = sub_Path t \<and> sub_Method t' = sub_Method t"
    if t: "stored_sub ?sc t" for t :: subscription
  proof (cases "subscriptionPath (sub_Space t) (sub_ID t) = subscriptionPath (sub_Space s) (sub_ID s)")
    case True
    then have "t = s" using t by (simp add: stored_sub_def subscription_json_inject)
    then show ?thesis using assms by metis
  next
    case False
    then show ?thesis using t by (auto simp: stored_sub_def)
  qed
  then show ?thesis using assms(1) unfolding paths_ok_def same_tree_def by metis
qed

lemma same_tree_refl: "same_tree a b \<Longrightarrow> same_tree a a"
  by (simp add: same_tree_def)

lemma paths_ok_add:
  assumes "paths_ok sc" and "sc (subscriptionPath (sub_Space s) (sub_ID s)) = None"
    and sync: "sub_Type s = TypeSync \<Longrightarrow> route_ok (sub_Path s) \<and> (\<forall>t. stored_sub sc t \<longrightarrow>
      sub_Space t = sub_Space s \<longrightarrow> in_tree (sub_Method s) (sub_EventType s) t \<longrightarrow>
      compatible (sub_Path t) (sub_Path s))"
  shows "paths_ok (sc(subscriptionPath (sub_Space s) (sub_ID s) \<mapsto> Doc (subscription_json s)))"
proof -
  let ?sc = "sc(subscriptionPath (sub_Space s) (sub_ID s) \<mapsto> Doc (subscription_json s))"
  have new: "t = s \<or> stored_sub sc t" if t: "stored_sub ?sc t" for t :: subscription
    using t by (cases "subscriptionPath (sub_Space t) (sub_ID t) = subscriptionPath (sub_Space s) (sub_ID s)")
      (auto simp: stored_sub_def subscription_json_inject)
  have s: "route_ok (sub_Path s) \<and> compatible (sub_Path t) (sub_Path s)"
    if "stored_sub sc t" "same_tree s t \<or> same_tree t s" for t :: subscription
    using sync that by (auto simp: same_tree_def in_tree_def)
  show ?thesis unfolding paths_ok_def
  proof (intro allI impI)
    fix a b :: subscription
    assume ab: "stored_sub ?sc a" "stored_sub ?sc b" "same_tree a b"
    show "route_ok (sub_Path a) \<and> (sub_ID a \<noteq> sub_ID b \<longrightarrow> compatible (sub_Path a) (sub_Path b))"
    proof (cases "a = s \<and> b = s")
      case True
      then show ?thesis using sync ab(3) by (simp add: same_tree_def)
    next
      case False
      then show ?thesis
        using new [OF ab(1)] new [OF ab(2)] ab(3) same_tree_refl [OF ab(3)] s assms(1)
        unfolding paths_ok_def by (meson compatible_sym)
    qed
  qed
qed

context listing_config_stores
begin

lemma view_sc: "view st' = (a, b, c, d) \<Longrightarrow> sc st' = c"
  by (simp add: view_def)

lemma paths_same: "view st' = view st \<Longrightarrow> paths_ok (sc st) \<Longrightarrow> paths_ok (sc st')"
  by (simp add: view_def)

lemma CreateSubscription_paths:
  assumes "ok E st" "paths_ok (sc st)" and "CreateSubscription pick E svc s0 st = (r, st')"
  shows "paths_ok (sc st')"
  using CreateSubscription_effect [OF assms(3)]
proof (elim disjE exE conjE)
  assume "view st' = view st"
  then show ?thesis using assms(2) by (rule paths_same)
next
  fix s1 s :: subscription
  assume s: "validateSubscription E s0 = Inr s1" "s = s1\<lparr>sub_ID := newSubscriptionID s1\<rparr>"
    "sc st (subscriptionPath (sub_Space s) (sub_ID s)) = None"
    "sub_Type s = TypeSync \<longrightarrow> checkForPathConflict pick svc (sub_Space s) (sub_Method s) (sub_Path s)
       (sub_EventType s) st = None"
    "view st' = (ec st, fc st,
      (sc st)(subscriptionPath (sub_Space s) (sub_ID s) \<mapsto> Doc (subscription_json s)), cc st)"
  have v: "valid_sub E s" using validateSubscription_Inr [OF s(1)] s(2) by simp
  show ?thesis unfolding view_sc [OF s(5)]
  proof (rule paths_ok_add [OF assms(2) s(3)])
    assume "sub_Type s = TypeSync"
    then show "route_ok (sub_Path s) \<and> (\<forall>t. stored_sub (sc st) t \<longrightarrow>
      sub_Space t = sub_Space s \<longrightarrow> in_tree (sub_Method s) (sub_EventType s) t \<longrightarrow>
      compatible (sub_Path t) (sub_Path s))"
      using s(4) conflict_check_exact [of E st "sub_Space s" "sub_Path s" pick "sub_Method s" "sub_EventType s"]
        answers_listsD [OF lists spacePath_not_Nil, of "sub_Space s" st] assms(1,2) v
      by (simp add: config_ok_def valid_sub_def)
  qed
qed

lemma UpdateSubscription_paths:
  assumes "ok E st" "paths_ok (sc st)" and "UpdateSubscription E svc i s0 st = (r, st')" and "sub_ID s0 = i"
  shows "paths_ok (sc st')"
  using UpdateSubscription_effect [OF assms(3)]
proof (elim disjE exE conjE)
  assume "view st' = view st"
  then show ?thesis using assms(2) by (rule paths_same)
next
  fix s old :: subscription and b
  assume s: "validateSubscription E s0 = Inr s" "sc st (subscriptionPath (sub_Space s) i) = Some b"
    "decode read_subscription b = Inr old" "validateSubscriptionUpdate s old = None"
    "view st' = (ec st, fc st,
      (sc st)(subscriptionPath (sub_Space s) (sub_ID s) \<mapsto> Doc (subscription_json s)), cc st)"
  have v: "valid_sub E s" "sub_ID s = i" using validateSubscription_Inr [OF s(1)] assms(4) by simp_all
  have "stored_sub (sc st) old \<and> sub_Space old = sub_Space s \<and> sub_ID old = sub_ID s"
    using update_keeps_id [of E "ec st" "fc st" st s b old] assms(1) s v
    by (simp add: config_ok_def valid_sub_def)
  then show ?thesis
    using s(4) unfolding view_sc [OF s(5)] validateSubscriptionUpdate_None
    by (intro paths_ok_replace [OF assms(2), of old]) simp_all
qed

lemma DeleteSubscription_paths:
  assumes "paths_ok (sc st)" and "DeleteSubscription svc sp i st = (r, st')"
  shows "paths_ok (sc st')"
  using DeleteSubscription_effect [OF assms(2)]
proof (elim disjE)
  assume "view st' = view st"
  then show ?thesis using assms(1) by (rule paths_same)
next
  assume "view st' = (ec st, fc st, (sc st)(subscriptionPath sp i := None), cc st)"
  then show ?thesis unfolding view_sc
    by (intro paths_ok_subset [OF assms(1)]) (auto simp: stored_sub_def view_def split: if_splits)
qed

text \<open>The other operations do not touch the subscriptions.\<close>

lemma others_keep_sc:
  "CreateFunction E svc f0 st = (r1, st') \<Longrightarrow> sc st' = sc st"
  "UpdateFunction E svc f0 st = (r1, st') \<Longrightarrow> sc st' = sc st"
  "CreateEventType E svc t0 st = (r2, st') \<Longrightarrow> sc st' = sc st"
  "UpdateEventType E svc t0 st = (r2, st') \<Longrightarrow> sc st' = sc st"
  "DeleteEventType svc sp i st = (r3, st') \<Longrightarrow> sc st' = sc st"
  "DeleteFunction svc sp i st = (r3, st') \<Longrightarrow> sc st' = sc st"
  "CreateCORS E svc c0 st = (r4, st') \<Longrightarrow> sc st' = sc st"
  "UpdateCORS E svc c0 st = (r4, st') \<Longrightarrow> sc st' = sc st"
  "DeleteCORS svc sp i st = (r3, st') \<Longrightarrow> sc st' = sc st"
  using CreateFunction_effect [of E f0 st r1 st'] UpdateFunction_effect [of E f0 st r1 st']
    CreateEventType_effect [of E t0 st r2 st'] UpdateEventType_effect [of E t0 st r2 st']
    DeleteEventType_effect [of sp i st r3 st'] DeleteFunction_effect [of sp i st r3 st']
    CreateCORS_effect [of E c0 st r4 st'] UpdateCORS_effect [of E c0 st r4 st']
    DeleteCORS_effect [of sp i st r3 st']
  by (auto simp: view_def)

lemma perform_paths:
  assumes "ok E st" "paths_ok (sc st)"
  shows "paths_ok (sc (perform pick E svc q st))"
proof (cases q)
  case (CreateSubscriptionReq s)
  then show ?thesis using CreateSubscription_paths [OF assms prod.collapse [symmetric]] by simp
next
  case (UpdateSubscriptionReq i s)
  then show ?thesis by (simp add: UpdateSubscription_paths [OF assms prod.collapse [symmetric]])
next
  case (DeleteSubscriptionReq sp i)
  then show ?thesis using DeleteSubscription_paths [OF assms(2) prod.collapse [symmetric]] by simp
qed (simp_all add: others_keep_sc [OF prod.collapse [symmetric]] assms(2))

lemma run_paths: "ok E st \<Longrightarrow> paths_ok (sc st) \<Longrightarrow> paths_ok (sc (run pick E svc qs st))"
  by (induction qs arbitrary: st) (simp_all add: perform_ok perform_paths)

end

end
