(* ===== verification/ServiceFacts.thy ===== *)
theory ServiceFacts
  imports Requests
begin

section \<open>What the services answer\<close>

text \<open>
  The results of the operations on stores that answer (\<open>reliable_config_stores\<close>) and a
  consistent configuration: lists are exact, what was created is found, creating it again is
  refused, and each deletion is refused exactly when something still refers to the entity.
\<close>

subsection \<open>Lists\<close>

lemma list_loop_total:
  assumes "\<forall>p \<in> set ps. \<exists>x. decode rd (Value p) = Inr x"
  shows "\<exists>xs. list_loop rd md fs ps = Inr xs \<and>
    set xs = {x. metadata_Check (md x) fs \<and> (\<exists>p \<in> set ps. decode rd (Value p) = Inr x)}"
  using assms
proof (induction ps)
  case Nil
  then show ?case by simp
next
  case (Cons p ps)
  then obtain x xs where "decode rd (Value p) = Inr x" "list_loop rd md fs ps = Inr xs"
    "set xs = {x. metadata_Check (md x) fs \<and> (\<exists>p \<in> set ps. decode rd (Value p) = Inr x)}"
    by auto
  then show ?case by auto
qed

definition stored_type :: "(string \<Rightarrow> blob option) \<Rightarrow> event_type \<Rightarrow> bool" where
  "stored_type ec t \<longleftrightarrow> ec (EventTypeKey (et_Space t) (et_Name t)) = Some (Doc (event_type_json t))"

definition stored_cors :: "(string \<Rightarrow> blob option) \<Rightarrow> cors \<Rightarrow> bool" where
  "stored_cors cc c \<longleftrightarrow> cc (CORSKey (cors_Space c) (cors_ID c)) = Some (Doc (cors_json c))"

text \<open>A function is what its document decodes to; the API stores only documents that decode.\<close>

definition stored_function :: "env \<Rightarrow> (string \<Rightarrow> blob option) \<Rightarrow> func \<Rightarrow> bool" where
  "stored_function E fc f \<longleftrightarrow> (\<exists>b. fc (FunctionKey (fn_Space f) (fn_ID f)) = Some b \<and> decode (read_func E) b = Inr f)"

definition all_loaded :: "env \<Rightarrow> (string \<Rightarrow> blob option) \<Rightarrow> bool" where
  "all_loaded E fc \<longleftrightarrow> (\<forall>k b. fc k = Some b \<longrightarrow> (\<exists>f. decode (read_func E) b = Inr f))"

lemma read_func_key: "read_func E (func_json f0) = Inr f \<Longrightarrow> fn_Space f = fn_Space f0 \<and> fn_ID f = fn_ID f0"
  unfolding func_json_def read_func_def json_members_def
  by (auto simp: json_read_defs json_fields split: sum.splits if_splits option.splits)

lemma key_prefixes:
  "name_chars a \<Longrightarrow> name_chars sp \<Longrightarrow> has_prefix (EventTypeKey a n) (spacePath sp) \<longleftrightarrow> a = sp"
  "name_chars a \<Longrightarrow> name_chars sp \<Longrightarrow> has_prefix (FunctionKey a n) (spacePath sp) \<longleftrightarrow> a = sp"
  "name_chars a \<Longrightarrow> name_chars sp \<Longrightarrow> has_prefix (CORSKey a n) (spacePath sp) \<longleftrightarrow> a = sp"
  using slash_key_prefix [of "CHR ''/''" a sp n] by (simp_all add: key_defs name_chars_no_slash)

context reliable_kv_store
begin

lemma list_exact:
  assumes "\<And>k b. contents st k = Some b \<Longrightarrow> has_prefix k (spacePath sp) \<Longrightarrow> \<exists>x. decode rd b = Inr x"
  shows "\<exists>xs. list_entities rd md fs (kv_List kv (spacePath sp) st) = Inr xs \<and>
    set xs = {x. metadata_Check (md x) fs \<and>
      (\<exists>k b. contents st k = Some b \<and> has_prefix k (spacePath sp) \<and> decode rd b = Inr x)}"
proof (cases "kv_List kv (spacePath sp) st")
  case (Inl e)
  then have e: "e = errKeyNotFound" using List_ok [of "spacePath sp" st] by auto
  then have "contents st k = None" if "has_prefix k (spacePath sp)" for k
    using List_missing [of "spacePath sp" st k] Inl that by simp
  then show ?thesis using Inl e by (auto simp: list_entities_def)
next
  case (Inr ps)
  have mem: "(\<exists>p \<in> set ps. Value p = b) \<longleftrightarrow> (\<exists>k. contents st k = Some b \<and> has_prefix k (spacePath sp))" for b
    using List_sound [OF spacePath_not_Nil Inr] List_mem [OF spacePath_not_Nil Inr] by metis
  then have "\<forall>p \<in> set ps. \<exists>x. decode rd (Value p) = Inr x" using assms by blast
  from list_loop_total [OF this, of md fs] obtain xs where xs: "list_loop rd md fs ps = Inr xs"
    "set xs = {x. metadata_Check (md x) fs \<and> (\<exists>p \<in> set ps. decode rd (Value p) = Inr x)}" by blast
  have "(\<exists>p \<in> set ps. decode rd (Value p) = Inr x) \<longleftrightarrow>
      (\<exists>k b. contents st k = Some b \<and> has_prefix k (spacePath sp) \<and> decode rd b = Inr x)" for x
    using mem by metis
  then show ?thesis using Inr xs by (simp add: list_entities_def)
qed

text \<open>A list of a directory whose entries decode and lie under the keys of what they decode to.\<close>

lemma list_of_space:
  assumes "\<And>k b. contents st k = Some b \<Longrightarrow> \<exists>x. decode rd b = Inr x \<and> k = key x \<and> name_chars (space x)"
    and "\<And>x. name_chars (space x) \<Longrightarrow> has_prefix (key x) (spacePath sp) \<longleftrightarrow> space x = sp"
  shows "\<exists>xs. list_entities rd md fs (kv_List kv (spacePath sp) st) = Inr xs \<and>
    set xs = {x. (\<exists>b. contents st (key x) = Some b \<and> decode rd b = Inr x) \<and> space x = sp \<and> metadata_Check (md x) fs}"
proof -
  have "(\<exists>k b. contents st k = Some b \<and> has_prefix k (spacePath sp) \<and> decode rd b = Inr x) \<longleftrightarrow>
      (\<exists>b. contents st (key x) = Some b \<and> decode rd b = Inr x) \<and> space x = sp" for x
    using assms by (metis sum.inject(2))
  then show ?thesis using list_exact [of st sp rd md fs] assms(1) by (simp add: conj_ac) blast
qed

end

context reliable_config_stores
begin

lemma ListSubscriptions_exact:
  assumes "ok E st" and "name_chars sp"
  shows "\<exists>subs. ListSubscriptions svc sp fs st = Inr subs \<and>
    set subs = {s. stored_sub (sc st) s \<and> sub_Space s = sp \<and> metadata_Check (sub_Metadata s) fs}"
proof -
  have entry: "\<exists>s. b = Doc (subscription_json s) \<and> k = subscriptionPath (sub_Space s) (sub_ID s) \<and> name_chars (sub_Space s)"
    if "sc st k = Some b" for k b
    using assms(1) that unfolding config_ok_def subscriptions_ok_def valid_sub_def by blast
  have "stored_sub (sc st) s \<longleftrightarrow> (\<exists>b. sc st (subscriptionPath (sub_Space s) (sub_ID s)) = Some b \<and> decode read_subscription b = Inr s)"
    for s using entry by (fastforce simp: stored_sub_def)
  then show ?thesis
    using RS.list_of_space [of st read_subscription "\<lambda>s. subscriptionPath (sub_Space s) (sub_ID s)" sub_Space sp sub_Metadata fs]
      entry space_prefix [OF _ assms(2)] by (fastforce simp: ListSubscriptions_def)
qed

lemma ListEventTypes_exact:
  assumes "ok E st" and "name_chars sp"
  shows "\<exists>types. ListEventTypes svc sp fs st = Inr types \<and>
    set types = {t. stored_type (ec st) t \<and> et_Space t = sp \<and> metadata_Check (et_Metadata t) fs}"
proof -
  have entry: "\<exists>t. b = Doc (event_type_json t) \<and> k = EventTypeKey (et_Space t) (et_Name t) \<and> name_chars (et_Space t)"
    if "ec st k = Some b" for k b
    using assms(1) that unfolding config_ok_def event_types_ok_def by blast
  have "stored_type (ec st) t \<longleftrightarrow> (\<exists>b. ec st (EventTypeKey (et_Space t) (et_Name t)) = Some b \<and> decode read_event_type b = Inr t)"
    for t using entry by (fastforce simp: stored_type_def)
  then show ?thesis
    using RE.list_of_space [of st read_event_type "\<lambda>t. EventTypeKey (et_Space t) (et_Name t)" et_Space sp et_Metadata fs]
      entry key_prefixes(1) [OF _ assms(2)] by (fastforce simp: ListEventTypes_def)
qed

lemma ListFunctions_exact:
  assumes "ok E st" and "all_loaded E (fc st)" and "name_chars sp"
  shows "\<exists>funs. ListFunctions E svc sp fs st = Inr funs \<and>
    set funs = {f. stored_function E (fc st) f \<and> fn_Space f = sp \<and> metadata_Check (fn_Metadata f) fs}"
proof -
  have entry: "\<exists>f. decode (read_func E) b = Inr f \<and> k = FunctionKey (fn_Space f) (fn_ID f) \<and> name_chars (fn_Space f)"
    if k: "fc st k = Some b" for k b
  proof -
    obtain f0 where f0: "b = Doc (func_json f0)" "k = FunctionKey (fn_Space f0) (fn_ID f0)" "name_chars (fn_Space f0)"
      using assms(1) k unfolding config_ok_def functions_ok_def by blast
    obtain f where "decode (read_func E) b = Inr f" using assms(2) k unfolding all_loaded_def by blast
    then show ?thesis using f0 read_func_key [of E f0 f] by simp
  qed
  then show ?thesis
    using RF.list_of_space [of st "read_func E" "\<lambda>f. FunctionKey (fn_Space f) (fn_ID f)" fn_Space sp fn_Metadata fs]
      key_prefixes(2) [OF _ assms(3)] by (simp add: ListFunctions_def stored_function_def)
qed

lemma ListCORS_exact:
  assumes "ok E st" and "name_chars sp"
  shows "\<exists>corses. ListCORS svc sp fs st = Inr corses \<and>
    set corses = {c. stored_cors (cc st) c \<and> cors_Space c = sp \<and> metadata_Check (cors_Metadata c) fs}"
proof -
  have entry: "\<exists>c. b = Doc (cors_json c) \<and> k = CORSKey (cors_Space c) (cors_ID c) \<and> name_chars (cors_Space c)"
    if "cc st k = Some b" for k b
    using assms(1) that unfolding config_ok_def corses_ok_def by blast
  have "stored_cors (cc st) c \<longleftrightarrow> (\<exists>b. cc st (CORSKey (cors_Space c) (cors_ID c)) = Some b \<and> decode read_cors b = Inr c)"
    for c using entry by (fastforce simp: stored_cors_def)
  then show ?thesis
    using RC.list_of_space [of st read_cors "\<lambda>c. CORSKey (cors_Space c) (cors_ID c)" cors_Space sp cors_Metadata fs]
      entry key_prefixes(3) [OF _ assms(2)] by (fastforce simp: ListCORS_def)
qed

subsection \<open>Deleting\<close>

lemma DeleteEventType_outcome:
  assumes "ok E st" and "name_chars sp"
  shows "fst (DeleteEventType svc sp n st) =
    (if \<exists>s. stored_sub (sc st) s \<and> sub_Space s = sp \<and> sub_EventType s = n then Some ErrEventTypeHasSubscriptions
     else if \<exists>e. fst (kv_Delete (EventTypeStore svc) (EventTypeKey sp n) st) = Some e then Some (ErrEventTypeNotFound n)
     else None)"
proof -
  obtain subs where "ListSubscriptions svc sp [] st = Inr subs"
    "set subs = {s. stored_sub (sc st) s \<and> sub_Space s = sp}"
    using ListSubscriptions_exact [OF assms, of "[]"] by auto
  then show ?thesis
    by (auto simp: DeleteEventType_def list_ex_iff split: prod.splits option.splits)
qed

lemma DeleteFunction_outcome:
  assumes "ok E st" and "name_chars sp"
  shows "(fst (DeleteFunction svc sp i st) = Some ErrFunctionHasSubscriptions \<longleftrightarrow>
      (\<exists>s. stored_sub (sc st) s \<and> sub_Space s = sp \<and> sub_FunctionID s = i)) \<and>
    ((\<exists>t. fst (DeleteFunction svc sp i st) = Some (ErrFunctionIsAuthorizer i t)) \<longleftrightarrow>
      (\<nexists>s. stored_sub (sc st) s \<and> sub_Space s = sp \<and> sub_FunctionID s = i) \<and>
      (\<exists>t. stored_type (ec st) t \<and> et_Space t = sp \<and> et_AuthorizerID t = Some i)) \<and>
    (fst (DeleteFunction svc sp i st) = None \<longrightarrow>
      fc (snd (DeleteFunction svc sp i st)) (FunctionKey sp i) = None \<and> fc st (FunctionKey sp i) \<noteq> None) \<and>
    (fc st (FunctionKey sp i) \<noteq> None \<longrightarrow>
      (\<nexists>s. stored_sub (sc st) s \<and> sub_Space s = sp \<and> sub_FunctionID s = i) \<longrightarrow>
      (\<nexists>t. stored_type (ec st) t \<and> et_Space t = sp \<and> et_AuthorizerID t = Some i) \<longrightarrow>
      fst (DeleteFunction svc sp i st) = None)"
proof -
  obtain subs where subs: "ListSubscriptions svc sp [] st = Inr subs"
    "set subs = {s. stored_sub (sc st) s \<and> sub_Space s = sp}"
    using ListSubscriptions_exact [OF assms, of "[]"] by auto
  obtain types where types: "ListEventTypes svc sp [] st = Inr types"
    "set types = {t. stored_type (ec st) t \<and> et_Space t = sp}"
    using ListEventTypes_exact [OF assms, of "[]"] by auto
  show ?thesis
  proof (cases "list_ex (\<lambda>s. i = sub_FunctionID s) subs")
    case True
    then show ?thesis using subs by (auto simp: DeleteFunction_def list_ex_iff)
  next
    case no_sub: False
    then have ns: "\<nexists>s. stored_sub (sc st) s \<and> sub_Space s = sp \<and> sub_FunctionID s = i"
      using subs(2) by (auto simp: list_ex_iff)
    show ?thesis
    proof (cases "find (\<lambda>t. et_AuthorizerID t = Some i) types")
      case (Some t)
      then have "t \<in> set types" "et_AuthorizerID t = Some i" by (auto simp: find_Some_iff)
      then show ?thesis using ns no_sub subs(1) types Some by (auto simp: DeleteFunction_def)
    next
      case None
      then have "\<nexists>t. stored_type (ec st) t \<and> et_Space t = sp \<and> et_AuthorizerID t = Some i"
        using types(2) by (auto simp: find_None_iff)
      moreover obtain e st' where d: "kv_Delete (FunctionStore svc) (FunctionKey sp i) st = (e, st')" by fastforce
      have "DeleteFunction svc sp i st = (case e of Some _ \<Rightarrow> (Some (ErrFunctionNotFound i), st') | None \<Rightarrow> (None, st'))"
        using no_sub subs(1) types(1) None d by (simp add: DeleteFunction_def)
      moreover have "e = None \<Longrightarrow> fc st' (FunctionKey sp i) = None \<and> fc st (FunctionKey sp i) \<noteq> None"
        using F.Delete_ok [of "FunctionKey sp i" st st'] d by simp
      moreover have "fc st (FunctionKey sp i) = None" if "e = Some x" for x
        using RF.Delete_works [of st "FunctionKey sp i"] d that by (cases "fc st (FunctionKey sp i)") auto
      ultimately show ?thesis using ns by (cases e) auto
    qed
  qed
qed

end

subsection \<open>Creating\<close>

context reliable_config_stores
begin

lemma CreateFunction_Inr:
  assumes "CreateFunction E svc f0 st = (Inr f, st')"
  shows "validateFunction E f0 = Inr f \<and> fc st' (FunctionKey (fn_Space f) (fn_ID f)) = Some (Doc (func_json f))"
  using assms unfolding CreateFunction_def
  by (auto split: sum.splits prod.splits dest!: F.AtomicPut_ok)

lemma CreateEventType_Inr:
  assumes "CreateEventType E svc t0 st = (Inr t, st')"
  shows "validateEventType E t0 = Inr t \<and>
    ec st' (EventTypeKey (et_Space t) (et_Name t)) = Some (Doc (event_type_json t))"
  using assms unfolding CreateEventType_def
  by (auto split: sum.splits prod.splits option.splits dest!: E.AtomicPut_ok)

lemma CreateSubscription_Inr:
  assumes "CreateSubscription pick E svc s0 st = (Inr s, st')"
  shows "(\<exists>s1. validateSubscription E s0 = Inr s1 \<and> s = s1\<lparr>sub_ID := newSubscriptionID s1\<rparr>) \<and>
    stored_sub (sc st') s"
  using assms unfolding CreateSubscription_def Let_def stored_sub_def
  by (auto split: sum.splits prod.splits option.splits if_splits dest!: S.AtomicPut_ok)

lemma CreateCORS_Inr:
  assumes "CreateCORS E svc c0 st = (Inr c, st')"
  shows "(\<exists>c1. validateCORS E c0 = Inr c1 \<and> c = c1\<lparr>cors_ID := newCORSID c1\<rparr>) \<and>
    cc st' (CORSKey (cors_Space c) (cors_ID c)) = Some (Doc (cors_json c))"
  using assms unfolding CreateCORS_def Let_def
  by (auto split: sum.splits prod.splits option.splits dest!: C.Put_ok)

lemma Get_stored:
  "fc st (FunctionKey sp i) = Some b \<Longrightarrow> GetFunction E svc sp i st = decode (read_func E) b"
  "ec st (EventTypeKey sp n) = Some b \<Longrightarrow> GetEventType svc sp n st = decode read_event_type b"
  "sc st (subscriptionPath sp i) = Some b \<Longrightarrow> GetSubscription svc sp i st = decode read_subscription b"
  "cc st (CORSKey sp i) = Some b \<Longrightarrow> GetCORS svc sp i st = decode read_cors b"
  using RF.Get_ok [of st "FunctionKey sp i" b] F.Get_found [of "FunctionKey sp i" st]
    RE.Get_ok [of st "EventTypeKey sp n" b] E.Get_found [of "EventTypeKey sp n" st]
    RS.Get_ok [of st "subscriptionPath sp i" b] S.Get_found [of "subscriptionPath sp i" st]
    RC.Get_ok [of st "CORSKey sp i" b] C.Get_found [of "CORSKey sp i" st]
  by (auto simp: GetFunction_def GetEventType_def GetSubscription_def GetCORS_def)

lemma Get_absent:
  "fc st (FunctionKey sp i) = None \<Longrightarrow> GetFunction E svc sp i st = Inl (ErrFunctionNotFound i)"
  "ec st (EventTypeKey sp n) = None \<Longrightarrow> GetEventType svc sp n st = Inl (ErrEventTypeNotFound n)"
  "sc st (subscriptionPath sp i) = None \<Longrightarrow> GetSubscription svc sp i st = Inl (ErrSubscriptionNotFound i)"
  "cc st (CORSKey sp i) = None \<Longrightarrow> GetCORS svc sp i st = Inl (ErrCORSNotFound i)"
  by (simp_all add: GetFunction_def GetEventType_def GetSubscription_def GetCORS_def get_error_def
      RF.Get_none RE.Get_none RS.Get_none RC.Get_none)

lemma create_then_get:
  "CreateFunction E svc f0 st = (Inr f, st1) \<Longrightarrow> loaded E f0 \<Longrightarrow>
     GetFunction E svc (fn_Space f) (fn_ID f) st1 = Inr f"
  "CreateEventType E svc t0 st = (Inr t, st1) \<Longrightarrow> GetEventType svc (et_Space t) (et_Name t) st1 = Inr t"
  "CreateSubscription pick E svc s0 st = (Inr s, st1) \<Longrightarrow>
     GetSubscription svc (sub_Space s) (sub_ID s) st1 = Inr s"
  "CreateCORS E svc c0 st = (Inr c, st1) \<Longrightarrow> GetCORS svc (cors_Space c) (cors_ID c) st1 = Inr c"
  using CreateFunction_Inr [of E f0 st f st1] CreateEventType_Inr [of E t0 st t st1]
    CreateSubscription_Inr [of pick E s0 st s st1] CreateCORS_Inr [of E c0 st c st1]
    validateFunction_Inr [of E f0 f]
  by (auto simp: Get_stored read_func_json stored_sub_def)

lemma create_again:
  "CreateFunction E svc f0 st = (Inr f, st1) \<Longrightarrow>
     CreateFunction E svc f0 st1 = (Inl (ErrFunctionAlreadyRegistered (fn_ID f)), st1)"
  "CreateEventType E svc t0 st = (Inr t, st1) \<Longrightarrow>
     CreateEventType E svc t0 st1 = (Inl (ErrEventTypeAlreadyExists (et_Name t)), st1)"
  "CreateSubscription pick E svc s0 st = (Inr s, st1) \<Longrightarrow>
     CreateSubscription pick E svc s0 st1 = (Inl (ErrSubscriptionAlreadyExists (sub_ID s)), st1)"
  "CreateCORS E svc c0 st = (Inr c, st1) \<Longrightarrow>
     CreateCORS E svc c0 st1 = (Inl (ErrCORSAlreadyExists (cors_ID c)), st1)"
  using CreateFunction_Inr [of E f0 st f st1] RF.Get_ok [of st1 "FunctionKey (fn_Space f) (fn_ID f)"]
    CreateEventType_Inr [of E t0 st t st1] RE.Get_ok [of st1 "EventTypeKey (et_Space t) (et_Name t)"]
    CreateSubscription_Inr [of pick E s0 st s st1] RS.Get_ok [of st1 "subscriptionPath (sub_Space s) (sub_ID s)"]
    CreateCORS_Inr [of E c0 st c st1] RC.Get_ok [of st1 "CORSKey (cors_Space c) (cors_ID c)"]
  by (auto simp: CreateFunction_def CreateEventType_def CreateSubscription_def CreateCORS_def
      stored_sub_def Let_def)

lemma CreateSubscription_iff:
  assumes "ok E st" and "paths_ok (sc st)" and "validateSubscription E s0 = Inr s1"
    and "s = s1\<lparr>sub_ID := newSubscriptionID s1\<rparr>"
  shows "(fst (CreateSubscription pick E svc s0 st) = Inr s \<longleftrightarrow>
      sc st (subscriptionPath (sub_Space s) (sub_ID s)) = None \<and>
      (sub_Type s = TypeSync \<longrightarrow> route_ok (sub_Path s) \<and>
        (\<forall>t. stored_sub (sc st) t \<longrightarrow> same_tree t s \<longrightarrow> compatible (sub_Path t) (sub_Path s))) \<and>
      (\<exists>t. GetEventType svc (sub_Space s) (sub_EventType s) st = Inr t) \<and>
      (\<exists>f. GetFunction E svc (sub_Space s) (sub_FunctionID s) st = Inr f)) \<and>
    ((\<exists>m. fst (CreateSubscription pick E svc s0 st) = Inl (ErrPathConfict m)) \<longrightarrow>
      sub_Type s = TypeSync \<and> \<not> (route_ok (sub_Path s) \<and>
        (\<forall>t. stored_sub (sc st) t \<longrightarrow> same_tree t s \<longrightarrow> compatible (sub_Path t) (sub_Path s))))"
proof -
  let ?key = "subscriptionPath (sub_Space s) (sub_ID s)"
  let ?chk = "checkForPathConflict pick svc (sub_Space s) (sub_Method s) (sub_Path s) (sub_EventType s) st"
  have v: "valid_sub E s" using validateSubscription_Inr [OF assms(3)] assms(4) by simp
  have "?chk = None \<longleftrightarrow> route_ok (sub_Path s) \<and> (\<forall>t. stored_sub (sc st) t \<longrightarrow> sub_Space t = sub_Space s \<longrightarrow>
      in_tree (sub_Method s) (sub_EventType s) t \<longrightarrow> compatible (sub_Path t) (sub_Path s))"
    using conflict_check_exact [of E st "sub_Space s" "sub_Path s" pick "sub_Method s" "sub_EventType s"]
      RS.List_ok [of "spacePath (sub_Space s)" st] assms(1,2) v by (simp add: config_ok_def valid_sub_def)
  then have chk: "?chk = None \<longleftrightarrow> route_ok (sub_Path s) \<and>
      (\<forall>t. stored_sub (sc st) t \<longrightarrow> same_tree t s \<longrightarrow> compatible (sub_Path t) (sub_Path s))"
    if "sub_Type s = TypeSync" using that by (auto simp: same_tree_def in_tree_def)
  have get: "isl (kv_Get (SubscriptionStore svc) ?key st) \<longleftrightarrow> sc st ?key = None"
    using RS.Get_iff [of ?key st] by (cases "kv_Get (SubscriptionStore svc) ?key st") auto
  have put: "\<not> isl (fst (kv_AtomicPut (SubscriptionStore svc) ?key (Doc (subscription_json s)) None st))"
    if "sc st ?key = None" using that by (rule RS.AtomicPut_works)
  have et: "GetEventType svc (sub_Space s) (sub_EventType s) st \<noteq> Inl (ErrPathConfict m)" for m
    by (auto simp: GetEventType_def get_error_def decode_def read_event_type_def split: sum.splits blob.splits)
  have fn: "GetFunction E svc (sub_Space s) (sub_FunctionID s) st \<noteq> Inl (ErrPathConfict m)" for m
    by (auto simp: GetFunction_def get_error_def decode_def read_func_def
        split: sum.splits blob.splits if_splits option.splits)
  have "CreateSubscription pick E svc s0 st =
    (case kv_Get (SubscriptionStore svc) ?key st of
       Inr _ \<Rightarrow> (Inl (ErrSubscriptionAlreadyExists (sub_ID s)), st)
     | Inl _ \<Rightarrow>
       (case (if sub_Type s = TypeSync then ?chk else None) of
          Some e \<Rightarrow> (Inl e, st)
        | None \<Rightarrow>
          (case GetEventType svc (sub_Space s) (sub_EventType s) st of
             Inl e \<Rightarrow> (Inl e, st)
           | Inr _ \<Rightarrow>
             (case GetFunction E svc (sub_Space s) (sub_FunctionID s) st of
                Inl e \<Rightarrow> (Inl e, st)
              | Inr _ \<Rightarrow>
                (case kv_AtomicPut (SubscriptionStore svc) ?key (Doc (subscription_json s)) None st of
                   (Inl e, st') \<Rightarrow> (Inl (StoreError e), st')
                 | (Inr _, st') \<Rightarrow> (Inr s, st'))))))"
    unfolding CreateSubscription_def assms(3) sum.case Let_def assms(4) [symmetric] ..
  then show ?thesis
    using chk get put et fn
    by (auto split: sum.splits option.splits prod.splits if_splits)
qed

end

end
