(* ===== verification/ServiceProps.thy ===== *)
theory ServiceProps
  imports ServiceFacts
begin

section \<open>Properties of the configuration service\<close>

text \<open>
  The facts of theories Integrity, Requests and ServiceFacts about the service that
  \<^verbatim>\<open>main\<close> builds: \<open>main_service kv\<close>, four prefixed stores over one database \<open>kv\<close>. The only
  hypothesis is the contract of the database (\<open>kv_store\<close> or \<open>reliable_kv_store\<close>), which
  \<open>contents\<close> reads as one map; the parts below the four roots are \<open>ET\<close>, \<open>FN\<close>, \<open>SB\<close> and \<open>CO\<close>.
\<close>

abbreviation "ET m \<equiv> below eventtypes_root m"
abbreviation "FN m \<equiv> below functions_root m"
abbreviation "SB m \<equiv> below subscriptions_root m"
abbreviation "CO m \<equiv> below cors_root m"

definition db_ok :: "env \<Rightarrow> (string \<Rightarrow> blob option) \<Rightarrow> bool" where
  "db_ok E m \<longleftrightarrow> config_ok E (ET m) (FN m) (SB m) (CO m)"

lemma below_empty [simp]: "below r Map.empty = Map.empty"
  by (auto simp: below_def)

lemma db_ok_empty [simp]: "db_ok E Map.empty"
  by (simp add: db_ok_def config_ok_def event_types_ok_def functions_ok_def subscriptions_ok_def corses_ok_def)

lemma paths_ok_empty [simp]: "paths_ok Map.empty"
  by (simp add: paths_ok_def stored_sub_def)

lemma main_run_ok:
  "kv_store kv contents rest \<Longrightarrow> db_ok E (contents st) \<Longrightarrow>
   db_ok E (contents (run pick E (main_service kv) qs st))"
  unfolding db_ok_def by (rule config_stores.run_ok [OF main_config_stores])

lemma main_run_paths:
  assumes "kv_store kv contents rest" and "answers_lists kv" and "db_ok E (contents st)" and "paths_ok (SB (contents st))"
  shows "paths_ok (SB (contents (run pick E (main_service kv) qs st)))"
  by (rule listing_config_stores.run_paths [OF main_listing_config_stores [OF assms(1,2)], of E st pick qs,
        OF assms(3) [unfolded db_ok_def] assms(4)])

text \<open>Two stored sync subscriptions of one tree do not clash.\<close>

lemma stored_compatible:
  assumes "paths_ok m" and "stored_sub m a" and "stored_sub m b" and "same_tree a b"
  shows "route_ok (sub_Path a) \<and> (a \<noteq> b \<longrightarrow> compatible (sub_Path a) (sub_Path b))"
proof -
  have "a = b" if "sub_ID a = sub_ID b"
  proof -
    have "sub_Space a = sub_Space b" using assms(4) by (simp add: same_tree_def)
    then have "Doc (subscription_json a) = Doc (subscription_json b)"
      using assms(2,3) that unfolding stored_sub_def by (metis option.inject)
    then show ?thesis by (simp add: subscription_json_inject)
  qed
  then show ?thesis using assms unfolding paths_ok_def by blast
qed

subsection \<open>A concrete instance for the witnesses\<close>

definition plain_env :: env where
  "plain_env =
     \<lparr>v_required = (\<lambda>s. s \<noteq> []), v_url = (\<lambda>s. has_prefix s ''http''), v_min = (\<lambda>n s. n \<le> length s),
      v_min_len = (\<lambda>n l. n \<le> length l), v_eq = (=), v_message = concat, new_session_error = (\<lambda>_. None)\<rparr>"

lemma plain_env_eq_rule: "eq_rule plain_env"
  by (simp add: eq_rule_def plain_env_def)

definition ex_func :: func where
  "ex_func = \<lparr>fn_Space = '''', fn_ID = ''f'', fn_ProviderType = ''http'',
     fn_Provider = Some (HTTP ''http://x''), fn_Metadata = fmempty\<rparr>"

definition ex_type :: event_type where
  "ex_type = \<lparr>et_Space = '''', et_Name = ''e'', et_AuthorizerID = Some ''f'', et_Metadata = fmempty\<rparr>"

definition ex_sub :: "string \<Rightarrow> subscription" where
  "ex_sub p = \<lparr>sub_Space = '''', sub_ID = '''', sub_Type = ''sync'', sub_EventType = ''e'',
     sub_FunctionID = ''f'', sub_Path = p, sub_Method = ''get'', sub_Metadata = fmempty\<rparr>"

lemma prefixed_roots:
  "prefixed_root eventtypes_root = ''/serverless-event-gateway/eventtypes/''"
  "prefixed_root functions_root = ''/serverless-event-gateway/functions/''"
  "prefixed_root subscriptions_root = ''/serverless-event-gateway/subscriptions/''"
  "prefixed_root cors_root = ''/serverless-event-gateway/cors/''"
  by (simp_all add: prefixed_root_def root_defs has_suffix_def)

lemma mem_stores:
  "kv_Get (FunctionStore (main_service mem_kv)) k = kv_Get mem_kv (prefixed_root functions_root @ k)"
  "kv_AtomicPut (FunctionStore (main_service mem_kv)) k = kv_AtomicPut mem_kv (prefixed_root functions_root @ k)"
  "kv_Get (EventTypeStore (main_service mem_kv)) k = kv_Get mem_kv (prefixed_root eventtypes_root @ k)"
  "kv_AtomicPut (EventTypeStore (main_service mem_kv)) k = kv_AtomicPut mem_kv (prefixed_root eventtypes_root @ k)"
  "kv_Get (SubscriptionStore (main_service mem_kv)) k = kv_Get mem_kv (prefixed_root subscriptions_root @ k)"
  "kv_AtomicPut (SubscriptionStore (main_service mem_kv)) k = kv_AtomicPut mem_kv (prefixed_root subscriptions_root @ k)"
  "kv_List (SubscriptionStore (main_service mem_kv)) k = Prefixed_List (prefixed_root subscriptions_root) mem_kv k"
  "kv_List (EventTypeStore (main_service mem_kv)) k = Prefixed_List (prefixed_root eventtypes_root) mem_kv k"
  by (simp_all add: main_service_def NewPrefixed_def Let_def)

lemmas plain_rules = plain_env_def defaultSpace_def validate_struct_def failed_fields_def
  spaceValidator_def functionIDValidator_def eventTypeValidator_def urlPathValidator_def
  name_chars_def is_alnum_def is_upper_def is_lower_def is_digit_def

definition ex_func' :: func where
  "ex_func' = ex_func\<lparr>fn_Space := ''default''\<rparr>"

definition ex_type' :: event_type where
  "ex_type' = ex_type\<lparr>et_Space := ''default''\<rparr>"

definition ex_sub' :: subscription where
  "ex_sub' = (ex_sub ''/users/:id'')\<lparr>sub_Space := ''default'', sub_Method := ''GET''\<rparr>"

definition ex_db1 :: mem where
  "ex_db1 = [(''/serverless-event-gateway/functions/default/f'', Doc (func_json ex_func'))]"

definition ex_db2 :: mem where
  "ex_db2 = ex_db1 @ [(''/serverless-event-gateway/eventtypes/default/e'', Doc (event_type_json ex_type'))]"

definition ex_sub_key :: string where
  "ex_sub_key = ''/serverless-event-gateway/subscriptions/default/'' @ newSubscriptionID ex_sub'"

definition ex_sub_stored :: subscription where
  "ex_sub_stored = ex_sub'\<lparr>sub_ID := newSubscriptionID ex_sub'\<rparr>"

definition ex_db3 :: mem where
  "ex_db3 = ex_db2 @ [(ex_sub_key, Doc (subscription_json ex_sub_stored))]"

lemma ToUpper_get: "ToUpper ''get'' = ''GET''"
  by code_simp

lemma ex_valid:
  "validateFunction plain_env ex_func = Inr ex_func'"
  "validateEventType plain_env ex_type = Inr ex_type'"
  "validateSubscription plain_env (ex_sub ''users/:id'') = Inr ex_sub'"
  by (simp_all add: validateFunction_def validateEventType_def validateSubscription_def ex_func_def
      ex_type_def ex_sub_def ex_func'_def ex_type'_def ex_sub'_def plain_rules EnsurePrefix_def
      http_methods_def ToUpper_get)

lemma ex_create_function:
  "CreateFunction plain_env (main_service mem_kv) ex_func [] = (Inr ex_func', ex_db1)"
  unfolding CreateFunction_def ex_valid sum.case mem_stores mem_ops prefixed_roots
  by (simp add: FunctionKey_def ex_func_def ex_func'_def ex_db1_def)

lemma ex_loaded: "loaded plain_env ex_func'" "loaded plain_env ex_func"
  by (simp_all add: loaded_def ex_func_def ex_func'_def providers_def Load_http_def provider_json_def
      json_members_def plain_env_def validate_struct_def failed_fields_def json_read_defs json_fields
      has_prefix_def)

lemma ex_get_function:
  "GetFunction plain_env (main_service mem_kv) ''default'' ''f'' ex_db1 = Inr ex_func'"
  "GetFunction plain_env (main_service mem_kv) ''default'' ''f'' ex_db2 = Inr ex_func'"
  unfolding GetFunction_def mem_stores mem_ops prefixed_roots ex_db2_def ex_db1_def
  by (simp_all add: FunctionKey_def read_func_json ex_loaded)

lemma ex_create_type:
  "CreateEventType plain_env (main_service mem_kv) ex_type ex_db1 = (Inr ex_type', ex_db2)"
proof -
  have k: "et_Space ex_type' = ''default''" "et_Name ex_type' = ''e''" "et_AuthorizerID ex_type' = Some ''f''"
    by (simp_all add: ex_type'_def ex_type_def)
  have m: "map_of ex_db1 ''/serverless-event-gateway/eventtypes/default/e'' = None"
    "AList.update ''/serverless-event-gateway/eventtypes/default/e'' (Doc (event_type_json ex_type')) ex_db1 = ex_db2"
    by (simp_all add: ex_db1_def ex_db2_def)
  show ?thesis
    unfolding CreateEventType_def ex_valid sum.case mem_stores mem_ops prefixed_roots
    by (simp add: EventTypeKey_def k check_authorizer_def ex_get_function m)
qed

lemma ex_get_type:
  "GetEventType (main_service mem_kv) ''default'' ''e'' ex_db2 = Inr ex_type'"
  unfolding GetEventType_def mem_stores mem_ops prefixed_roots ex_db2_def ex_db1_def
  by (simp add: EventTypeKey_def)

lemma ex_no_conflict:
  "checkForPathConflict (\<lambda>_. 0) (main_service mem_kv) ''default'' ''GET'' ''/users/:id'' ''e'' ex_db2 = None"
proof -
  have "kv_List (SubscriptionStore (main_service mem_kv)) (spacePath ''default'') ex_db2 = Inl errKeyNotFound"
    unfolding mem_stores Prefixed_List_def mem_ops prefixed_roots ex_db2_def ex_db1_def
    by (simp add: spacePath_def has_prefix_def)
  moreover have "fst (AddRoute (\<lambda>_. 0) NewNode ''/users/:id'' (''default'', [] :: string)) = None" by code_simp
  ultimately show ?thesis by (simp add: checkForPathConflict_def)
qed

lemma ex_create_sub:
  "CreateSubscription (\<lambda>_. 0) plain_env (main_service mem_kv) (ex_sub ''users/:id'') ex_db2 =
   (Inr ex_sub_stored, ex_db3)"
proof -
  have k: "sub_Space ex_sub_stored = ''default''" "sub_EventType ex_sub_stored = ''e''"
    "sub_FunctionID ex_sub_stored = ''f''" "sub_Path ex_sub_stored = ''/users/:id''"
    "sub_Method ex_sub_stored = ''GET''" "sub_Type ex_sub_stored = ''sync''"
    by (simp_all add: ex_sub_stored_def ex_sub'_def ex_sub_def)
  have key: "''/serverless-event-gateway/subscriptions/'' @ subscriptionPath ''default'' (sub_ID ex_sub_stored) = ex_sub_key"
    by (simp add: subscriptionPath_def spacePath_def ex_sub_key_def ex_sub_stored_def)
  have m: "map_of ex_db2 ex_sub_key = None" "AList.update ex_sub_key v ex_db2 = ex_db2 @ [(ex_sub_key, v)]" for v
    by (simp_all add: ex_db2_def ex_db1_def ex_sub_key_def)
  show ?thesis
    unfolding CreateSubscription_def ex_valid sum.case Let_def mem_stores mem_ops prefixed_roots
      ex_sub_stored_def [symmetric] k key m
    by (simp add: ex_no_conflict ex_get_type ex_get_function ex_db3_def)
qed

lemma ex_db_ok: "db_ok plain_env (map_of ex_db1)" "db_ok plain_env (map_of ex_db2)" "db_ok plain_env (map_of ex_db3)"
proof -
  have step: "db_ok plain_env (map_of m) \<Longrightarrow> perform (\<lambda>_. 0) plain_env (main_service mem_kv) q m = m' \<Longrightarrow>
      db_ok plain_env (map_of m')" for q m m'
    using main_run_ok [OF mem.kv_store_axioms, of plain_env m "\<lambda>_. 0" "[q]"] by simp
  have d0: "db_ok plain_env (map_of [])" by simp
  have d1: "db_ok plain_env (map_of ex_db1)"
    by (rule step [OF d0, of "CreateFunctionReq ex_func"]) (simp add: ex_create_function)
  have d2: "db_ok plain_env (map_of ex_db2)"
    by (rule step [OF d1, of "CreateEventTypeReq ex_type"]) (simp add: ex_create_type)
  have d3: "db_ok plain_env (map_of ex_db3)"
    by (rule step [OF d2, of "CreateSubscriptionReq (ex_sub ''users/:id'')"]) (simp add: ex_create_sub)
  from d1 d2 d3 show "db_ok plain_env (map_of ex_db1)" "db_ok plain_env (map_of ex_db2)"
    "db_ok plain_env (map_of ex_db3)" .
qed

subsection \<open>Invariants of every run\<close>

text \<open>C1: Integrity of the configuration. Whatever sequence of requests is performed on an empty
  database, and whichever writes fail or take effect in spite of an error, every stored
  entity lies under its own key, every subscription's event type and function and every
  event type's authorizer are stored in its space, and identifiers match their fields.\<close>

theorem config_integrity:
  assumes "kv_store kv contents rest" and "contents st = Map.empty"
  shows "db_ok E (contents (run pick E (main_service kv) qs st))"
  by (rule main_run_ok [OF assms(1)]) (simp add: assms(2))

theorem config_integrity_witness:
  "db_ok plain_env (map_of (run (\<lambda>_. 0) plain_env (main_service mem_kv)
     [CreateFunctionReq ex_func, CreateEventTypeReq ex_type, DeleteFunctionReq ''default'' ''f''] []))"
  by (rule config_integrity [OF mem.kv_store_axioms]) simp

text \<open>C6: On a store whose lists are answered, requests that follow one another keep the paths of the
  sync subscriptions of one space, method and event type compatible, even when reads and writes
  fail: each path is well-formed, no two clash, and when the subscriptions are added to an empty tree,
  in any order, each of them gets its route. (A list that fails hides conflicts:
  \<open>failed_list_hides_conflicts\<close>; so do concurrent creations, see theory Races.)\<close>

theorem sync_paths_stay_compatible:
  assumes "kv_store kv contents rest" and "answers_lists kv" and "contents st = Map.empty"
    and "m = SB (contents (run pick E (main_service kv) qs st))"
  shows "paths_ok m \<and>
    (\<forall>ss. distinct ss \<longrightarrow> (\<forall>a \<in> set ss. stored_sub m a) \<longrightarrow> (\<forall>a \<in> set ss. \<forall>b \<in> set ss. same_tree a b) \<longrightarrow>
      (\<forall>s \<in> set ss. route_value (add_routes pick' NewNode (map (\<lambda>s. (sub_Path s, (sub_Space s, sub_FunctionID s))) ss))
         (sub_Path s) = Some (sub_Space s, sub_FunctionID s)))"
proof (intro conjI allI impI ballI)
  let ?M = "contents (run pick E (main_service kv) qs st)"
  show paths: "paths_ok m" unfolding assms(4) by (rule main_run_paths [OF assms(1,2)]) (simp_all add: assms(3))
  fix ss s
  assume ss: "distinct ss" "\<forall>a \<in> set ss. stored_sub m a" "\<forall>a \<in> set ss. \<forall>b \<in> set ss. same_tree a b" and s: "s \<in> set ss"
  have comp: "route_ok (sub_Path a) \<and> (a \<noteq> b \<longrightarrow> compatible (sub_Path a) (sub_Path b))"
    if "a \<in> set ss" "b \<in> set ss" for a b
    using stored_compatible paths ss(2,3) that unfolding assms(4) by blast
  let ?l = "map (\<lambda>s. (sub_Path s, (sub_Space s, sub_FunctionID s))) ss"
  have inj: "inj_on sub_Path (set ss)" using comp compatible_irrefl by (intro inj_onI) metis
  have ad: "admissible (map fst ?l)"
    unfolding admissible_def using comp inj ss(1) by (auto simp: comp_def distinct_map)
  have "map_of ?l (sub_Path s) = Some (sub_Space s, sub_FunctionID s)"
    using s ad by (intro map_of_is_SomeI) (auto simp: admissible_def)
  then show "route_value (add_routes pick' NewNode ?l) (sub_Path s) = Some (sub_Space s, sub_FunctionID s)"
    using add_routes_serves [OF ad, of pick'] comp [OF s s] by (simp add: route_ok_def)
qed

theorem sync_paths_stay_compatible_witness:
  "paths_ok (SB (map_of (run (\<lambda>_. 0) plain_env (main_service mem_kv)
     [CreateFunctionReq ex_func, CreateEventTypeReq ex_type, CreateSubscriptionReq (ex_sub ''users/:id''),
      CreateSubscriptionReq (ex_sub ''users/:name'')] [])))"
  by (rule sync_paths_stay_compatible [OF mem.kv_store_axioms mem.reliable_answers_lists _ refl, THEN conjunct1])
    simp

text \<open>At most one sync subscription per space, method, path and event type: two stored
  subscriptions that agree on these are the same.\<close>

theorem sync_subscription_unique:
  assumes "kv_store kv contents rest" and "contents st = Map.empty" and "eq_rule E"
    and "m = SB (contents (run pick E (main_service kv) qs st))"
    and "stored_sub m s" and "stored_sub m t" and "same_tree s t" and "sub_Path s = sub_Path t"
  shows "s = t"
proof -
  have "db_ok E (contents (run pick E (main_service kv) qs st))"
    by (rule main_run_ok [OF assms(1)]) (simp add: assms(2))
  then show ?thesis
    using one_sync_subscription assms(3-8) unfolding db_ok_def by blast
qed

theorem sync_subscription_unique_witness:
  "{t. stored_sub (SB (map_of ex_db3)) t \<and> same_tree ex_sub_stored t \<and> sub_Path ex_sub_stored = sub_Path t} =
   {ex_sub_stored}"
proof -
  let ?qs = "[CreateFunctionReq ex_func, CreateEventTypeReq ex_type, CreateSubscriptionReq (ex_sub ''users/:id'')]"
  have r: "run (\<lambda>_. 0) plain_env (main_service mem_kv) ?qs [] = ex_db3"
    by (simp add: ex_create_function ex_create_type ex_create_sub)
  have s: "stored_sub (SB (map_of ex_db3)) ex_sub_stored" "same_tree ex_sub_stored ex_sub_stored"
    by (simp_all add: stored_sub_def same_tree_def below_def prefixed_roots subscriptionPath_def spacePath_def
        ex_db3_def ex_db2_def ex_db1_def ex_sub_key_def ex_sub_stored_def ex_sub'_def ex_sub_def)
  have "ex_sub_stored = t" if "stored_sub (SB (map_of ex_db3)) t" "same_tree ex_sub_stored t"
      "sub_Path ex_sub_stored = sub_Path t" for t
    using sync_subscription_unique [OF mem.kv_store_axioms _ plain_env_eq_rule refl, of "[]" "\<lambda>_. 0" ?qs ex_sub_stored t]
      s(1) that unfolding r by simp
  then show ?thesis using s by auto
qed

subsection \<open>Answers\<close>

text \<open>C21: When a new subscription is accepted. On a database whose calls do not fail and whose entries are
  consistent, creating a valid subscription succeeds exactly when its identifier is free, its event type and function can be
  read, and, for a sync subscription, its path has its wildcard last and clashes with no
  sync subscription of the same space, method and event type; a path conflict is reported
  only when there is one.\<close>

theorem CreateSubscription_accepts:
  assumes "reliable_kv_store kv contents rest" and "db_ok E (contents st)" and "paths_ok (SB (contents st))"
    and "validateSubscription E s0 = Inr s1" and "s = s1\<lparr>sub_ID := newSubscriptionID s1\<rparr>"
  shows "(fst (CreateSubscription pick E (main_service kv) s0 st) = Inr s \<longleftrightarrow>
      SB (contents st) (subscriptionPath (sub_Space s) (sub_ID s)) = None \<and>
      (sub_Type s = TypeSync \<longrightarrow> route_ok (sub_Path s) \<and>
        (\<forall>t. stored_sub (SB (contents st)) t \<longrightarrow> same_tree t s \<longrightarrow> compatible (sub_Path t) (sub_Path s))) \<and>
      (\<exists>t. GetEventType (main_service kv) (sub_Space s) (sub_EventType s) st = Inr t) \<and>
      (\<exists>f. GetFunction E (main_service kv) (sub_Space s) (sub_FunctionID s) st = Inr f)) \<and>
    ((\<exists>m. fst (CreateSubscription pick E (main_service kv) s0 st) = Inl (ErrPathConfict m)) \<longrightarrow>
      sub_Type s = TypeSync \<and> \<not> (route_ok (sub_Path s) \<and>
        (\<forall>t. stored_sub (SB (contents st)) t \<longrightarrow> same_tree t s \<longrightarrow> compatible (sub_Path t) (sub_Path s))))"
  by (rule reliable_config_stores.CreateSubscription_iff [OF main_reliable_config_stores [OF assms(1)]])
    (use assms(2-5) in \<open>simp_all add: db_ok_def\<close>)

lemma ex_no_subs: "SB (map_of ex_db2) = Map.empty"
  by (auto simp: below_def ex_db2_def ex_db1_def prefixed_roots)

theorem CreateSubscription_accepts_witness:
  "fst (CreateSubscription (\<lambda>_. 3) plain_env (main_service mem_kv) (ex_sub ''users/:id'') ex_db2) = Inr ex_sub_stored"
proof -
  have k: "sub_Space ex_sub_stored = ''default''" "sub_EventType ex_sub_stored = ''e''"
    "sub_FunctionID ex_sub_stored = ''f''" "sub_Path ex_sub_stored = ''/users/:id''"
    by (simp_all add: ex_sub_stored_def ex_sub'_def ex_sub_def)
  have "route_ok ''/users/:id''"
    by (simp add: route_ok_def abs_route_def toSegments_def is_wild_def)
  then show ?thesis
    using CreateSubscription_accepts [OF mem.reliable_kv_store_axioms ex_db_ok(2) _ ex_valid(3) ex_sub_stored_def,
        of "\<lambda>_. 3"]
    by (simp add: ex_no_subs k ex_get_type ex_get_function stored_sub_def)
qed

text \<open>C30: What was created is found. On a database whose calls do not fail, after a creation that succeeded, the entity is read back as it
  was returned, for functions, event types, subscriptions and CORS configurations alike.\<close>

theorem create_get_roundtrip:
  assumes "reliable_kv_store kv contents rest" and "svc = main_service kv"
  shows "(CreateFunction E svc f0 st = (Inr f, st1) \<longrightarrow> loaded E f0 \<longrightarrow>
      GetFunction E svc (fn_Space f) (fn_ID f) st1 = Inr f) \<and>
    (CreateEventType E svc t0 st = (Inr t, st1) \<longrightarrow> GetEventType svc (et_Space t) (et_Name t) st1 = Inr t) \<and>
    (CreateSubscription pick E svc s0 st = (Inr s, st1) \<longrightarrow>
      GetSubscription svc (sub_Space s) (sub_ID s) st1 = Inr s) \<and>
    (CreateCORS E svc c0 st = (Inr c, st1) \<longrightarrow> GetCORS svc (cors_Space c) (cors_ID c) st1 = Inr c)"
  using reliable_config_stores.create_then_get [OF main_reliable_config_stores [OF assms(1)]]
  unfolding assms(2) by simp

theorem create_get_roundtrip_witness:
  "GetFunction plain_env (main_service mem_kv) ''default'' ''f'' ex_db1 = Inr ex_func' \<and>
   GetSubscription (main_service mem_kv) ''default'' (sub_ID ex_sub_stored) ex_db3 = Inr ex_sub_stored"
  using create_get_roundtrip [OF mem.reliable_kv_store_axioms refl, of plain_env ex_func "[]" ex_func' ex_db1]
    create_get_roundtrip [OF mem.reliable_kv_store_axioms refl, of plain_env _ ex_db2 _ ex_db3 _ _ "\<lambda>_. 0"
      "ex_sub ''users/:id''" ex_sub_stored] ex_create_function ex_loaded ex_create_sub
  by (simp add: ex_func'_def ex_func_def ex_sub_stored_def ex_sub'_def)

text \<open>Creating the same entity a second time is refused as a duplicate and changes nothing.\<close>

theorem create_again_refused:
  assumes "reliable_kv_store kv contents rest" and "svc = main_service kv"
  shows "(CreateFunction E svc f0 st = (Inr f, st1) \<longrightarrow>
      CreateFunction E svc f0 st1 = (Inl (ErrFunctionAlreadyRegistered (fn_ID f)), st1)) \<and>
    (CreateEventType E svc t0 st = (Inr t, st1) \<longrightarrow>
      CreateEventType E svc t0 st1 = (Inl (ErrEventTypeAlreadyExists (et_Name t)), st1)) \<and>
    (CreateSubscription pick E svc s0 st = (Inr s, st1) \<longrightarrow>
      CreateSubscription pick E svc s0 st1 = (Inl (ErrSubscriptionAlreadyExists (sub_ID s)), st1)) \<and>
    (CreateCORS E svc c0 st = (Inr c, st1) \<longrightarrow>
      CreateCORS E svc c0 st1 = (Inl (ErrCORSAlreadyExists (cors_ID c)), st1))"
  using reliable_config_stores.create_again [OF main_reliable_config_stores [OF assms(1)]]
  unfolding assms(2) by simp

theorem create_again_refused_witness:
  "CreateEventType plain_env (main_service mem_kv) ex_type ex_db2 = (Inl (ErrEventTypeAlreadyExists ''e''), ex_db2)"
  using create_again_refused [OF mem.reliable_kv_store_axioms refl, of plain_env _ ex_db1 _ ex_db2 ex_type ex_type']
    ex_create_type by (simp add: ex_type'_def ex_type_def)

text \<open>C28: A function is deleted exactly when nothing refers to it. On a consistent database whose calls do not
  fail, the deletion is refused with
  the subscriptions error when a subscription of the space calls it, otherwise with the
  authorizer error when an event type uses it, and otherwise an existing function is removed.\<close>

theorem DeleteFunction_guarded:
  assumes "reliable_kv_store kv contents rest" and "db_ok E (contents st)" and "name_chars sp"
    and "m = contents st" and "DeleteFunction (main_service kv) sp i st = (e, st')"
  shows "(e = Some ErrFunctionHasSubscriptions \<longleftrightarrow>
      (\<exists>s. stored_sub (SB m) s \<and> sub_Space s = sp \<and> sub_FunctionID s = i)) \<and>
    ((\<exists>t. e = Some (ErrFunctionIsAuthorizer i t)) \<longleftrightarrow>
      (\<nexists>s. stored_sub (SB m) s \<and> sub_Space s = sp \<and> sub_FunctionID s = i) \<and>
      (\<exists>t. stored_type (ET m) t \<and> et_Space t = sp \<and> et_AuthorizerID t = Some i)) \<and>
    (e = None \<longrightarrow> FN (contents st') (FunctionKey sp i) = None \<and> FN m (FunctionKey sp i) \<noteq> None) \<and>
    (FN m (FunctionKey sp i) \<noteq> None \<longrightarrow>
      (\<nexists>s. stored_sub (SB m) s \<and> sub_Space s = sp \<and> sub_FunctionID s = i) \<longrightarrow>
      (\<nexists>t. stored_type (ET m) t \<and> et_Space t = sp \<and> et_AuthorizerID t = Some i) \<longrightarrow> e = None)"
  using reliable_config_stores.DeleteFunction_outcome
    [OF main_reliable_config_stores [OF assms(1)], of E st sp i] assms(2-5)
  by (simp add: db_ok_def)

theorem DeleteFunction_guarded_witness:
  "\<exists>t. fst (DeleteFunction (main_service mem_kv) ''default'' ''f'' ex_db2) = Some (ErrFunctionIsAuthorizer ''f'' t)"
proof -
  have "name_chars ''default''" by code_simp
  moreover have "stored_type (ET (map_of ex_db2)) ex_type'"
    by (simp add: stored_type_def below_def prefixed_roots EventTypeKey_def ex_db2_def ex_db1_def
        ex_type'_def ex_type_def)
  moreover have "et_Space ex_type' = ''default''" "et_AuthorizerID ex_type' = Some ''f''"
    by (simp_all add: ex_type'_def ex_type_def)
  ultimately show ?thesis
    using DeleteFunction_guarded [OF mem.reliable_kv_store_axioms ex_db_ok(2) _ refl prod.collapse [symmetric],
        of "''default''" "''f''"] ex_no_subs
    by (auto simp: stored_sub_def)
qed

text \<open>C31: Lists are exact. On a database that answers and is consistent, with function documents that
  decode (both hold after any requests to the configuration API, see theory APIProps), the list of the
  subscriptions, event types, functions or CORS configurations of a space returns
  those that are stored in it and pass every metadata filter, and no others.\<close>

theorem lists_exact:
  assumes "reliable_kv_store kv contents rest" and "db_ok E (contents st)" and "all_loaded E (FN (contents st))"
    and "name_chars sp"
  shows "(\<exists>subs. ListSubscriptions (main_service kv) sp fs st = Inr subs \<and> set subs =
      {s. stored_sub (SB (contents st)) s \<and> sub_Space s = sp \<and>
        (\<forall>f \<in> set fs. fmlookup (sub_Metadata s) (filter_Key f) = Some (filter_Value f))}) \<and>
    (\<exists>types. ListEventTypes (main_service kv) sp fs st = Inr types \<and> set types =
      {t. stored_type (ET (contents st)) t \<and> et_Space t = sp \<and>
        (\<forall>f \<in> set fs. fmlookup (et_Metadata t) (filter_Key f) = Some (filter_Value f))}) \<and>
    (\<exists>funs. ListFunctions E (main_service kv) sp fs st = Inr funs \<and> set funs =
      {x. stored_function E (FN (contents st)) x \<and> fn_Space x = sp \<and>
        (\<forall>f \<in> set fs. fmlookup (fn_Metadata x) (filter_Key f) = Some (filter_Value f))}) \<and>
    (\<exists>corses. ListCORS (main_service kv) sp fs st = Inr corses \<and> set corses =
      {c. stored_cors (CO (contents st)) c \<and> cors_Space c = sp \<and>
        (\<forall>f \<in> set fs. fmlookup (cors_Metadata c) (filter_Key f) = Some (filter_Value f))})"
  using reliable_config_stores.ListSubscriptions_exact [OF main_reliable_config_stores [OF assms(1)], of E st sp fs]
    reliable_config_stores.ListEventTypes_exact [OF main_reliable_config_stores [OF assms(1)], of E st sp fs]
    reliable_config_stores.ListFunctions_exact [OF main_reliable_config_stores [OF assms(1)], of E st sp fs]
    reliable_config_stores.ListCORS_exact [OF main_reliable_config_stores [OF assms(1)], of E st sp fs] assms(2-4)
  by (simp add: db_ok_def metadata_Check_iff)

theorem lists_exact_witness:
  "(\<exists>types. ListEventTypes (main_service mem_kv) ''default'' [] ex_db2 = Inr types \<and> ex_type' \<in> set types) \<and>
   (\<exists>funs. ListFunctions plain_env (main_service mem_kv) ''default'' [] ex_db2 = Inr funs \<and> ex_func' \<in> set funs)"
proof -
  have "name_chars ''default''" by code_simp
  moreover have "stored_type (ET (map_of ex_db2)) ex_type' \<and> et_Space ex_type' = ''default''"
    by (simp add: stored_type_def below_def prefixed_roots EventTypeKey_def ex_db2_def ex_db1_def
        ex_type'_def ex_type_def)
  moreover have "FN (map_of ex_db2) k = Some b \<longleftrightarrow> k = FunctionKey ''default'' ''f'' \<and> b = Doc (func_json ex_func')" for k b
    by (auto simp: below_def prefixed_roots FunctionKey_def ex_db2_def ex_db1_def)
  moreover have "fn_Space ex_func' = ''default''" "fn_ID ex_func' = ''f''" by (simp_all add: ex_func'_def ex_func_def)
  ultimately show ?thesis
    using lists_exact [OF mem.reliable_kv_store_axioms ex_db_ok(2), of "''default''" "[]"]
    by (auto simp: all_loaded_def stored_function_def read_func_json ex_loaded)
qed

text \<open>The conflict check is silent when the store fails: if the subscriptions of the space
  cannot be listed, the check accepts every path with its wildcard last, whatever is stored.\<close>

theorem failed_list_hides_conflicts:
  assumes "kv_List (SubscriptionStore svc) (spacePath sp) st = Inl e" and "abs_route path"
  shows "checkForPathConflict pick svc sp me path et st = None \<longleftrightarrow> route_ok path"
proof -
  have "fst (AddRoute pick (NewNode :: (string \<times> string) node) path (sp, [])) = None \<longleftrightarrow> route_ok path"
    using AddRoute_facts [OF wf_tree_New assms(2) prod.collapse [symmetric], of pick "(sp, [] :: string)"]
      serves_routable [OF serves_New assms(2)] by simp
  then show ?thesis
    using assms(1) by (cases "fst (AddRoute pick (NewNode :: (string \<times> string) node) path (sp, []))")
      (simp_all add: checkForPathConflict_def)
qed

theorem failed_list_hides_conflicts_witness:
  "checkForPathConflict (\<lambda>_. 0)
     ((main_service mem_kv)\<lparr>SubscriptionStore := mem_kv\<lparr>kv_List := (\<lambda>_ _. Inl ''timeout'')\<rparr>\<rparr>)
     ''default'' ''GET'' ''/users/:name'' ''e'' ex_db3 = None"
proof -
  have "route_ok ''/users/:name''"
    by (simp add: route_ok_def abs_route_def toSegments_def is_wild_def)
  then show ?thesis
    by (subst failed_list_hides_conflicts [of _ _ _ "''timeout''"]) (simp_all add: route_ok_def)
qed

end
