(* ===== verification/CacheProps.thy ===== *)
theory CacheProps
  imports CacheFacts ServiceProps
begin

section \<open>Properties of the caches\<close>

text \<open>
  The properties of the watcher, the caches and the lookups of \<^verbatim>\<open>Target\<close>, with the cases in
  which a cache leaves the database behind it.
\<close>

text \<open>C32: Within one session of a watch the events are exact: applied to the empty directory they
  give the directory that the pairs describe, and every deletion is reported once, for a key that
  was there, with the last value of the key.\<close>

theorem watcher_events_exact:
  "replay (fst (processEvents path batches end)) Map.empty = apply_pairs path (concat batches) Map.empty \<and>
   carries_last (fst (processEvents path batches end)) Map.empty"
  using process_batches_replay [of path batches Map.empty] by (simp add: processEvents_def)

text \<open>Over a whole watch the function cache holds what its watcher was told.\<close>

lemma function_cache_told:
  assumes "list_all (function_reactor.good_event E path) (watchRoot path as)"
  shows "\<exists>c. react path (functionCache_Modified E) functionCache_Deleted (watchRoot path as) newFunctionCache = Done c \<and>
    (\<forall>sp i. CHR ''/'' \<notin> set sp \<longrightarrow> CHR ''/'' \<notin> set i \<longrightarrow>
      c (sp, i) = (case told path as Map.empty (path @ FunctionKey sp i) of None \<Rightarrow> None
       | Some v \<Rightarrow> (case decode (read_func E) v of Inl _ \<Rightarrow> None | Inr f \<Rightarrow> Some f)))"
proof -
  have "function_reactor.mirrors E path newFunctionCache Map.empty"
    by (simp add: function_reactor.mirrors_def newFunctionCache_def)
  from function_reactor.react_mirrors [OF this assms] show ?thesis
    unfolding watchRoot_told function_reactor.mirrors_def by (simp add: FunctionKey_def)
qed

text \<open>C33: The function cache holds what its watcher was told. Over any number of attempts and sessions of
  \<^verbatim>\<open>watchRoot\<close> in which every value reported is a function document under a key \<^verbatim>\<open>space/id\<close>, the cache never
  crashes, and looking up a function gives exactly the decoded value of the last session that
  delivered a value for its key, or nothing when that session deleted it again. In the first
  session that is the directory as the pairs describe it; a key that a later session does not
  deliver keeps its old value (so a deletion between two sessions is missed:
  \<open>deletion_between_sessions_missed\<close>).\<close>

theorem function_cache_mirrors:
  assumes "list_all (function_reactor.good_event E path) (watchRoot path as)"
    and "CHR ''/'' \<notin> set sp" and "CHR ''/'' \<notin> set i"
  shows "\<exists>c. react path (functionCache_Modified E) functionCache_Deleted (watchRoot path as) newFunctionCache = Done c \<and>
    target_Function (tc\<lparr>functionCache := c\<rparr>) sp i =
      (case told path as Map.empty (path @ FunctionKey sp i) of None \<Rightarrow> None
       | Some v \<Rightarrow> (case decode (read_func E) v of Inl _ \<Rightarrow> None | Inr f \<Rightarrow> Some f)) \<and>
    (\<forall>a batches stop. as = [a] \<longrightarrow> watch_session a = Some (batches, stop) \<longrightarrow>
      told path as Map.empty = apply_pairs path (concat batches) Map.empty)"
  using function_cache_told [OF assms(1)] assms(2,3) told_first [of _ _ _ path]
  by (auto simp: target_Function_def simp del: told.simps watchRoot.simps)

text \<open>Two sessions: the second does not mention the function of the first.\<close>

theorem function_cache_mirrors_witness:
  "\<exists>c. react ''/f/'' (functionCache_Modified plain_env) functionCache_Deleted
      (watchRoot ''/f/''
        [\<lparr>at_exists = Inr True, at_put = None, at_watch = Inr
           ([[\<lparr>wp_Key = ''/f/default/f'', wp_Value = Some (Doc (func_json ex_func'))\<rparr>]], ChannelClosed)\<rparr>,
         \<lparr>at_exists = Inr True, at_put = None, at_watch = Inr
           ([[\<lparr>wp_Key = ''/f/default/g'', wp_Value = Some (Doc (func_json ex_func'))\<rparr>],
             [\<lparr>wp_Key = ''/f/default/g'', wp_Value = None\<rparr>]], ShutdownSignal)\<rparr>]) newFunctionCache = Done c \<and>
    c (''default'', ''f'') = Some ex_func'"
proof -
  let ?v = "Doc (func_json ex_func')"
  let ?as = "[\<lparr>at_exists = Inr True, at_put = None, at_watch = Inr
         ([[\<lparr>wp_Key = ''/f/default/f'', wp_Value = Some ?v\<rparr>]], ChannelClosed)\<rparr>,
       \<lparr>at_exists = Inr True, at_put = None, at_watch = Inr
         ([[\<lparr>wp_Key = ''/f/default/g'', wp_Value = Some ?v\<rparr>],
           [\<lparr>wp_Key = ''/f/default/g'', wp_Value = None\<rparr>]], ShutdownSignal)\<rparr>]"
  have e: "watchRoot ''/f/'' ?as =
      [ModifiedNode ''/f/default/f'' ?v, ModifiedNode ''/f/default/g'' ?v, DeletedNode ''/f/default/g'' ?v]"
    by (simp add: processEvents_def process_pair_def)
  have "function_reactor.good_event plain_env ''/f/'' x"
    if "x = ModifiedNode (''/f/default/'' @ i) ?v \<or> x = DeletedNode (''/f/default/'' @ i) ?v" "CHR ''/'' \<notin> set i" for x i
    using that unfolding function_reactor.good_event_def
    by (intro exI [of _ "''default''"] exI [of _ i]) (auto simp: read_func_json ex_loaded)
  from this [of _ "''f''"] this [of _ "''g''"]
  have g: "list_all (function_reactor.good_event plain_env ''/f/'') (watchRoot ''/f/'' ?as)"
    unfolding e by simp
  have t: "told ''/f/'' ?as Map.empty (''/f/'' @ FunctionKey ''default'' ''f'') = Some ?v"
    by (simp add: FunctionKey_def watch_session_def told_session_def)
  show ?thesis
    using function_cache_mirrors [OF g, of "''default''" "''f''" undefined] unfolding t by (auto simp: target_Function_def read_func_json ex_loaded)
qed

text \<open>Sync routing is exact: when the subscriptions of the cache that share a method and an
  event type have compatible paths, a request path is routed to a function exactly when it
  matches the path of such a subscription, with the parameters of that path.\<close>

theorem sync_routing_exact:
  assumes "admissible (map sub_Path (filter (sub_in me et) ss))"
    and "abs_route path" and "path \<noteq> ''/''"
  shows "SyncSubscriber pick (add_all pick' ss) me path et = Some x \<longleftrightarrow>
    (\<exists>s \<in> set ss. sub_in me et s \<and> sub_Path s \<noteq> ''/'' \<and>
      (\<exists>m. match_segs (toSegments (sub_Path s)) (toSegments path) = Some m \<and>
        x = \<lparr>ss_Space = sub_Space s, ss_FunctionID = sub_FunctionID s, ss_Params = Some m\<rparr>))"
  by (rule sync_routing [OF assms])

theorem sync_routing_exact_witness:
  "SyncSubscriber (\<lambda>_. 1) (add_all (\<lambda>_. 0) [ex_sub']) ''GET'' ''/users/42'' ''e'' =
     Some \<lparr>ss_Space = ''default'', ss_FunctionID = ''f'', ss_Params = Some [''id'' \<mapsto> ''42'']\<rparr>"
proof -
  have s: "sub_in ''GET'' ''e'' ex_sub'" "sub_Path ex_sub' = ''/users/:id''" "sub_Space ex_sub' = ''default''"
    "sub_FunctionID ex_sub' = ''f''"
    by (simp_all add: sub_in_def ex_sub'_def ex_sub_def)
  have ad: "admissible (map sub_Path (filter (sub_in ''GET'' ''e'') [ex_sub']))"
    by (simp add: s admissible_def route_ok_def abs_route_def toSegments_def is_wild_def)
  have m: "match_segs (toSegments ''/users/:id'') (toSegments ''/users/42'') = Some [''id'' \<mapsto> ''42'']"
    by (simp add: toSegments_def is_param_def is_wild_def param_name_def has_prefix_def trim_prefix_def)
  show ?thesis
    by (subst sync_routing_exact [OF ad]) (simp_all add: abs_route_def s m)
qed

text \<open>Stored subscriptions, of any spaces that do not clash with one another, are routed.\<close>

lemma stored_subs_routed:
  assumes "paths_ok m" and "distinct ss" and "\<forall>a \<in> set ss. stored_sub m a"
    and "\<forall>a \<in> set ss. \<forall>b \<in> set ss. sub_in me et a \<longrightarrow> sub_in me et b \<longrightarrow> sub_Space a \<noteq> sub_Space b \<longrightarrow>
      compatible (sub_Path a) (sub_Path b)"
    and "s \<in> set ss" and "sub_in me et s"
  shows "(sub_Path s = ''/'' \<longrightarrow> SyncSubscriber pick1 (add_all pick2 ss) me ''/'' et =
      Some \<lparr>ss_Space = sub_Space s, ss_FunctionID = sub_FunctionID s, ss_Params = None\<rparr>) \<and>
    (\<forall>path ps. sub_Path s \<noteq> ''/'' \<longrightarrow> abs_route path \<longrightarrow> path \<noteq> ''/'' \<longrightarrow>
      match_segs (toSegments (sub_Path s)) (toSegments path) = Some ps \<longrightarrow>
      SyncSubscriber pick1 (add_all pick2 ss) me path et =
        Some \<lparr>ss_Space = sub_Space s, ss_FunctionID = sub_FunctionID s, ss_Params = Some ps\<rparr>)"
proof -
  have comp: "route_ok (sub_Path a) \<and> (a \<noteq> b \<longrightarrow> compatible (sub_Path a) (sub_Path b))"
    if ab: "a \<in> set ss" "b \<in> set ss" "sub_in me et a" "sub_in me et b" for a b
  proof -
    have "route_ok (sub_Path a)"
      using stored_compatible [OF assms(1), of a a] assms(3) ab by (simp add: same_tree_def sub_in_def)
    moreover have "compatible (sub_Path a) (sub_Path b)" if "sub_Space a = sub_Space b" "a \<noteq> b"
      using stored_compatible [OF assms(1), of a b] assms(3) ab that by (simp add: same_tree_def sub_in_def)
    ultimately show ?thesis using assms(4) ab by blast
  qed
  then have "inj_on sub_Path {a \<in> set ss. sub_in me et a}"
    by (intro inj_onI) (metis (mono_tags, lifting) compatible_irrefl mem_Collect_eq)
  then have ad: "admissible (map sub_Path (filter (sub_in me et) ss))"
    unfolding admissible_def using assms(2) comp by (auto simp: distinct_map)
  show ?thesis
    using sync_routing_root [OF ad assms(5,6)] sync_routing [OF ad] assms(5,6) by blast
qed

text \<open>Reacting to the news of subscriptions adds them one after the other.\<close>

lemma react_subscriptions:
  "react d (subscriptionCache_Modified pick) subscriptionCache_Deleted
     (map (\<lambda>(k, s). ModifiedNode (d @ k) (Doc (subscription_json s))) xs) c =
   Done (foldl (\<lambda>c s. add_subscription pick s c) c (map snd xs))"
  by (induction xs arbitrary: c) (auto simp: subscriptionCache_Modified_def)

text \<open>C8: Stored subscriptions are routed. After any sequence of requests to the configuration service
  on an empty database whose lists are answered (other reads and writes may fail), take any stored
  subscriptions and let the subscription cache hear of them, each once and in any order. If those of
  different spaces that share a method and an event type do not clash (the code keeps the paths
  apart within a space only, but one tree serves all spaces), every sync subscription among them is
  reachable: a request to its own path \<^verbatim>\<open>/\<close>, or to any path that matches it, is routed to its
  function, with the parameters of the path.\<close>

theorem stored_subscription_is_routed:
  assumes "kv_store kv contents rest" and "answers_lists kv" and "contents st = Map.empty"
    and "m = SB (contents (run pick E (main_service kv) qs st))"
    and "distinct ss" and "\<forall>a \<in> set ss. stored_sub m a"
    and "\<forall>a \<in> set ss. \<forall>b \<in> set ss. sub_in me et a \<longrightarrow> sub_in me et b \<longrightarrow> sub_Space a \<noteq> sub_Space b \<longrightarrow>
      compatible (sub_Path a) (sub_Path b)"
    and "s \<in> set ss" and "sub_in me et s"
  shows "\<exists>c. react d (subscriptionCache_Modified pick2) subscriptionCache_Deleted
      (map (\<lambda>a. ModifiedNode (d @ subscriptionPath (sub_Space a) (sub_ID a)) (Doc (subscription_json a))) ss)
      newSubscriptionCache = Done c \<and>
    (sub_Path s = ''/'' \<longrightarrow> SyncSubscriber pick1 c me ''/'' et =
      Some \<lparr>ss_Space = sub_Space s, ss_FunctionID = sub_FunctionID s, ss_Params = None\<rparr>) \<and>
    (\<forall>path ps. sub_Path s \<noteq> ''/'' \<longrightarrow> abs_route path \<longrightarrow> path \<noteq> ''/'' \<longrightarrow>
      match_segs (toSegments (sub_Path s)) (toSegments path) = Some ps \<longrightarrow>
      SyncSubscriber pick1 c me path et =
        Some \<lparr>ss_Space = sub_Space s, ss_FunctionID = sub_FunctionID s, ss_Params = Some ps\<rparr>)"
proof -
  have paths: "paths_ok m" unfolding assms(4) by (rule main_run_paths [OF assms(1,2)]) (simp_all add: assms(3))
  have "react d (subscriptionCache_Modified pick2) subscriptionCache_Deleted
      (map (\<lambda>a. ModifiedNode (d @ subscriptionPath (sub_Space a) (sub_ID a)) (Doc (subscription_json a))) ss)
      newSubscriptionCache = Done (add_all pick2 ss)"
    using react_subscriptions [of d pick2 "map (\<lambda>a. (subscriptionPath (sub_Space a) (sub_ID a), a)) ss" newSubscriptionCache]
    by (simp add: add_all_def comp_def)
  then show ?thesis using stored_subs_routed [OF paths assms(5-9), of pick1 pick2] by blast
qed

theorem stored_subscription_is_routed_witness:
  "\<exists>c. react ''/s/'' (subscriptionCache_Modified (\<lambda>_. 0)) subscriptionCache_Deleted
      [ModifiedNode (''/s/default/'' @ sub_ID ex_sub_stored) (Doc (subscription_json ex_sub_stored))]
      newSubscriptionCache = Done c \<and>
    SyncSubscriber (\<lambda>_. 0) c ''GET'' ''/users/42'' ''e'' =
      Some \<lparr>ss_Space = ''default'', ss_FunctionID = ''f'', ss_Params = Some [''id'' \<mapsto> ''42'']\<rparr>"
proof -
  let ?qs = "[CreateFunctionReq ex_func, CreateEventTypeReq ex_type, CreateSubscriptionReq (ex_sub ''users/:id'')]"
  have r: "SB (map_of ex_db3) = SB (map_of (run (\<lambda>_. 0) plain_env (main_service mem_kv) ?qs []))"
    by (simp add: ex_create_function ex_create_type ex_create_sub)
  have s: "sub_in ''GET'' ''e'' ex_sub_stored" "sub_Path ex_sub_stored = ''/users/:id''"
    "sub_Space ex_sub_stored = ''default''" "sub_FunctionID ex_sub_stored = ''f''"
    by (simp_all add: sub_in_def ex_sub_stored_def ex_sub'_def ex_sub_def)
  have stored: "\<forall>a \<in> set [ex_sub_stored]. stored_sub (SB (map_of ex_db3)) a"
    by (simp add: stored_sub_def below_def prefixed_roots ex_db3_def ex_db2_def ex_db1_def ex_sub_key_def
        subscriptionPath_def spacePath_def ex_sub_stored_def ex_sub'_def ex_sub_def)
  have m: "match_segs (toSegments ''/users/:id'') (toSegments ''/users/42'') = Some [''id'' \<mapsto> ''42'']"
    by (simp add: toSegments_def is_param_def is_wild_def param_name_def has_prefix_def trim_prefix_def)
  have p: "abs_route ''/users/42''" "subscriptionPath ''default'' i = ''default/'' @ i" for i
    by (simp_all add: abs_route_def subscriptionPath_def spacePath_def)
  show ?thesis
    using stored_subscription_is_routed [OF mem.kv_store_axioms mem.reliable_answers_lists _ r _ stored _ _ s(1),
        of "''/s/''" "\<lambda>_. 0" "\<lambda>_. 0"] m p s by fastforce
qed

subsection \<open>Where a cache leaves the database\<close>

text \<open>C23: An update of an async subscription is added to the cache a second time: after it, the router is given
  its function twice for every event, and still once after the subscription has been deleted.\<close>

theorem async_update_leaves_ghost:
  assumes "sub_Type s \<noteq> TypeSync" and "sub_Type s' = sub_Type s" and "sub_Space s' = sub_Space s"
    and "sub_EventType s' = sub_EventType s" and "sub_FunctionID s' = sub_FunctionID s"
    and "sub_Path s' = sub_Path s" and "sub_Method s' = sub_Method s"
    and "subscriptionCache_Modified pick k (Doc (subscription_json s)) newSubscriptionCache = Done c1"
    and "subscriptionCache_Modified pick k (Doc (subscription_json s')) c1 = Done c2"
    and "subscriptionCache_Deleted k (Doc (subscription_json s')) c2 = Done c3"
  shows "AsyncSubscribers c2 (sub_Method s) (sub_Path s) (sub_EventType s) =
      [\<lparr>as_Space = sub_Space s, as_FunctionID = sub_FunctionID s\<rparr>,
       \<lparr>as_Space = sub_Space s, as_FunctionID = sub_FunctionID s\<rparr>] \<and>
    AsyncSubscribers c3 (sub_Method s) (sub_Path s) (sub_EventType s) =
      [\<lparr>as_Space = sub_Space s, as_FunctionID = sub_FunctionID s\<rparr>]"
proof -
  let ?ids = "\<lambda>c. inner (inner (sc_async c) (sub_Method s)) (sub_Path s) (sub_EventType s)"
  have ens: "?ids (ensureAsyncMethodPath (sub_Method s) (sub_Path s) c) = ?ids c" for c
    by (auto simp: ensureAsyncMethodPath_def Let_def inner_def split: option.splits)
  have add: "?ids (add_subscription pick t c) = Some ((case ?ids c of Some ids \<Rightarrow> ids | None \<Rightarrow> []) @ [(sub_Space s, sub_FunctionID s)])"
    if "sub_Type t = sub_Type s" "sub_Space t = sub_Space s" "sub_EventType t = sub_EventType s"
      "sub_FunctionID t = sub_FunctionID s" "sub_Path t = sub_Path s" "sub_Method t = sub_Method s" for t c
    using assms(1) that ens [of c]
    by (auto simp: add_subscription_def Let_def set_async_def split: option.splits)
  have c1: "c1 = add_subscription pick s newSubscriptionCache" and c2: "c2 = add_subscription pick s' c1"
    and c3: "c3 = deleteSubscription s' c2"
    using assms by (simp_all add: subscriptionCache_Modified_def subscriptionCache_Deleted_def)
  have i1: "?ids c1 = Some [(sub_Space s, sub_FunctionID s)]"
    using add [of s newSubscriptionCache] by (simp add: c1 newSubscriptionCache_def inner_def)
  have i2: "?ids c2 = Some [(sub_Space s, sub_FunctionID s), (sub_Space s, sub_FunctionID s)]"
    using add [of s' c1] assms(2-7) i1 by (simp add: c2)
  have "?ids c3 = Some [(sub_Space s, sub_FunctionID s)]"
    using i2 assms(2-7) by (simp add: c3 deleteSubscription_def set_async_def)
  then show ?thesis using i2 by (simp add: AsyncSubscribers_def)
qed

definition ex_async :: subscription where
  "ex_async = (ex_sub ''/e'')\<lparr>sub_Type := ''async''\<rparr>"

theorem async_update_leaves_ghost_witness:
  "length (AsyncSubscribers (deleteSubscription ex_async (add_subscription (\<lambda>_. 0) ex_async
     (add_subscription (\<lambda>_. 0) ex_async newSubscriptionCache)))
       (sub_Method ex_async) (sub_Path ex_async) (sub_EventType ex_async)) = 1"
  using async_update_leaves_ghost [of ex_async ex_async "\<lambda>_. 0" "''default/x''"
      "add_subscription (\<lambda>_. 0) ex_async newSubscriptionCache"
      "add_subscription (\<lambda>_. 0) ex_async (add_subscription (\<lambda>_. 0) ex_async newSubscriptionCache)"
      "deleteSubscription ex_async (add_subscription (\<lambda>_. 0) ex_async
         (add_subscription (\<lambda>_. 0) ex_async newSubscriptionCache))"]
  by (simp add: subscriptionCache_Modified_def subscriptionCache_Deleted_def ex_async_def)

text \<open>An updated CORS configuration does not reach the router: once a configuration for a
  method and path is in the cache, the event of its update leaves the old one in place.\<close>

theorem cors_update_ignored:
  assumes "c (cors_Method new) = Some root" and "wf_tree root" and "abs_route (cors_Path new)"
    and "route_value root (cors_Path new) = Some old"
    and "corsCache_Modified pick k (Doc (cors_json new)) c = Done c'"
  shows "\<exists>root'. c' (cors_Method new) = Some root' \<and> route_value root' (cors_Path new) = Some old"
proof -
  obtain e root' where a: "AddRoute pick root (cors_Path new) new = (e, root')" by fastforce
  have "e \<noteq> None" using AddRoute_facts [OF assms(2,3) a] assms(4) by (auto simp: routable_def)
  then have "route_value root' (cors_Path new) = Some old"
    using AddRoute_facts [OF assms(2,3) a] assms(3,4) by auto
  then show ?thesis using assms(1,5) a by (auto simp: corsCache_Modified_def)
qed

definition ex_cors :: "string list \<Rightarrow> cors" where
  "ex_cors os = \<lparr>cors_Space = ''default'', cors_ID = ''GET%2Fa'', cors_Method = ''GET'', cors_Path = ''/a'',
     cors_AllowedOrigins = os, cors_AllowedMethods = [''GET''], cors_AllowedHeaders = [],
     cors_AllowCredentials = False, cors_Metadata = fmempty\<rparr>"

theorem cors_update_ignored_witness:
  "\<exists>root'. (case corsCache_Modified (\<lambda>_. 0) ''default/GET%2Fa'' (Doc (cors_json (ex_cors [''https://new''])))
       [''GET'' \<mapsto> snd (AddRoute (\<lambda>_. 0) NewNode ''/a'' (ex_cors [''*'']))] of
     Done c' \<Rightarrow> c' ''GET'' = Some root' | Crash \<Rightarrow> False) \<and>
   route_value root' ''/a'' = Some (ex_cors [''*''])"
proof -
  let ?p = "AddRoute (\<lambda>_. 0) NewNode ''/a'' (ex_cors [''*''])"
  have p: "?p = (fst ?p, snd ?p)" by simp
  have a: "abs_route ''/a''" by (simp add: abs_route_def)
  have "fst ?p = None"
    by (simp add: AddRoute_def toSegments_def add_segs.simps NewNode_def first_def set_value_def)
  then have f: "wf_tree (snd ?p)" "route_value (snd ?p) ''/a'' = Some (ex_cors [''*''])"
    using AddRoute_facts [OF wf_tree_New a p] a by simp_all
  obtain c' where c: "corsCache_Modified (\<lambda>_. 0) ''default/GET%2Fa'' (Doc (cors_json (ex_cors [''https://new''])))
      [''GET'' \<mapsto> snd ?p] = Done c'" by (simp add: corsCache_Modified_def)
  have k: "cors_Method (ex_cors os) = ''GET''" "cors_Path (ex_cors os) = ''/a''" for os
    by (simp_all add: ex_cors_def)
  show ?thesis
    using cors_update_ignored [OF _ f(1) _ _ c] f a unfolding k c by simp
qed

text \<open>A deletion between two sessions of a watcher is never reported: after the connection is
  lost the watcher starts with an empty cache, so a key that is gone by then stays in the caches.\<close>

theorem deletion_between_sessions_missed:
  assumes "watchRoot path
      [\<lparr>at_exists = Inr True, at_put = None, at_watch = Inr (bs1, ChannelClosed)\<rparr>,
       \<lparr>at_exists = Inr True, at_put = None, at_watch = Inr (bs2, end)\<rparr>] = es"
    and "apply_pairs path (concat bs1) Map.empty k = Some v"
    and "\<forall>p \<in> set (concat bs2). wp_Key p \<noteq> k"
  shows "replay es Map.empty k = Some v"
proof -
  have "replay es Map.empty = told_session path (concat bs2) (told_session path (concat bs1) Map.empty)"
    using assms(1) [symmetric] watchRoot_told [of path]
    by (cases "end") (simp_all add: watch_session_def del: watchRoot.simps)
  moreover have "told_session path (concat bs1) Map.empty = apply_pairs path (concat bs1) Map.empty"
    using session_told [of path bs1 Map.empty] process_batches_replay [of path bs1 Map.empty] by simp
  ultimately show ?thesis using assms(2,3) by (auto simp: told_session_def)
qed

theorem deletion_between_sessions_missed_witness:
  "replay (watchRoot ''/f/''
      [\<lparr>at_exists = Inr True, at_put = None,
        at_watch = Inr ([[\<lparr>wp_Key = ''/f/a/b'', wp_Value = Some (Raw ''x'')\<rparr>]], ChannelClosed)\<rparr>,
       \<lparr>at_exists = Inr True, at_put = None, at_watch = Inr ([[]], ShutdownSignal)\<rparr>]) Map.empty ''/f/a/b'' = Some (Raw ''x'')"
  by (rule deletion_between_sessions_missed [OF refl]) simp_all

text \<open>Deleting a route leaves its inner nodes in the tree. After a subscription to \<^verbatim>\<open>/a/b\<close> was
  created and deleted, one to \<^verbatim>\<open>/:x/y/z\<close>, which the configuration service accepts, is not
  routed, and deleting it crashes the gateway.\<close>

definition ex_ab :: subscription where "ex_ab = ex_sub ''/a/b''"
definition ex_xyz :: subscription where "ex_xyz = ex_sub ''/:x/y/z''"

theorem deleted_route_leaves_nodes:
  "react ''/s/'' (subscriptionCache_Modified pick) subscriptionCache_Deleted
     [ModifiedNode ''/s/d/1'' (Doc (subscription_json ex_ab)), DeletedNode ''/s/d/1'' (Doc (subscription_json ex_ab)),
      ModifiedNode ''/s/d/2'' (Doc (subscription_json ex_xyz)), DeletedNode ''/s/d/2'' (Doc (subscription_json ex_xyz))]
     newSubscriptionCache = Crash"
proof -
  have k: "sub_Type ex_ab = ''sync''" "sub_Method ex_ab = ''get''" "sub_EventType ex_ab = ''e''" "sub_Path ex_ab = ''/a/b''"
    "sub_Type ex_xyz = ''sync''" "sub_Method ex_xyz = ''get''" "sub_EventType ex_xyz = ''e''" "sub_Path ex_xyz = ''/:x/y/z''"
    by (simp_all add: ex_ab_def ex_xyz_def ex_sub_def)
  show ?thesis
    by (simp add: subscriptionCache_Modified_def subscriptionCache_Deleted_def add_subscription_def Let_def k
        newSubscriptionCache_def ensureSyncMethod_def set_sync_def sub_deleteEndpoint_def inner_def
        AddRoute_def toSegments_def add_segs.simps NewNode_def first_def set_value_def set_children_def createNode_def
        DeleteRoute_def check_child_def is_static_def is_param_def is_wild_def has_prefix_def)
qed

end
