(* ===== verification/Http.thy ===== *)
theory Http
  imports Json
begin

section \<open>HTTP requests and responses (net/http, mime, internal/http)\<close>

text \<open>
  What the gateway uses of \<^verbatim>\<open>net/http\<close>: headers with their canonical names, the response
  writer with its rule that headers and status are fixed by the first \<^verbatim>\<open>WriteHeader\<close>, and
  \<^verbatim>\<open>mime.ParseMediaType\<close>. \<^verbatim>\<open>FlattenHeader\<close> is the gateway's own. Header names and media
  types are ASCII. A header and a query parameter have at least one value, because the server
  only ever appends to them; they are kept in an order, which stands for the order in which
  Go iterates over the map.
\<close>

subsection \<open>Headers\<close>

type_synonym multimap = "(string \<times> string \<times> string list) list"

definition token_chars :: string where
  "token_chars = ''!#$%&*+-.^_`|~'' @ [CHR 39]"

definition is_token_char :: "char \<Rightarrow> bool" where
  "is_token_char c \<longleftrightarrow> is_alnum c \<or> c \<in> set token_chars"

fun canonical :: "bool \<Rightarrow> string \<Rightarrow> string" where
  "canonical up [] = []"
| "canonical up (c # cs) = (if up then upper_char c else lower_char c) # canonical (c = CHR ''-'') cs"

definition CanonicalHeaderKey :: "string \<Rightarrow> string" where
  "CanonicalHeaderKey s = (if list_all is_token_char s then canonical True s else s)"

definition Header_Get :: "multimap \<Rightarrow> string \<Rightarrow> string" where
  "Header_Get h k = (case map_of h (CanonicalHeaderKey k) of None \<Rightarrow> [] | Some (v, _) \<Rightarrow> v)"

definition flatten_entry :: "string \<times> string \<times> string list \<Rightarrow> (string, string) fmap \<Rightarrow> (string, string) fmap" where
  "flatten_entry e headers =
     (case e of (key, v, vs) \<Rightarrow>
       (let headers' = fmupd key v headers in
        if vs \<noteq> [] then fmupd key (join_with '', '' (v # vs)) headers' else headers'))"

definition FlattenHeader :: "multimap \<Rightarrow> (string, string) fmap" where
  "FlattenHeader h = fold flatten_entry h fmempty"

subsection \<open>Requests\<close>

text \<open>\<open>rq_RawPath\<close> is \<^verbatim>\<open>URL.RawPath\<close>, \<open>rq_EscapedPath\<close> the value of \<^verbatim>\<open>URL.EscapedPath()\<close>.\<close>

record http_request =
  rq_Method :: string
  rq_Host :: string
  rq_Path :: string
  rq_RawPath :: string
  rq_EscapedPath :: string
  rq_Query :: multimap
  rq_Header :: multimap
  rq_Body :: "(string, string) res"

subsection \<open>Responses\<close>

text \<open>
  \<open>rw_Sent\<close> is the status with the headers as they were when it was written. A chunk of the
  body is the JSON document of an encoder or plain bytes.
\<close>

record response_writer =
  rw_Header :: "(string \<times> string) list"
  rw_Sent :: "(int \<times> (string \<times> string) list) option"
  rw_Body :: "blob list"

definition new_response :: response_writer where
  "new_response = \<lparr>rw_Header = [], rw_Sent = None, rw_Body = []\<rparr>"

definition Header_Set :: "string \<Rightarrow> string \<Rightarrow> response_writer \<Rightarrow> response_writer" where
  "Header_Set k v w = w\<lparr>rw_Header := AList.update (CanonicalHeaderKey k) v (rw_Header w)\<rparr>"

definition WriteHeader :: "int \<Rightarrow> response_writer \<Rightarrow> response_writer" where
  "WriteHeader code w = (case rw_Sent w of None \<Rightarrow> w\<lparr>rw_Sent := Some (code, rw_Header w)\<rparr> | Some _ \<Rightarrow> w)"

text \<open>Writing fixes the status 200 first; a status without a body refuses the bytes.\<close>

definition has_no_body :: "int \<Rightarrow> bool" where
  "has_no_body code \<longleftrightarrow> 100 \<le> code \<and> code \<le> 199 \<or> code = 204 \<or> code = 304"

definition Write :: "blob \<Rightarrow> response_writer \<Rightarrow> response_writer" where
  "Write b w0 =
     (let w = WriteHeader 200 w0 in
      case rw_Sent w of
        None \<Rightarrow> w
      | Some (code, _) \<Rightarrow> if has_no_body code then w else w\<lparr>rw_Body := rw_Body w @ [b]\<rparr>)"

definition Encode :: "json \<Rightarrow> response_writer \<Rightarrow> response_writer" where
  "Encode j w = Write (Doc j) w"

text \<open>What the client sees once the handler has returned.\<close>

definition status :: "response_writer \<Rightarrow> int" where
  "status w = (case rw_Sent w of None \<Rightarrow> 200 | Some (code, _) \<Rightarrow> code)"

definition sent_headers :: "response_writer \<Rightarrow> (string \<times> string) list" where
  "sent_headers w = (case rw_Sent w of None \<Rightarrow> rw_Header w | Some (_, h) \<Rightarrow> h)"

text \<open>A handler answers, or panics, and then the server closes the connection.\<close>

datatype handled = Responds response_writer | Aborted

subsection \<open>Response (httpapi/error.go)\<close>

definition errors_json :: "string list \<Rightarrow> json" where
  "errors_json ms = JObj [(''errors'', JArr (map (\<lambda>m. JObj (put_string ''message'' m)) ms))]"

subsection \<open>mime.ParseMediaType\<close>

text \<open>
  The media type, or the text of the error. Of the parameters only their syntax and their
  names matter to the result.
\<close>

definition is_space :: "char \<Rightarrow> bool" where
  "is_space c \<longleftrightarrow> byte c \<in> {9, 10, 11, 12, 13, 32}"

definition trim_space :: "string \<Rightarrow> string" where
  "trim_space s = rev (dropWhile is_space (rev (dropWhile is_space s)))"

definition ToLower :: "string \<Rightarrow> string" where
  "ToLower s = map lower_char s"

definition is_mime_char :: "char \<Rightarrow> bool" where
  "is_mime_char c \<longleftrightarrow> 32 < byte c \<and> byte c < 127 \<and> c \<notin> set ''()<>@,;:/[]?='' \<and> byte c \<noteq> 34 \<and> byte c \<noteq> 92"

definition no_media_type :: string where
  "no_media_type = ''mime: no media type''"

definition check_media_type :: "string \<Rightarrow> string option" where
  "check_media_type s =
     (let typ = takeWhile is_mime_char s; rest = dropWhile is_mime_char s in
      if typ = [] then Some no_media_type
      else
        (case rest of
           [] \<Rightarrow> None
         | c # rest' \<Rightarrow>
             (if c \<noteq> CHR ''/'' then Some ''mime: expected slash after first token''
              else if takeWhile is_mime_char rest' = [] then Some ''mime: expected token after slash''
              else if dropWhile is_mime_char rest' \<noteq> [] then Some ''mime: unexpected content after media subtype''
              else None)))"

text \<open>The rest of a quoted value after the opening quote; none if it does not end.\<close>

fun quoted_value :: "string \<Rightarrow> string \<Rightarrow> (string \<times> string) option" where
  "quoted_value acc [] = None"
| "quoted_value acc [c] = (if byte c = 34 then Some (acc, []) else None)"
| "quoted_value acc (c # d # cs) =
     (if byte c = 34 then Some (acc, d # cs)
      else if byte c = 92 \<and> \<not> is_mime_char d then quoted_value (acc @ [d]) cs
      else if byte c = 13 \<or> byte c = 10 then None
      else quoted_value (acc @ [c]) (d # cs))"

definition consume_value :: "string \<Rightarrow> string \<times> string" where
  "consume_value v =
     (case v of
        [] \<Rightarrow> ([], [])
      | c # cs \<Rightarrow>
          (if byte c \<noteq> 34 then (takeWhile is_mime_char v, dropWhile is_mime_char v)
           else (case quoted_value [] cs of None \<Rightarrow> ([], v) | Some r \<Rightarrow> r)))"

text \<open>\<^verbatim>\<open>consumeMediaParam\<close>: the name of a parameter and what follows it.\<close>

definition consume_param :: "string \<Rightarrow> (string \<times> string) option" where
  "consume_param v =
     (case dropWhile is_space v of
        [] \<Rightarrow> None
      | c # r1 \<Rightarrow>
          (if c \<noteq> CHR '';'' then None
           else
             (let r2 = dropWhile is_space r1;
                  param = ToLower (takeWhile is_mime_char r2);
                  r3 = dropWhile is_space (dropWhile is_mime_char r2) in
              if param = [] then None
              else
                (case r3 of
                   [] \<Rightarrow> None
                 | e # r4 \<Rightarrow>
                     (if e \<noteq> CHR ''='' then None
                      else
                        (let r5 = dropWhile is_space r4; (value, r6) = consume_value r5 in
                         if value = [] \<and> r6 = r5 then None else Some (param, r6)))))))"

lemma quoted_value_length: "quoted_value acc s = Some (v, r) \<Longrightarrow> length r < length s"
  by (induction acc s arbitrary: v r rule: quoted_value.induct) (auto split: if_splits dest!: meta_spec)

lemma consume_value_length: "length (snd (consume_value v)) \<le> length v"
proof (cases v)
  case (Cons c cs)
  then show ?thesis
    using length_dropWhile_le [of is_mime_char v]
    by (auto simp: consume_value_def dest: quoted_value_length split: option.splits)
qed (simp add: consume_value_def)

lemma consume_param_length:
  assumes "consume_param v = Some (p, r)"
  shows "length r < length v"
proof -
  obtain c r1 where 1: "dropWhile is_space v = c # r1"
    using assms by (auto simp: consume_param_def split: list.splits)
  let ?r3 = "dropWhile is_space (dropWhile is_mime_char (dropWhile is_space r1))"
  obtain e r4 where 3: "?r3 = e # r4"
    using assms 1 by (auto simp: consume_param_def Let_def split: list.splits if_splits)
  have "r = snd (consume_value (dropWhile is_space r4))"
    using assms 1 3 by (auto simp: consume_param_def Let_def split: if_splits prod.splits)
  then have "length r \<le> length r4"
    using consume_value_length [of "dropWhile is_space r4"] length_dropWhile_le [of is_space r4] by simp
  moreover have "length (e # r4) \<le> length r1"
    unfolding 3 [symmetric] by (meson length_dropWhile_le order_trans)
  moreover have "length (c # r1) \<le> length v"
    unfolding 1 [symmetric] by (rule length_dropWhile_le)
  ultimately show ?thesis by simp
qed

function check_params :: "string list \<Rightarrow> string \<Rightarrow> string option" where
  "check_params seen v0 =
     (let v = dropWhile is_space v0 in
      if v = [] then None
      else
        (case consume_param v of
           None \<Rightarrow> if trim_space v = '';'' then None else Some ''mime: invalid media parameter''
         | Some (key, rest) \<Rightarrow>
             (if key \<in> set seen then Some ''mime: duplicate parameter name''
              else check_params (key # seen) rest)))"
  by pat_completeness auto

termination
proof (relation "measure (\<lambda>(_, v). length v)")
  fix seen v0 v x key rest
  assume "v = dropWhile is_space v0" "consume_param v = Some x" "(key, rest) = x"
  then show "((key # seen, rest), seen, v0) \<in> measure (\<lambda>(_, v). length v)"
    using consume_param_length [of v key rest] length_dropWhile_le [of is_space v0] by simp
qed simp

definition ParseMediaType :: "string \<Rightarrow> (string, string) res" where
  "ParseMediaType v =
     (let base = takeWhile (\<lambda>c. c \<noteq> CHR '';'') v; rest = dropWhile (\<lambda>c. c \<noteq> CHR '';'') v;
          mediatype = trim_space (ToLower base) in
      case check_media_type mediatype of
        Some e \<Rightarrow> Inl e
      | None \<Rightarrow> (case check_params [] rest of Some e \<Rightarrow> Inl e | None \<Rightarrow> Inr mediatype))"

subsection \<open>Facts\<close>

lemma FlattenHeader_lookup:
  assumes "distinct (map fst h)"
  shows "fmlookup (FlattenHeader h) k = map_option (\<lambda>(v, vs). join_with '', '' (v # vs)) (map_of h k)"
proof -
  have step: "flatten_entry (k, v, vs) m = fmupd k (join_with '', '' (v # vs)) m" for k v vs m
    by (cases vs) (auto simp: flatten_entry_def intro: fmap_ext)
  have "fmlookup (fold flatten_entry h m) k =
      (case map_of h k of None \<Rightarrow> fmlookup m k | Some (v, vs) \<Rightarrow> Some (join_with '', '' (v # vs)))" for m
    using assms
  proof (induction h arbitrary: m)
    case (Cons e h)
    obtain k' v' vs' where e: "e = (k', v', vs')" by (cases e) auto
    have n: "map_of h k' = None" using Cons.prems e by (auto simp: map_of_eq_None_iff)
    show ?case using Cons.IH [of "flatten_entry e m"] Cons.prems n unfolding e step
      by (auto simp: step split: option.splits)
  qed simp
  from this [of fmempty] show ?thesis by (auto simp: FlattenHeader_def split: option.splits)
qed

lemma writer_simps [simp]:
  "rw_Sent (WriteHeader c w) = (case rw_Sent w of None \<Rightarrow> Some (c, rw_Header w) | Some s \<Rightarrow> Some s)"
  "rw_Sent (Header_Set k v w) = rw_Sent w"
  "rw_Sent (Encode j w) = rw_Sent (WriteHeader 200 w)"
  "rw_Body (WriteHeader c w) = rw_Body w"
  "rw_Body (Header_Set k v w) = rw_Body w"
  "rw_Header (WriteHeader c w) = rw_Header w"
  "rw_Sent new_response = None" "rw_Body new_response = []"
  by (auto simp: WriteHeader_def Header_Set_def Encode_def Write_def new_response_def Let_def split: option.splits)

end
