(* ===== verification/HTTPAPI.thy ===== *)
theory HTTPAPI
  imports Services Http
begin

section \<open>The configuration API (httpapi)\<close>

text \<open>
  The twenty handlers of \<^verbatim>\<open>httpapi.go\<close> over the services of theory Services: they decode the
  body, overwrite the parts that the URL gives, call the service and map its error to a
  status. \<open>Aborted\<close> is a handler that panics. The routing itself is done by the third-party
  \<^verbatim>\<open>httprouter\<close>, which gets the table \<open>RegisterRoutes\<close> and hands the path parameters to the
  handler; the metrics are left out.
\<close>

subsection \<open>Requests and responses\<close>

text \<open>What the handlers read of a request: path parameters, query, \<^verbatim>\<open>URL.RawPath\<close>, body.\<close>

record api_request =
  ar_Params :: "(string \<times> string) list"
  ar_Query :: multimap
  ar_RawPath :: string
  ar_Body :: blob

definition ByName :: "(string \<times> string) list \<Rightarrow> string \<Rightarrow> string" where
  "ByName ps n = (case map_of ps n of None \<Rightarrow> [] | Some v \<Rightarrow> v)"

abbreviation space_of :: "api_request \<Rightarrow> string" where
  "space_of r \<equiv> ByName (ar_Params r) ''space''"

definition json_response :: response_writer where
  "json_response = Header_Set ''Content-Type'' ''application/json'' new_response"

definition api_error :: "int \<Rightarrow> svc_error \<Rightarrow> handled" where
  "api_error code e =
     (if e = Panicked then Aborted
      else Responds (Encode (errors_json [error_text e]) (WriteHeader code json_response)))"

text \<open>A body that does not decode: the error text becomes that of a validation error.\<close>

definition decode_failed :: "(string \<Rightarrow> svc_error) \<Rightarrow> svc_error \<Rightarrow> handled" where
  "decode_failed validation e = (if e = Panicked then Aborted else api_error 400 (validation (error_text e)))"

definition created :: "json \<Rightarrow> handled" where
  "created j = Responds (Encode j (WriteHeader 201 json_response))"

definition updated :: "json \<Rightarrow> handled" where
  "updated j = Responds (Encode j (WriteHeader 200 json_response))"

definition found :: "json \<Rightarrow> handled" where
  "found j = Responds (Encode j json_response)"

definition no_content :: handled where
  "no_content = Responds (WriteHeader 204 json_response)"

fun split_last :: "string list \<Rightarrow> string" where
  "split_last [] = []"
| "split_last [x] = x"
| "split_last (x # y # ys) = split_last (y # ys)"

definition extractCORSID :: "string \<Rightarrow> string" where
  "extractCORSID rawPath = split_last (split_on (CHR ''/'') rawPath)"

definition extractMetadataFilters :: "multimap \<Rightarrow> metadata_filter list" where
  "extractMetadataFilters query =
     concat (map (\<lambda>(key, v, _).
       if has_prefix key ''metadata.''
       then [\<lparr>filter_Key = trim_prefix key ''metadata.'', filter_Value = v\<rparr>] else []) query)"

subsection \<open>Event types\<close>

fun getEventType_status :: "svc_error \<Rightarrow> int" where
  "getEventType_status (ErrEventTypeNotFound _) = 404"
| "getEventType_status _ = 500"

definition getEventType :: "env \<Rightarrow> ('st, 'h) service \<Rightarrow> api_request \<Rightarrow> 'st \<Rightarrow> handled \<times> 'st" where
  "getEventType E svc r st =
     (case GetEventType svc (space_of r) (ByName (ar_Params r) ''name'') st of
        Inl e \<Rightarrow> (api_error (getEventType_status e) e, st)
      | Inr x \<Rightarrow> (found (event_type_json x), st))"

text \<open>What the lists are answered with.\<close>

definition EventTypesResponse_json :: "event_type list \<Rightarrow> json" where
  [simp]: "EventTypesResponse_json xs = JObj [(''eventTypes'', JArr (map event_type_json xs))]"

definition FunctionsResponse_json :: "func list \<Rightarrow> json" where
  [simp]: "FunctionsResponse_json xs = JObj [(''functions'', JArr (map func_json xs))]"

definition SubscriptionsResponse_json :: "subscription list \<Rightarrow> json" where
  [simp]: "SubscriptionsResponse_json xs = JObj [(''subscriptions'', JArr (map subscription_json xs))]"

definition CORSResponse_json :: "cors list \<Rightarrow> json" where
  [simp]: "CORSResponse_json xs = JObj [(''cors'', JArr (map cors_json xs))]"

definition listEventTypes :: "env \<Rightarrow> ('st, 'h) service \<Rightarrow> api_request \<Rightarrow> 'st \<Rightarrow> handled \<times> 'st" where
  "listEventTypes E svc r st =
     (case ListEventTypes svc (space_of r) (extractMetadataFilters (ar_Query r)) st of
        Inl e \<Rightarrow> (api_error 500 e, st)
      | Inr xs \<Rightarrow> (found (EventTypesResponse_json xs), st))"

fun createEventType_status :: "svc_error \<Rightarrow> int" where
  "createEventType_status (ErrEventTypeValidation _) = 400"
| "createEventType_status (ErrEventTypeAlreadyExists _) = 409"
| "createEventType_status _ = 500"

definition createEventType :: "env \<Rightarrow> ('st, 'h) service \<Rightarrow> api_request \<Rightarrow> 'st \<Rightarrow> handled \<times> 'st" where
  "createEventType E svc r st =
     (case decode read_event_type (ar_Body r) of
        Inl e \<Rightarrow> (decode_failed ErrEventTypeValidation e, st)
      | Inr x \<Rightarrow>
          (case CreateEventType E svc (x\<lparr>et_Space := space_of r\<rparr>) st of
             (Inl e, st') \<Rightarrow> (api_error (createEventType_status e) e, st')
           | (Inr y, st') \<Rightarrow> (created (event_type_json y), st')))"

fun updateEventType_status :: "svc_error \<Rightarrow> int" where
  "updateEventType_status (ErrEventTypeNotFound _) = 404"
| "updateEventType_status (ErrEventTypeValidation _) = 400"
| "updateEventType_status ErrAuthorizerDoesNotExists = 400"
| "updateEventType_status _ = 500"

definition updateEventType :: "env \<Rightarrow> ('st, 'h) service \<Rightarrow> api_request \<Rightarrow> 'st \<Rightarrow> handled \<times> 'st" where
  "updateEventType E svc r st =
     (case decode read_event_type (ar_Body r) of
        Inl e \<Rightarrow> (decode_failed ErrEventTypeValidation e, st)
      | Inr x \<Rightarrow>
          (case UpdateEventType E svc (x\<lparr>et_Space := space_of r, et_Name := ByName (ar_Params r) ''name''\<rparr>) st of
             (Inl e, st') \<Rightarrow> (api_error (updateEventType_status e) e, st')
           | (Inr y, st') \<Rightarrow> (updated (event_type_json y), st')))"

fun deleteEventType_status :: "svc_error \<Rightarrow> int" where
  "deleteEventType_status (ErrEventTypeNotFound _) = 404"
| "deleteEventType_status ErrEventTypeHasSubscriptions = 400"
| "deleteEventType_status _ = 500"

definition deleteEventType :: "env \<Rightarrow> ('st, 'h) service \<Rightarrow> api_request \<Rightarrow> 'st \<Rightarrow> handled \<times> 'st" where
  "deleteEventType E svc r st =
     (case DeleteEventType svc (space_of r) (ByName (ar_Params r) ''name'') st of
        (Some e, st') \<Rightarrow> (api_error (deleteEventType_status e) e, st')
      | (None, st') \<Rightarrow> (no_content, st'))"

subsection \<open>Functions\<close>

fun getFunction_status :: "svc_error \<Rightarrow> int" where
  "getFunction_status (ErrFunctionNotFound _) = 404"
| "getFunction_status _ = 500"

definition getFunction :: "env \<Rightarrow> ('st, 'h) service \<Rightarrow> api_request \<Rightarrow> 'st \<Rightarrow> handled \<times> 'st" where
  "getFunction E svc r st =
     (case GetFunction E svc (space_of r) (ByName (ar_Params r) ''id'') st of
        Inl e \<Rightarrow> (api_error (getFunction_status e) e, st)
      | Inr x \<Rightarrow> (found (func_json x), st))"

definition listFunctions :: "env \<Rightarrow> ('st, 'h) service \<Rightarrow> api_request \<Rightarrow> 'st \<Rightarrow> handled \<times> 'st" where
  "listFunctions E svc r st =
     (case ListFunctions E svc (space_of r) (extractMetadataFilters (ar_Query r)) st of
        Inl e \<Rightarrow> (api_error 500 e, st)
      | Inr xs \<Rightarrow> (found (FunctionsResponse_json xs), st))"

fun createFunction_status :: "svc_error \<Rightarrow> int" where
  "createFunction_status (ErrFunctionValidation _) = 400"
| "createFunction_status (ErrFunctionAlreadyRegistered _) = 409"
| "createFunction_status _ = 500"

definition createFunction :: "env \<Rightarrow> ('st, 'h) service \<Rightarrow> api_request \<Rightarrow> 'st \<Rightarrow> handled \<times> 'st" where
  "createFunction E svc r st =
     (case decode (read_func E) (ar_Body r) of
        Inl e \<Rightarrow> (decode_failed ErrFunctionValidation e, st)
      | Inr x \<Rightarrow>
          (case CreateFunction E svc (x\<lparr>fn_Space := space_of r\<rparr>) st of
             (Inl e, st') \<Rightarrow> (api_error (createFunction_status e) e, st')
           | (Inr y, st') \<Rightarrow> (created (func_json y), st')))"

fun updateFunction_status :: "svc_error \<Rightarrow> int" where
  "updateFunction_status (ErrFunctionValidation _) = 400"
| "updateFunction_status (ErrFunctionNotFound _) = 404"
| "updateFunction_status _ = 500"

definition updateFunction :: "env \<Rightarrow> ('st, 'h) service \<Rightarrow> api_request \<Rightarrow> 'st \<Rightarrow> handled \<times> 'st" where
  "updateFunction E svc r st =
     (case decode (read_func E) (ar_Body r) of
        Inl e \<Rightarrow> (decode_failed ErrFunctionValidation e, st)
      | Inr x \<Rightarrow>
          (case UpdateFunction E svc (x\<lparr>fn_Space := space_of r, fn_ID := ByName (ar_Params r) ''id''\<rparr>) st of
             (Inl e, st') \<Rightarrow> (api_error (updateFunction_status e) e, st')
           | (Inr y, st') \<Rightarrow> (found (func_json y), st')))"

fun deleteFunction_status :: "svc_error \<Rightarrow> int" where
  "deleteFunction_status (ErrFunctionNotFound _) = 404"
| "deleteFunction_status ErrFunctionHasSubscriptions = 400"
| "deleteFunction_status (ErrFunctionIsAuthorizer _ _) = 400"
| "deleteFunction_status _ = 500"

definition deleteFunction :: "env \<Rightarrow> ('st, 'h) service \<Rightarrow> api_request \<Rightarrow> 'st \<Rightarrow> handled \<times> 'st" where
  "deleteFunction E svc r st =
     (case DeleteFunction svc (space_of r) (ByName (ar_Params r) ''id'') st of
        (Some e, st') \<Rightarrow> (api_error (deleteFunction_status e) e, st')
      | (None, st') \<Rightarrow> (no_content, st'))"

subsection \<open>Subscriptions\<close>

fun getSubscription_status :: "svc_error \<Rightarrow> int" where
  "getSubscription_status (ErrSubscriptionNotFound _) = 404"
| "getSubscription_status _ = 500"

definition getSubscription :: "env \<Rightarrow> ('st, 'h) service \<Rightarrow> api_request \<Rightarrow> 'st \<Rightarrow> handled \<times> 'st" where
  "getSubscription E svc r st =
     (case GetSubscription svc (space_of r) (ByName (ar_Params r) ''id'') st of
        Inl e \<Rightarrow> (api_error (getSubscription_status e) e, st)
      | Inr x \<Rightarrow> (found (subscription_json x), st))"

definition listSubscriptions :: "env \<Rightarrow> ('st, 'h) service \<Rightarrow> api_request \<Rightarrow> 'st \<Rightarrow> handled \<times> 'st" where
  "listSubscriptions E svc r st =
     (case ListSubscriptions svc (space_of r) (extractMetadataFilters (ar_Query r)) st of
        Inl e \<Rightarrow> (api_error 500 e, st)
      | Inr xs \<Rightarrow> (found (SubscriptionsResponse_json xs), st))"

fun createSubscription_status :: "svc_error \<Rightarrow> int" where
  "createSubscription_status (ErrSubscriptionAlreadyExists _) = 409"
| "createSubscription_status (ErrEventTypeNotFound _) = 400"
| "createSubscription_status (ErrFunctionNotFound _) = 400"
| "createSubscription_status (ErrSubscriptionValidation _) = 400"
| "createSubscription_status (ErrPathConfict _) = 400"
| "createSubscription_status _ = 500"

definition createSubscription :: "(nat \<Rightarrow> nat) \<Rightarrow> env \<Rightarrow> ('st, 'h) service \<Rightarrow> api_request \<Rightarrow> 'st \<Rightarrow> handled \<times> 'st" where
  "createSubscription pick E svc r st =
     (case decode read_subscription (ar_Body r) of
        Inl e \<Rightarrow> (decode_failed ErrSubscriptionValidation e, st)
      | Inr x \<Rightarrow>
          (case CreateSubscription pick E svc (x\<lparr>sub_Space := space_of r\<rparr>) st of
             (Inl e, st') \<Rightarrow> (api_error (createSubscription_status e) e, st')
           | (Inr y, st') \<Rightarrow> (created (subscription_json y), st')))"

fun updateSubscription_status :: "svc_error \<Rightarrow> int" where
  "updateSubscription_status (ErrInvalidSubscriptionUpdate _) = 400"
| "updateSubscription_status (ErrSubscriptionNotFound _) = 404"
| "updateSubscription_status (ErrFunctionNotFound _) = 400"
| "updateSubscription_status (ErrSubscriptionValidation _) = 400"
| "updateSubscription_status _ = 500"

definition updateSubscription :: "env \<Rightarrow> ('st, 'h) service \<Rightarrow> api_request \<Rightarrow> 'st \<Rightarrow> handled \<times> 'st" where
  "updateSubscription E svc r st =
     (case decode read_subscription (ar_Body r) of
        Inl e \<Rightarrow> (decode_failed ErrSubscriptionValidation e, st)
      | Inr x \<Rightarrow>
          (case UpdateSubscription E svc (ByName (ar_Params r) ''id'')
            (x\<lparr>sub_Space := space_of r, sub_ID := ByName (ar_Params r) ''id''\<rparr>) st of
             (Inl e, st') \<Rightarrow> (api_error (updateSubscription_status e) e, st')
           | (Inr y, st') \<Rightarrow> (updated (subscription_json y), st')))"

fun deleteSubscription_status :: "svc_error \<Rightarrow> int" where
  "deleteSubscription_status (ErrSubscriptionNotFound _) = 404"
| "deleteSubscription_status _ = 500"

definition deleteSubscription :: "env \<Rightarrow> ('st, 'h) service \<Rightarrow> api_request \<Rightarrow> 'st \<Rightarrow> handled \<times> 'st" where
  "deleteSubscription E svc r st =
     (case DeleteSubscription svc (space_of r) (ByName (ar_Params r) ''id'') st of
        (Some e, st') \<Rightarrow> (api_error (deleteSubscription_status e) e, st')
      | (None, st') \<Rightarrow> (no_content, st'))"

subsection \<open>CORS configurations\<close>

fun getCORS_status :: "svc_error \<Rightarrow> int" where
  "getCORS_status (ErrCORSNotFound _) = 404"
| "getCORS_status _ = 500"

definition getCORS :: "env \<Rightarrow> ('st, 'h) service \<Rightarrow> api_request \<Rightarrow> 'st \<Rightarrow> handled \<times> 'st" where
  "getCORS E svc r st =
     (case GetCORS svc (space_of r) (extractCORSID (ar_RawPath r)) st of
        Inl e \<Rightarrow> (api_error (getCORS_status e) e, st)
      | Inr x \<Rightarrow> (found (cors_json x), st))"

definition listCORS :: "env \<Rightarrow> ('st, 'h) service \<Rightarrow> api_request \<Rightarrow> 'st \<Rightarrow> handled \<times> 'st" where
  "listCORS E svc r st =
     (case ListCORS svc (space_of r) (extractMetadataFilters (ar_Query r)) st of
        Inl e \<Rightarrow> (api_error 500 e, st)
      | Inr xs \<Rightarrow> (found (CORSResponse_json xs), st))"

fun createCORS_status :: "svc_error \<Rightarrow> int" where
  "createCORS_status (ErrCORSAlreadyExists _) = 409"
| "createCORS_status (ErrCORSValidation _) = 400"
| "createCORS_status _ = 500"

definition createCORS :: "env \<Rightarrow> ('st, 'h) service \<Rightarrow> api_request \<Rightarrow> 'st \<Rightarrow> handled \<times> 'st" where
  "createCORS E svc r st =
     (case decode read_cors (ar_Body r) of
        Inl e \<Rightarrow> (decode_failed ErrCORSValidation e, st)
      | Inr x \<Rightarrow>
          (case CreateCORS E svc (x\<lparr>cors_Space := space_of r\<rparr>) st of
             (Inl e, st') \<Rightarrow> (api_error (createCORS_status e) e, st')
           | (Inr y, st') \<Rightarrow> (created (cors_json y), st')))"

fun updateCORS_status :: "svc_error \<Rightarrow> int" where
  "updateCORS_status (ErrCORSNotFound _) = 404"
| "updateCORS_status (ErrCORSValidation _) = 400"
| "updateCORS_status _ = 500"

definition updateCORS :: "env \<Rightarrow> ('st, 'h) service \<Rightarrow> api_request \<Rightarrow> 'st \<Rightarrow> handled \<times> 'st" where
  "updateCORS E svc r st =
     (case decode read_cors (ar_Body r) of
        Inl e \<Rightarrow> (decode_failed ErrCORSValidation e, st)
      | Inr x \<Rightarrow>
          (case UpdateCORS E svc (x\<lparr>cors_Space := space_of r, cors_ID := extractCORSID (ar_RawPath r)\<rparr>) st of
             (Inl e, st') \<Rightarrow> (api_error (updateCORS_status e) e, st')
           | (Inr y, st') \<Rightarrow> (updated (cors_json y), st')))"

fun deleteCORS_status :: "svc_error \<Rightarrow> int" where
  "deleteCORS_status (ErrCORSNotFound _) = 404"
| "deleteCORS_status _ = 500"

definition deleteCORS :: "env \<Rightarrow> ('st, 'h) service \<Rightarrow> api_request \<Rightarrow> 'st \<Rightarrow> handled \<times> 'st" where
  "deleteCORS E svc r st =
     (case DeleteCORS svc (space_of r) (extractCORSID (ar_RawPath r)) st of
        (Some e, st') \<Rightarrow> (api_error (deleteCORS_status e) e, st')
      | (None, st') \<Rightarrow> (no_content, st'))"

subsection \<open>Routes\<close>

datatype endpoint =
    Status | Metrics
  | ListEventTypesEP | GetEventTypeEP | CreateEventTypeEP | UpdateEventTypeEP | DeleteEventTypeEP
  | ListFunctionsEP | GetFunctionEP | CreateFunctionEP | UpdateFunctionEP | DeleteFunctionEP
  | ListSubscriptionsEP | GetSubscriptionEP | CreateSubscriptionEP | UpdateSubscriptionEP | DeleteSubscriptionEP
  | ListCORSEP | GetCORSEP | CreateCORSEP | UpdateCORSEP | DeleteCORSEP

definition RegisterRoutes :: "(string \<times> string \<times> endpoint) list" where
  "RegisterRoutes =
    [(''GET'', ''/v1/status'', Status), (''GET'', ''/v1/metrics'', Metrics),
     (''GET'', ''/v1/spaces/:space/eventtypes'', ListEventTypesEP),
     (''GET'', ''/v1/spaces/:space/eventtypes/:name'', GetEventTypeEP),
     (''POST'', ''/v1/spaces/:space/eventtypes'', CreateEventTypeEP),
     (''PUT'', ''/v1/spaces/:space/eventtypes/:name'', UpdateEventTypeEP),
     (''DELETE'', ''/v1/spaces/:space/eventtypes/:name'', DeleteEventTypeEP),
     (''GET'', ''/v1/spaces/:space/functions'', ListFunctionsEP),
     (''GET'', ''/v1/spaces/:space/functions/:id'', GetFunctionEP),
     (''POST'', ''/v1/spaces/:space/functions'', CreateFunctionEP),
     (''PUT'', ''/v1/spaces/:space/functions/:id'', UpdateFunctionEP),
     (''DELETE'', ''/v1/spaces/:space/functions/:id'', DeleteFunctionEP),
     (''GET'', ''/v1/spaces/:space/subscriptions'', ListSubscriptionsEP),
     (''GET'', ''/v1/spaces/:space/subscriptions/:id'', GetSubscriptionEP),
     (''POST'', ''/v1/spaces/:space/subscriptions'', CreateSubscriptionEP),
     (''PUT'', ''/v1/spaces/:space/subscriptions/:id'', UpdateSubscriptionEP),
     (''DELETE'', ''/v1/spaces/:space/subscriptions/:id'', DeleteSubscriptionEP),
     (''GET'', ''/v1/spaces/:space/cors'', ListCORSEP),
     (''GET'', ''/v1/spaces/:space/cors/*id'', GetCORSEP),
     (''POST'', ''/v1/spaces/:space/cors'', CreateCORSEP),
     (''PUT'', ''/v1/spaces/:space/cors/*id'', UpdateCORSEP),
     (''DELETE'', ''/v1/spaces/:space/cors/*id'', DeleteCORSEP)]"

text \<open>The handler of an endpoint. The exporter of the metrics is third-party: \<open>metrics\<close>.\<close>

fun serve :: "handled \<Rightarrow> (nat \<Rightarrow> nat) \<Rightarrow> env \<Rightarrow> ('st, 'h) service \<Rightarrow> endpoint \<Rightarrow> api_request \<Rightarrow> 'st \<Rightarrow> handled \<times> 'st" where
  "serve metrics pick E svc Status r st = (Responds new_response, st)"
| "serve metrics pick E svc Metrics r st = (metrics, st)"
| "serve metrics pick E svc ListEventTypesEP r st = listEventTypes E svc r st"
| "serve metrics pick E svc GetEventTypeEP r st = getEventType E svc r st"
| "serve metrics pick E svc CreateEventTypeEP r st = createEventType E svc r st"
| "serve metrics pick E svc UpdateEventTypeEP r st = updateEventType E svc r st"
| "serve metrics pick E svc DeleteEventTypeEP r st = deleteEventType E svc r st"
| "serve metrics pick E svc ListFunctionsEP r st = listFunctions E svc r st"
| "serve metrics pick E svc GetFunctionEP r st = getFunction E svc r st"
| "serve metrics pick E svc CreateFunctionEP r st = createFunction E svc r st"
| "serve metrics pick E svc UpdateFunctionEP r st = updateFunction E svc r st"
| "serve metrics pick E svc DeleteFunctionEP r st = deleteFunction E svc r st"
| "serve metrics pick E svc ListSubscriptionsEP r st = listSubscriptions E svc r st"
| "serve metrics pick E svc GetSubscriptionEP r st = getSubscription E svc r st"
| "serve metrics pick E svc CreateSubscriptionEP r st = createSubscription pick E svc r st"
| "serve metrics pick E svc UpdateSubscriptionEP r st = updateSubscription E svc r st"
| "serve metrics pick E svc DeleteSubscriptionEP r st = deleteSubscription E svc r st"
| "serve metrics pick E svc ListCORSEP r st = listCORS E svc r st"
| "serve metrics pick E svc GetCORSEP r st = getCORS E svc r st"
| "serve metrics pick E svc CreateCORSEP r st = createCORS E svc r st"
| "serve metrics pick E svc UpdateCORSEP r st = updateCORS E svc r st"
| "serve metrics pick E svc DeleteCORSEP r st = deleteCORS E svc r st"

end
