(* ===== verification/APIFacts.thy ===== *)
theory APIFacts
  imports HTTPAPI ServiceProps
begin

section \<open>Facts on the configuration API\<close>

text \<open>
  What a request to the configuration API does to the database: at most one of the requests of
  theory Requests, and nothing when it is answered with a client error. With that the
  invariants of the services carry over to the API; one more is kept, that every stored
  function document decodes, so that only the body of a request can make a handler panic.
\<close>

lemmas api_defs = api_error_def decode_failed_def created_def updated_def found_def no_content_def
  json_response_def

lemma status_simps [simp]:
  "status (Encode j w) = status w"
  "status (WriteHeader c w) = (case rw_Sent w of None \<Rightarrow> c | Some (c', _) \<Rightarrow> c')"
  by (auto simp: status_def split: option.splits)

lemma answer_status [simp]:
  "api_error code e = Responds w \<Longrightarrow> status w = code"
  "created j = Responds w \<Longrightarrow> status w = 201" "updated j = Responds w \<Longrightarrow> status w = 200"
  "found j = Responds w \<Longrightarrow> status w = 200" "no_content = Responds w \<Longrightarrow> status w = 204"
  by (auto simp: api_defs status_def split: if_splits)

lemma answers_not_aborted [simp]:
  "created j \<noteq> Aborted" "updated j \<noteq> Aborted" "found j \<noteq> Aborted" "no_content \<noteq> Aborted"
  by (simp_all add: api_defs)

lemma failures_aborted [simp]:
  "api_error code e = Aborted \<longleftrightarrow> e = Panicked"
  "(\<And>m. validation m \<noteq> Panicked) \<Longrightarrow> decode_failed validation e = Aborted \<longleftrightarrow> e = Panicked"
  by (simp_all add: api_error_def decode_failed_def)

lemma body_simps [simp]:
  "found j = Responds w \<Longrightarrow> rw_Body w = [Doc j]"
  "created j = Responds w \<Longrightarrow> rw_Body w = [Doc j]"
  by (auto simp: api_defs Encode_def Write_def has_no_body_def Header_Set_def WriteHeader_def new_response_def Let_def)

subsection \<open>One request at most\<close>

fun carries_function :: "request \<Rightarrow> func option" where
  "carries_function (CreateFunctionReq f) = Some f"
| "carries_function (UpdateFunctionReq f) = Some f"
| "carries_function _ = None"

lemma loaded_update [simp]:
  "loaded E (f\<lparr>fn_Space := sp\<rparr>) = loaded E f" "loaded E (f\<lparr>fn_ID := i\<rparr>) = loaded E f"
  by (simp_all add: loaded_def)

lemma decode_loaded: "decode (read_func E) b = Inr f \<Longrightarrow> loaded E f"
  by (auto simp: decode_def dest: read_func_loaded split: blob.splits)

lemmas handler_simps = createEventType_def updateEventType_def deleteEventType_def
  createFunction_def updateFunction_def deleteFunction_def
  createSubscription_def updateSubscription_def deleteSubscription_def
  createCORS_def updateCORS_def deleteCORS_def
  getEventType_def listEventTypes_def getFunction_def listFunctions_def
  getSubscription_def listSubscriptions_def getCORS_def listCORS_def

text \<open>The request that the service gets from an endpoint whose body decodes.\<close>

fun service_request :: "env \<Rightarrow> endpoint \<Rightarrow> api_request \<Rightarrow> request option" where
  "service_request E CreateEventTypeEP r = (case decode read_event_type (ar_Body r) of Inl _ \<Rightarrow> None
     | Inr x \<Rightarrow> Some (CreateEventTypeReq (x\<lparr>et_Space := space_of r\<rparr>)))"
| "service_request E UpdateEventTypeEP r = (case decode read_event_type (ar_Body r) of Inl _ \<Rightarrow> None
     | Inr x \<Rightarrow> Some (UpdateEventTypeReq (x\<lparr>et_Space := space_of r, et_Name := ByName (ar_Params r) ''name''\<rparr>)))"
| "service_request E DeleteEventTypeEP r = Some (DeleteEventTypeReq (space_of r) (ByName (ar_Params r) ''name''))"
| "service_request E CreateFunctionEP r = (case decode (read_func E) (ar_Body r) of Inl _ \<Rightarrow> None
     | Inr x \<Rightarrow> Some (CreateFunctionReq (x\<lparr>fn_Space := space_of r\<rparr>)))"
| "service_request E UpdateFunctionEP r = (case decode (read_func E) (ar_Body r) of Inl _ \<Rightarrow> None
     | Inr x \<Rightarrow> Some (UpdateFunctionReq (x\<lparr>fn_Space := space_of r, fn_ID := ByName (ar_Params r) ''id''\<rparr>)))"
| "service_request E DeleteFunctionEP r = Some (DeleteFunctionReq (space_of r) (ByName (ar_Params r) ''id''))"
| "service_request E CreateSubscriptionEP r = (case decode read_subscription (ar_Body r) of Inl _ \<Rightarrow> None
     | Inr x \<Rightarrow> Some (CreateSubscriptionReq (x\<lparr>sub_Space := space_of r\<rparr>)))"
| "service_request E UpdateSubscriptionEP r = (case decode read_subscription (ar_Body r) of Inl _ \<Rightarrow> None
     | Inr x \<Rightarrow> Some (UpdateSubscriptionReq (ByName (ar_Params r) ''id'') (x\<lparr>sub_Space := space_of r\<rparr>)))"
| "service_request E DeleteSubscriptionEP r = Some (DeleteSubscriptionReq (space_of r) (ByName (ar_Params r) ''id''))"
| "service_request E CreateCORSEP r = (case decode read_cors (ar_Body r) of Inl _ \<Rightarrow> None
     | Inr x \<Rightarrow> Some (CreateCORSReq (x\<lparr>cors_Space := space_of r\<rparr>)))"
| "service_request E UpdateCORSEP r = (case decode read_cors (ar_Body r) of Inl _ \<Rightarrow> None
     | Inr x \<Rightarrow> Some (UpdateCORSReq (x\<lparr>cors_Space := space_of r, cors_ID := extractCORSID (ar_RawPath r)\<rparr>)))"
| "service_request E DeleteCORSEP r = Some (DeleteCORSReq (space_of r) (extractCORSID (ar_RawPath r)))"
| "service_request E _ r = None"

lemma state_of_answer:
  "snd (case x of (Inl e, st) \<Rightarrow> (a e, st) | (Inr y, st) \<Rightarrow> (b y, st)) = snd x"
  "snd (case z of (Some e, st) \<Rightarrow> (a' e, st) | (None, st) \<Rightarrow> (b', st)) = snd z"
  by (auto split: prod.split sum.split option.split)

lemma serve_state:
  "snd (serve metrics pick E svc ep r st) =
     (case service_request E ep r of None \<Rightarrow> st | Some q \<Rightarrow> perform pick E svc q st)"
  by (cases ep) (simp_all add: handler_simps state_of_answer split: sum.split)

lemma service_request_loaded:
  "service_request E ep r = Some q \<Longrightarrow> carries_function q = Some f \<Longrightarrow> loaded E f"
  using decode_loaded [of E "ar_Body r"] by (cases ep) (auto split: sum.splits)

fun api_run :: "handled \<Rightarrow> (nat \<Rightarrow> nat) \<Rightarrow> env \<Rightarrow> ('st, 'h) service \<Rightarrow> (endpoint \<times> api_request) list \<Rightarrow> 'st \<Rightarrow> 'st" where
  "api_run metrics pick E svc [] st = st"
| "api_run metrics pick E svc ((ep, r) # rs) st =
     api_run metrics pick E svc rs (snd (serve metrics pick E svc ep r st))"

lemma api_run_is_run:
  "\<exists>qs. api_run metrics pick E svc rs st = run pick E svc qs st \<and>
     (\<forall>q \<in> set qs. \<forall>f. carries_function q = Some f \<longrightarrow> loaded E f)"
proof (induction rs arbitrary: st)
  case (Cons er rs)
  obtain ep r where er: "er = (ep, r)" by fastforce
  show ?case
  proof (cases "service_request E ep r")
    case None
    then show ?thesis using Cons.IH [of st] by (simp add: er serve_state)
  next
    case (Some q)
    obtain qs where "api_run metrics pick E svc rs (perform pick E svc q st) = run pick E svc qs (perform pick E svc q st)"
      "\<forall>q \<in> set qs. \<forall>f. carries_function q = Some f \<longrightarrow> loaded E f"
      using Cons.IH by blast
    then have "api_run metrics pick E svc (er # rs) st = run pick E svc (q # qs) st \<and>
        (\<forall>q \<in> set (q # qs). \<forall>f. carries_function q = Some f \<longrightarrow> loaded E f)"
      using Some service_request_loaded [OF Some] by (simp add: er serve_state)
    then show ?thesis by blast
  qed
qed (auto intro: exI [of _ "[]"])

subsection \<open>Stored functions decode\<close>

lemma all_loaded_update: "all_loaded E fc \<Longrightarrow> loaded E f \<Longrightarrow> all_loaded E (fc(k \<mapsto> Doc (func_json f)))"
  by (auto simp: all_loaded_def read_func_json)

lemma all_loaded_delete: "all_loaded E fc \<Longrightarrow> all_loaded E (fc(k := None))"
  by (auto simp: all_loaded_def)

context config_stores
begin

lemma CreateFunction_loaded:
  assumes "all_loaded E (fc st)" and "loaded E f0"
  shows "all_loaded E (fc (snd (CreateFunction E svc f0 st)))"
  using CreateFunction_effect [OF prod.collapse [symmetric], of E f0 st] assms validateFunction_Inr [of E f0]
  by (auto simp: view_def all_loaded_update)

lemma UpdateFunction_loaded:
  assumes "all_loaded E (fc st)" and "loaded E f0"
  shows "all_loaded E (fc (snd (UpdateFunction E svc f0 st)))"
  using UpdateFunction_effect [OF prod.collapse [symmetric], of E f0 st] assms validateFunction_Inr [of E f0]
  by (auto simp: view_def all_loaded_update)

lemma DeleteFunction_loaded:
  "all_loaded E (fc st) \<Longrightarrow> all_loaded E (fc (snd (DeleteFunction svc sp i st)))"
  using DeleteFunction_effect [OF prod.collapse [symmetric], of sp i st]
  by (auto simp: view_def all_loaded_delete)

lemma others_keep_fc:
  "fc (snd (CreateEventType E svc t0 st)) = fc st" "fc (snd (UpdateEventType E svc t0 st)) = fc st"
  "fc (snd (DeleteEventType svc sp n st)) = fc st"
  "fc (snd (CreateSubscription pick E svc s0 st)) = fc st" "fc (snd (UpdateSubscription E svc i s0 st)) = fc st"
  "fc (snd (DeleteSubscription svc sp i st)) = fc st"
  "fc (snd (CreateCORS E svc c0 st)) = fc st" "fc (snd (UpdateCORS E svc c0 st)) = fc st"
  "fc (snd (DeleteCORS svc sp i st)) = fc st"
  using CreateEventType_effect [OF prod.collapse [symmetric], of E t0 st]
    UpdateEventType_effect [OF prod.collapse [symmetric], of E t0 st]
    DeleteEventType_effect [OF prod.collapse [symmetric], of sp n st]
    CreateSubscription_effect [OF prod.collapse [symmetric], of pick E s0 st]
    UpdateSubscription_effect [OF prod.collapse [symmetric], of E i s0 st]
    DeleteSubscription_effect [OF prod.collapse [symmetric], of sp i st]
    CreateCORS_effect [OF prod.collapse [symmetric], of E c0 st]
    UpdateCORS_effect [OF prod.collapse [symmetric], of E c0 st]
    DeleteCORS_effect [OF prod.collapse [symmetric], of sp i st]
  by (auto simp: view_def)

lemma perform_loaded:
  "all_loaded E (fc st) \<Longrightarrow> (\<And>f. carries_function q = Some f \<Longrightarrow> loaded E f) \<Longrightarrow>
   all_loaded E (fc (perform pick E svc q st))"
  by (cases q) (simp_all add: others_keep_fc CreateFunction_loaded UpdateFunction_loaded DeleteFunction_loaded)

lemma run_loaded:
  "all_loaded E (fc st) \<Longrightarrow> \<forall>q \<in> set qs. \<forall>f. carries_function q = Some f \<longrightarrow> loaded E f \<Longrightarrow>
   all_loaded E (fc (run pick E svc qs st))"
  by (induction qs arbitrary: st) (auto simp: perform_loaded)

end

end
