(* ===== verification/APIProps.thy ===== *)
theory APIProps
  imports APIFacts
begin

section \<open>Properties of the configuration API\<close>

text \<open>
  The properties of the handlers over the service that \<^verbatim>\<open>main\<close> builds: which state the API
  can reach, when a handler panics, what a client error leaves behind, and the statuses that
  differ from the documentation.
\<close>

subsection \<open>No panic from the database\<close>

lemma readers_never_panic:
  "read_event_type j \<noteq> Inl Panicked" "read_subscription j \<noteq> Inl Panicked" "read_cors j \<noteq> Inl Panicked"
  by (auto simp: read_event_type_def read_subscription_def read_cors_def split: sum.splits)

lemma decode_never_panics:
  "decode read_event_type b \<noteq> Inl Panicked" "decode read_subscription b \<noteq> Inl Panicked"
  "decode read_cors b \<noteq> Inl Panicked"
  by (auto simp: decode_def readers_never_panic split: blob.splits)

lemma list_never_panics:
  assumes "\<And>p. p \<in> set ps \<Longrightarrow> decode rd (Value p) \<noteq> Inl Panicked"
  shows "list_loop rd md fs ps \<noteq> Inl Panicked"
  using assms by (induction ps) (auto split: sum.splits)

lemma list_entities_never_panics:
  assumes "\<And>ps p. l = Inr ps \<Longrightarrow> p \<in> set ps \<Longrightarrow> decode rd (Value p) \<noteq> Inl Panicked"
  shows "list_entities rd md fs l \<noteq> Inl Panicked"
  using assms by (auto simp: list_entities_def list_never_panics split: sum.splits)

lemma checked_never_panics:
  "(\<And>m. err m \<noteq> Panicked) \<Longrightarrow> (case x of Some m \<Rightarrow> Inl (err m) | None \<Rightarrow> Inr c) \<noteq> Inl Panicked"
  by (simp split: option.split)

lemma validations_never_panic:
  "validateFunction E f \<noteq> Inl Panicked" "validateEventType E t \<noteq> Inl Panicked"
  "validateSubscription E s \<noteq> Inl Panicked" "validateCORS E c \<noteq> Inl Panicked"
  "validateSubscriptionUpdate s s' \<noteq> Some Panicked" "validateCORSUpdate d d' \<noteq> Some Panicked"
  unfolding validateFunction_def validateEventType_def validateSubscription_def validateCORS_def Let_def
  by (rule checked_never_panics, simp)+
   (simp_all add: validateSubscriptionUpdate_def validateCORSUpdate_def)

lemma conflict_tree_never_panics: "conflict_tree pick me et tree ps \<noteq> Inl Panicked"
  by (induction ps arbitrary: tree) (auto simp: decode_never_panics split: sum.splits)

lemma checkForPathConflict_never_panics: "checkForPathConflict pick svc sp me p et st \<noteq> Some Panicked"
  by (auto simp: checkForPathConflict_def conflict_tree_never_panics split: sum.splits option.splits)

lemma reads_never_panic:
  "GetEventType svc sp n st \<noteq> Inl Panicked" "GetSubscription svc sp i st \<noteq> Inl Panicked"
  "GetCORS svc sp i st \<noteq> Inl Panicked"
  "ListEventTypes svc sp fs st \<noteq> Inl Panicked" "ListSubscriptions svc sp fs st \<noteq> Inl Panicked"
  "ListCORS svc sp fs st \<noteq> Inl Panicked"
  by (auto simp: GetEventType_def GetSubscription_def GetCORS_def ListEventTypes_def ListSubscriptions_def
      ListCORS_def get_error_def decode_never_panics list_entities_never_panics split: sum.splits if_splits)

lemmas never_panic = decode_never_panics validations_never_panic checkForPathConflict_never_panics reads_never_panic

context config_stores
begin

lemma functions_never_panic:
  assumes "all_loaded E (fc st)"
  shows "GetFunction E svc sp i st \<noteq> Inl Panicked" "ListFunctions E svc sp fs st \<noteq> Inl Panicked"
    "check_authorizer E svc t st \<noteq> Some Panicked"
proof -
  have get: "GetFunction E svc sp i st \<noteq> Inl Panicked" for sp i
    using assms F.Get_found [of "FunctionKey sp i" st]
    by (fastforce simp: GetFunction_def get_error_def all_loaded_def split: sum.splits if_splits)
  show "GetFunction E svc sp i st \<noteq> Inl Panicked" by (rule get)
  show "check_authorizer E svc t st \<noteq> Some Panicked"
    using get by (auto simp: check_authorizer_def split: option.splits sum.splits svc_error.splits)
  show "ListFunctions E svc sp fs st \<noteq> Inl Panicked"
    unfolding ListFunctions_def
  proof (rule list_entities_never_panics)
    fix ps p
    assume "kv_List (FunctionStore svc) (spacePath sp) st = Inr ps" "p \<in> set ps"
    then obtain k where "fc st k = Some (Value p)"
      using F.List_found [OF spacePath_not_Nil, of sp st ps] by (auto simp: set_eq_iff image_iff)
    then show "decode (read_func E) (Value p) \<noteq> Inl Panicked"
      using assms by (force simp: all_loaded_def)
  qed
qed

lemma writes_never_panic:
  assumes "all_loaded E (fc st)"
  shows "fst (CreateFunction E svc f0 st) \<noteq> Inl Panicked" "fst (UpdateFunction E svc f0 st) \<noteq> Inl Panicked"
    "fst (CreateEventType E svc t0 st) \<noteq> Inl Panicked" "fst (UpdateEventType E svc t0 st) \<noteq> Inl Panicked"
    "fst (CreateSubscription pick E svc s0 st) \<noteq> Inl Panicked" "fst (UpdateSubscription E svc i s0 st) \<noteq> Inl Panicked"
    "fst (CreateCORS E svc c0 st) \<noteq> Inl Panicked" "fst (UpdateCORS E svc c0 st) \<noteq> Inl Panicked"
    "fst (DeleteEventType svc sp n st) \<noteq> Some Panicked" "fst (DeleteFunction svc sp n st) \<noteq> Some Panicked"
    "fst (DeleteSubscription svc sp n st) \<noteq> Some Panicked" "fst (DeleteCORS svc sp n st) \<noteq> Some Panicked"
  by (auto simp: CreateFunction_def UpdateFunction_def never_panic functions_never_panic [OF assms]
      split: sum.splits prod.splits option.splits)
   (auto simp: CreateEventType_def UpdateEventType_def never_panic functions_never_panic [OF assms]
      split: sum.splits prod.splits option.splits,
    auto simp: CreateSubscription_def UpdateSubscription_def Let_def never_panic functions_never_panic [OF assms]
      split: sum.splits prod.splits option.splits if_splits,
    auto simp: CreateCORS_def UpdateCORS_def Let_def never_panic split: sum.splits prod.splits option.splits,
    auto simp: DeleteEventType_def DeleteFunction_def DeleteSubscription_def DeleteCORS_def never_panic
      split: sum.splits prod.splits option.splits if_splits)

end

subsection \<open>Client errors\<close>

text \<open>Refusals are made before anything is written; a failed deletion deletes nothing.\<close>

lemma refused_before_writing:
  "CreateFunction E svc f0 st = (Inl e, st') \<Longrightarrow> (\<And>m. e \<noteq> StoreError m) \<Longrightarrow> st' = st"
  "UpdateFunction E svc f0 st = (Inl e, st') \<Longrightarrow> (\<And>m. e \<noteq> StoreError m) \<Longrightarrow> st' = st"
  "CreateEventType E svc t0 st = (Inl e, st') \<Longrightarrow> (\<And>m. e \<noteq> StoreError m) \<Longrightarrow> st' = st"
  "UpdateEventType E svc t0 st = (Inl e, st') \<Longrightarrow> (\<And>m. e \<noteq> StoreError m) \<Longrightarrow> st' = st"
  "CreateSubscription pick E svc s0 st = (Inl e, st') \<Longrightarrow> (\<And>m. e \<noteq> StoreError m) \<Longrightarrow> st' = st"
  "UpdateSubscription E svc i s0 st = (Inl e, st') \<Longrightarrow> (\<And>m. e \<noteq> StoreError m) \<Longrightarrow> st' = st"
  "CreateCORS E svc c0 st = (Inl e, st') \<Longrightarrow> (\<And>m. e \<noteq> StoreError m) \<Longrightarrow> st' = st"
  "UpdateCORS E svc c0 st = (Inl e, st') \<Longrightarrow> (\<And>m. e \<noteq> StoreError m) \<Longrightarrow> st' = st"
  by (auto simp: CreateFunction_def UpdateFunction_def split: sum.splits prod.splits option.splits)
   (auto simp: CreateEventType_def UpdateEventType_def split: sum.splits prod.splits option.splits,
    auto simp: CreateSubscription_def UpdateSubscription_def Let_def
      split: sum.splits prod.splits option.splits if_splits,
    auto simp: CreateCORS_def UpdateCORS_def Let_def split: sum.splits prod.splits option.splits)

lemma store_error_status:
  "createEventType_status (StoreError m) = 500" "updateEventType_status (StoreError m) = 500"
  "createFunction_status (StoreError m) = 500" "updateFunction_status (StoreError m) = 500"
  "createSubscription_status (StoreError m) = 500" "updateSubscription_status (StoreError m) = 500"
  "createCORS_status (StoreError m) = 500" "updateCORS_status (StoreError m) = 500"
  by simp_all

context config_stores
begin

lemma refused_view:
  assumes "api_error (stat e) e = Responds w" "status w < 500" "\<And>m. stat (StoreError m) = 500"
    and "\<And>e. (\<And>m. e \<noteq> StoreError m) \<Longrightarrow> op = (Inl e, st') \<Longrightarrow> st' = st" and "op = (Inl e, st')"
  shows "view st' = view st"
  using assms by (cases e) auto

end

context reliable_config_stores
begin

lemma failed_delete:
  "DeleteEventType svc sp n st = (Some e, st') \<Longrightarrow> view st' = view st"
  "DeleteFunction svc sp n st = (Some e, st') \<Longrightarrow> view st' = view st"
  "DeleteSubscription svc sp n st = (Some e, st') \<Longrightarrow> view st' = view st"
  "DeleteCORS svc sp n st = (Some e, st') \<Longrightarrow> view st' = view st"
proof -
  have E: "kv_Delete (EventTypeStore svc) k st = (Some x, st') \<Longrightarrow> view st' = view st" for k x
    using E.Delete [of k st "Some x" st'] E.Delete_rest [of k st "Some x" st'] RE.Delete_works [of st k]
    by (cases "ec st k") (auto simp: view_def fun_upd_idem)
  have F: "kv_Delete (FunctionStore svc) k st = (Some x, st') \<Longrightarrow> view st' = view st" for k x
    using F.Delete [of k st "Some x" st'] F.Delete_rest [of k st "Some x" st'] RF.Delete_works [of st k]
    by (cases "fc st k") (auto simp: view_def fun_upd_idem)
  have S: "kv_Delete (SubscriptionStore svc) k st = (Some x, st') \<Longrightarrow> view st' = view st" for k x
    using S.Delete [of k st "Some x" st'] S.Delete_rest [of k st "Some x" st'] RS.Delete_works [of st k]
    by (cases "sc st k") (auto simp: view_def fun_upd_idem)
  have C: "kv_Delete (CORSStore svc) k st = (Some x, st') \<Longrightarrow> view st' = view st" for k x
    using C.Delete [of k st "Some x" st'] C.Delete_rest [of k st "Some x" st'] RC.Delete_works [of st k]
    by (cases "cc st k") (auto simp: view_def fun_upd_idem)
  show "DeleteEventType svc sp n st = (Some e, st') \<Longrightarrow> view st' = view st"
    by (auto simp: DeleteEventType_def split: sum.splits prod.splits option.splits if_splits dest: E)
  show "DeleteFunction svc sp n st = (Some e, st') \<Longrightarrow> view st' = view st"
    by (auto simp: DeleteFunction_def split: sum.splits prod.splits option.splits if_splits dest: F)
  show "DeleteSubscription svc sp n st = (Some e, st') \<Longrightarrow> view st' = view st"
    by (auto simp: DeleteSubscription_def split: sum.splits prod.splits option.splits if_splits dest: S)
  show "DeleteCORS svc sp n st = (Some e, st') \<Longrightarrow> view st' = view st"
    by (auto simp: DeleteCORS_def split: sum.splits prod.splits option.splits if_splits dest: C)
qed

lemma client_error_keeps:
  assumes "serve metrics pick E svc ep r st = (Responds w, st')" and "400 \<le> status w" and "status w < 500"
  shows "view st' = view st"
proof (cases "service_request E ep r")
  case None
  then show ?thesis using serve_state [of metrics pick E svc ep r st] assms(1) by simp
next
  case (Some q)
  then have *: "st' = perform pick E svc q st" using serve_state [of metrics pick E svc ep r st] assms(1) by simp
  show ?thesis
    using assms Some
    by (cases ep)
      (auto simp: handler_simps store_error_status split: sum.splits prod.splits option.splits
        dest: failed_delete refused_before_writing intro: refused_view)
qed

end

text \<open>
  On a store that may fail: a deletion that the store reports as failed is answered as if the
  entity were not there, and may have taken effect nevertheless. \<open>without_entry\<close> is the configuration
  without the entity that a deletion names.
\<close>

type_synonym config = "(string \<Rightarrow> blob option) \<times> (string \<Rightarrow> blob option) \<times> (string \<Rightarrow> blob option) \<times> (string \<Rightarrow> blob option)"

fun without_entry :: "endpoint \<Rightarrow> api_request \<Rightarrow> config \<Rightarrow> config option" where
  "without_entry DeleteEventTypeEP r (e, f, s, c) = Some (e(EventTypeKey (space_of r) (ByName (ar_Params r) ''name'') := None), f, s, c)"
| "without_entry DeleteFunctionEP r (e, f, s, c) = Some (e, f(FunctionKey (space_of r) (ByName (ar_Params r) ''id'') := None), s, c)"
| "without_entry DeleteSubscriptionEP r (e, f, s, c) = Some (e, f, s(subscriptionPath (space_of r) (ByName (ar_Params r) ''id'') := None), c)"
| "without_entry DeleteCORSEP r (e, f, s, c) = Some (e, f, s, c(CORSKey (space_of r) (extractCORSID (ar_RawPath r)) := None))"
| "without_entry ep r m = None"

context config_stores
begin

lemma delete_effect:
  "kv_Delete (EventTypeStore svc) k st = (x, st') \<Longrightarrow> view st' = view st \<or> view st' = ((ec st)(k := None), fc st, sc st, cc st)"
  "kv_Delete (FunctionStore svc) k st = (x, st') \<Longrightarrow> view st' = view st \<or> view st' = (ec st, (fc st)(k := None), sc st, cc st)"
  "kv_Delete (SubscriptionStore svc) k st = (x, st') \<Longrightarrow> view st' = view st \<or> view st' = (ec st, fc st, (sc st)(k := None), cc st)"
  "kv_Delete (CORSStore svc) k st = (x, st') \<Longrightarrow> view st' = view st \<or> view st' = (ec st, fc st, sc st, (cc st)(k := None))"
  using E.Delete [of k st x st'] E.Delete_rest [of k st x st'] F.Delete [of k st x st'] F.Delete_rest [of k st x st']
    S.Delete [of k st x st'] S.Delete_rest [of k st x st'] C.Delete [of k st x st'] C.Delete_rest [of k st x st']
  by (auto simp: view_def)

lemma failed_delete_effect:
  "DeleteEventType svc sp n st = (Some e, st') \<Longrightarrow>
     view st' = view st \<or> e = ErrEventTypeNotFound n \<and> view st' = ((ec st)(EventTypeKey sp n := None), fc st, sc st, cc st)"
  "DeleteFunction svc sp n st = (Some e, st') \<Longrightarrow>
     view st' = view st \<or> e = ErrFunctionNotFound n \<and> view st' = (ec st, (fc st)(FunctionKey sp n := None), sc st, cc st)"
  "DeleteSubscription svc sp n st = (Some e, st') \<Longrightarrow>
     view st' = view st \<or> (\<exists>i. e = ErrSubscriptionNotFound i) \<and> view st' = (ec st, fc st, (sc st)(subscriptionPath sp n := None), cc st)"
  "DeleteCORS svc sp n st = (Some e, st') \<Longrightarrow>
     view st' = view st \<or> e = ErrCORSNotFound n \<and> view st' = (ec st, fc st, sc st, (cc st)(CORSKey sp n := None))"
  by (auto simp: DeleteEventType_def split: sum.splits prod.splits option.splits if_splits dest!: delete_effect(1))
   (auto simp: DeleteFunction_def split: sum.splits prod.splits option.splits if_splits dest!: delete_effect(2),
    auto simp: DeleteSubscription_def split: sum.splits prod.splits option.splits if_splits dest!: delete_effect(3),
    auto simp: DeleteCORS_def split: sum.splits prod.splits option.splits if_splits dest!: delete_effect(4))

lemma client_error_effect:
  assumes "serve metrics pick E svc ep r st = (Responds w, st')" and "400 \<le> status w" and "status w < 500"
  shows "view st' = view st \<or> status w = 404 \<and> without_entry ep r (view st) = Some (view st')"
proof (cases "service_request E ep r")
  case None
  then show ?thesis using serve_state [of metrics pick E svc ep r st] assms(1) by simp
next
  case (Some q)
  show ?thesis
  proof (cases "ep \<in> {DeleteEventTypeEP, DeleteFunctionEP, DeleteSubscriptionEP, DeleteCORSEP}")
    case True
    then show ?thesis
      using assms
      by (auto simp: handler_simps view_def split: prod.splits option.splits dest!: failed_delete_effect)
  next
    case False
    have "view st' = view st"
      using False assms Some
      by (cases ep)
        (auto simp: handler_simps store_error_status split: sum.splits prod.splits
          dest: refused_before_writing intro: refused_view)
    then show ?thesis by blast
  qed
qed

end

subsection \<open>What makes a handler panic\<close>

lemma answer_of:
  "fst (case x of (Inl e, st) \<Rightarrow> (a e, st) | (Inr y, st) \<Rightarrow> (b y, st)) = (case fst x of Inl e \<Rightarrow> a e | Inr y \<Rightarrow> b y)"
  "fst (case z of (Some e, st) \<Rightarrow> (a' e, st) | (None, st) \<Rightarrow> (b', st)) = (case fst z of Some e \<Rightarrow> a' e | None \<Rightarrow> b')"
  by (auto split: prod.split sum.split option.split)

context config_stores
begin

lemma aborted_body:
  assumes "all_loaded E (fc st)" and "metrics \<noteq> Aborted" and "fst (serve metrics pick E svc ep r st) = Aborted"
  shows "(ep = CreateFunctionEP \<or> ep = UpdateFunctionEP) \<and> decode (read_func E) (ar_Body r) = Inl Panicked"
  using assms(2,3)
  by (cases ep)
    (auto simp: handler_simps answer_of never_panic functions_never_panic [OF assms(1)]
      writes_never_panic [OF assms(1)] split: sum.splits option.splits)

end

subsection \<open>Properties\<close>

lemma api_run_consistent:
  assumes "kv_store kv contents rest" and "contents st = Map.empty"
    and "m = contents (api_run metrics pick E (main_service kv) rs st)"
  shows "db_ok E m \<and> all_loaded E (FN m)"
proof -
  obtain qs where q: "api_run metrics pick E (main_service kv) rs st = run pick E (main_service kv) qs st"
    "\<forall>q \<in> set qs. \<forall>f. carries_function q = Some f \<longrightarrow> loaded E f"
    using api_run_is_run [of metrics pick E "main_service kv" rs st] by blast
  have "all_loaded E (FN (contents st))" by (simp add: assms(2) all_loaded_def)
  then show ?thesis
    using config_stores.run_loaded [OF main_config_stores [OF assms(1)] _ q(2)]
      main_run_ok [OF assms(1), of E st] assms(2,3) q(1) by simp
qed

text \<open>C19: Whatever is sent to the configuration API, the configuration stays consistent: after any
  sequence of requests on an empty database, with any bodies, every reference points to a stored
  entity, every entity lies under its own key, and every stored function document decodes.\<close>

theorem api_keeps_config_consistent:
  assumes "kv_store kv contents rest" and "contents st = Map.empty"
    and "m = contents (api_run metrics pick E (main_service kv) rs st)"
  shows "db_ok E m \<and> all_loaded E (FN m)"
  by (rule api_run_consistent [OF assms])

definition ex_request :: "blob \<Rightarrow> api_request" where
  "ex_request b = \<lparr>ar_Params = [(''space'', ''default''), (''id'', ''f''), (''name'', ''e'')], ar_Query = [],
     ar_RawPath = '''', ar_Body = b\<rparr>"

theorem api_keeps_config_consistent_witness:
  "db_ok plain_env (map_of (api_run Aborted (\<lambda>_. 0) plain_env (main_service mem_kv)
     [(CreateFunctionEP, ex_request (Doc (func_json ex_func)))] []))"
  by (rule api_keeps_config_consistent [OF mem.kv_store_axioms _ refl, THEN conjunct1]) simp

text \<open>C34: Only the body of a request can crash a handler of the configuration API: over every
  database that the API itself has filled, a handler panics only on a function document whose
  decoding panics, never on what is stored.\<close>

theorem api_panics_only_on_bodies:
  assumes "kv_store kv contents rest" and "contents st = Map.empty"
    and "st1 = api_run metrics pick E (main_service kv) rs st" and "metrics \<noteq> Aborted"
    and "fst (serve metrics pick E (main_service kv) ep r st1) = Aborted"
  shows "(ep = CreateFunctionEP \<or> ep = UpdateFunctionEP) \<and> decode (read_func E) (ar_Body r) = Inl Panicked"
proof -
  obtain qs where q: "st1 = run pick E (main_service kv) qs st"
    "\<forall>q \<in> set qs. \<forall>f. carries_function q = Some f \<longrightarrow> loaded E f"
    using api_run_is_run [of metrics pick E "main_service kv" rs st] assms(3) by blast
  have "all_loaded E (FN (contents st))" by (simp add: assms(2) all_loaded_def)
  then have "all_loaded E (FN (contents st1))"
    using config_stores.run_loaded [OF main_config_stores [OF assms(1)] _ q(2)] q(1) by simp
  then show ?thesis
    by (rule config_stores.aborted_body [OF main_config_stores [OF assms(1)] _ assms(4,5)])
qed

theorem api_panics_only_on_bodies_witness:
  "decode (read_func plain_env) (Doc (JObj [(''type'', JStr ''http'')])) = Inl Panicked"
proof -
  have "fst (serve (Responds new_response) (\<lambda>_. 0) plain_env (main_service mem_kv) CreateFunctionEP
      (ex_request (Doc (JObj [(''type'', JStr ''http'')]))) []) = Aborted"
    by (simp add: createFunction_def ex_request_def decode_def read_func_def json_members_def
        json_read_defs field_values_def fold_eq_def lower_char_def is_upper_def providers_def decode_failed_def)
  then show ?thesis
    using api_panics_only_on_bodies [OF mem.kv_store_axioms, of "[]" "[]" "Responds new_response" "\<lambda>_. 0" plain_env "[]"
        CreateFunctionEP "ex_request (Doc (JObj [(''type'', JStr ''http'')]))"]
    by (simp add: ex_request_def)
qed

text \<open>The four directories of a database.\<close>

definition stored_config :: "(string \<Rightarrow> blob option) \<Rightarrow> config" where
  "stored_config m = (ET m, FN m, SB m, CO m)"

text \<open>C35: What a client error leaves behind. A request that is answered with a status from 400 to 499
  leaves the four directories of the configuration as they were, with one exception: a deletion
  answered with 404 may have removed the entity it names, and nothing else (the service reports
  every error of the store's \<^verbatim>\<open>Delete\<close> as \<open>not found\<close>, also one after which the value is gone). On
  a store whose calls do not fail there is no exception.\<close>

theorem api_client_error_keeps_config:
  assumes "kv_store kv contents rest"
    and "serve metrics pick E (main_service kv) ep r st = (Responds w, st')"
    and "400 \<le> status w" and "status w < 500"
  shows "(stored_config (contents st') = stored_config (contents st) \<or>
      status w = 404 \<and> without_entry ep r (stored_config (contents st)) = Some (stored_config (contents st'))) \<and>
    (reliable_kv_store kv contents rest \<longrightarrow> stored_config (contents st') = stored_config (contents st))"
proof -
  note v = config_stores.view_def [OF main_config_stores [OF assms(1)]]
  have "stored_config (contents st') = stored_config (contents st)" if "reliable_kv_store kv contents rest"
    using reliable_config_stores.client_error_keeps [OF main_reliable_config_stores [OF that] assms(2-4)]
    unfolding v stored_config_def .
  then show ?thesis
    using config_stores.client_error_effect [OF main_config_stores [OF assms(1)] assms(2-4)]
    unfolding v stored_config_def by blast
qed

theorem api_client_error_keeps_config_witness:
  "stored_config (map_of (snd (serve Aborted (\<lambda>_. 0) plain_env (main_service mem_kv) CreateFunctionEP
     (ex_request (Raw ''x'')) ex_db1))) = stored_config (map_of ex_db1)"
proof -
  let ?s = "serve Aborted (\<lambda>_. 0) plain_env (main_service mem_kv) CreateFunctionEP (ex_request (Raw ''x'')) ex_db1"
  obtain w where w: "fst ?s = Responds w" "status w = 400"
    by (auto simp: createFunction_def ex_request_def decode_def decode_failed_def api_error_def json_response_def
        split: option.splits)
  then have "?s = (Responds w, snd ?s)" by (metis prod.collapse)
  from api_client_error_keeps_config [OF mem.kv_store_axioms this] w mem.reliable_kv_store_axioms show ?thesis by simp
qed

text \<open>The exception happens: over a store whose deletions take effect and then time out, the deletion of a
  CORS configuration is answered with 404, and the configuration is gone.\<close>

definition late_kv :: "(mem, unit) kv" where
  "late_kv = mem_kv\<lparr>kv_Delete := (\<lambda>k m. (Some ''timeout'', AList.delete k m))\<rparr>"

interpretation late: kv_store late_kv map_of "\<lambda>_ :: mem. ()"
proof
  fix k m e m'
  show "kv_Delete late_kv k m = (e, m') \<Longrightarrow>
      map_of m' = (map_of m)(k := None) \<and> (e = None \<longrightarrow> map_of m k \<noteq> None) \<or> e \<noteq> None \<and> map_of m' = map_of m"
    by (auto simp: late_kv_def delete_conv')
qed (auto simp: late_kv_def mem.Get_found mem.Get_missing mem.List_found mem.List_missing
    dest: mem.Put mem.AtomicPut)

theorem failed_deletion_answers_not_found:
  assumes "m = [(''/serverless-event-gateway/cors/default/x'', Raw ''old'')]"
  shows "\<exists>w. serve Aborted pick E (main_service late_kv) DeleteCORSEP
      ((ex_request (Raw []))\<lparr>ar_RawPath := ''/v1/spaces/default/cors/x''\<rparr>) m = (Responds w, []) \<and> status w = 404"
  using assms
  by (simp add: deleteCORS_def DeleteCORS_def main_service_def NewPrefixed_def Let_def late_kv_def prefixed_roots
      ex_request_def extractCORSID_def CORSKey_def ByName_def api_error_def json_response_def)

lemma split_last_append: "xs \<noteq> [] \<Longrightarrow> split_last (ys @ xs) = split_last xs"
proof (induction ys)
  case (Cons y ys)
  then show ?case by (cases "ys @ xs") auto
qed simp

lemma split_last_single: "split_last (xs @ [x]) = x"
  by (simp add: split_last_append)

text \<open>The last segment of the raw path is the identifier, which holds no slash.\<close>

lemma extractCORSID_last:
  assumes "CHR ''/'' \<notin> set i"
  shows "extractCORSID (p @ ''/'' @ i) = i"
proof -
  have "split_on (CHR ''/'') (p @ CHR ''/'' # i) = split_on (CHR ''/'') p @ [i]"
  proof (induction p)
    case Nil
    then show ?case using split_on_no_sep_id [OF assms] by simp
  next
    case (Cons x p)
    then show ?case by (cases "split_on (CHR ''/'') p") (auto split: list.splits)
  qed
  then show ?thesis by (simp add: extractCORSID_def split_last_single)
qed

lemma newCORSID_no_slash:
  assumes "eq_rule E" and "validateCORS E c0 = Inr c"
  shows "CHR ''/'' \<notin> set (newCORSID c)"
proof -
  have "cors_Method c \<in> set http_methods"
    using validateCORS_Inr [OF assms(2)] assms(1) unfolding eq_rule_def list_ex_iff by metis
  then have "CHR ''/'' \<notin> set (cors_Method c)" by (auto simp: http_methods_def)
  moreover have "CHR ''/'' \<notin> set (PathEscape (cors_Path c))"
    using PathEscape_no_slash [of "CHR ''/''" "cors_Path c"]
    by (auto simp: is_alnum_def is_upper_def is_lower_def is_digit_def)
  ultimately show ?thesis by (simp add: newCORSID_def)
qed

context reliable_config_stores
begin

lemma api_create_then_get_function:
  assumes "createFunction E svc r st = (Responds w, st1)" and "status w = 201"
  shows "\<exists>y. rw_Body w = [Doc (func_json y)] \<and>
    getFunction E svc (r\<lparr>ar_Params := [(''space'', fn_Space y), (''id'', fn_ID y)]\<rparr>) st1 = (found (func_json y), st1)"
proof -
  have v: "createFunction_status x \<noteq> 201" for x by (cases x; simp)
  obtain x y where x: "decode (read_func E) (ar_Body r) = Inr x"
    "CreateFunction E svc (x\<lparr>fn_Space := space_of r\<rparr>) st = (Inr y, st1)" "created (func_json y) = Responds w"
    using assms v unfolding createFunction_def
    by (auto simp: decode_failed_def split: sum.splits prod.splits if_splits)
  then show ?thesis
    using create_then_get(1) [OF x(2)] decode_loaded [of E "ar_Body r"]
    by (auto simp: getFunction_def ByName_def)
qed

lemma api_create_then_get_event_type:
  assumes "createEventType E svc r st = (Responds w, st1)" and "status w = 201"
  shows "\<exists>y. rw_Body w = [Doc (event_type_json y)] \<and>
    getEventType E svc (r\<lparr>ar_Params := [(''space'', et_Space y), (''name'', et_Name y)]\<rparr>) st1 = (found (event_type_json y), st1)"
proof -
  have v: "createEventType_status x \<noteq> 201" for x by (cases x; simp)
  obtain x y where x: "decode read_event_type (ar_Body r) = Inr x"
    "CreateEventType E svc (x\<lparr>et_Space := space_of r\<rparr>) st = (Inr y, st1)" "created (event_type_json y) = Responds w"
    using assms v unfolding createEventType_def
    by (auto simp: decode_failed_def split: sum.splits prod.splits if_splits)
  then show ?thesis
    using create_then_get(2) [OF x(2)] decode_loaded [of E "ar_Body r"]
    by (auto simp: getEventType_def ByName_def)
qed

lemma api_create_then_get_subscription:
  assumes "createSubscription pick E svc r st = (Responds w, st1)" and "status w = 201"
  shows "\<exists>y. rw_Body w = [Doc (subscription_json y)] \<and>
    getSubscription E svc (r\<lparr>ar_Params := [(''space'', sub_Space y), (''id'', sub_ID y)]\<rparr>) st1 = (found (subscription_json y), st1)"
proof -
  have v: "createSubscription_status x \<noteq> 201" for x by (cases x; simp)
  obtain x y where x: "decode read_subscription (ar_Body r) = Inr x"
    "CreateSubscription pick E svc (x\<lparr>sub_Space := space_of r\<rparr>) st = (Inr y, st1)" "created (subscription_json y) = Responds w"
    using assms v unfolding createSubscription_def
    by (auto simp: decode_failed_def split: sum.splits prod.splits if_splits)
  then show ?thesis
    using create_then_get(3) [OF x(2)] decode_loaded [of E "ar_Body r"]
    by (auto simp: getSubscription_def ByName_def)
qed

lemma api_create_then_get_cors:
  assumes "eq_rule E" and "createCORS E svc r st = (Responds w, st1)" and "status w = 201"
  shows "\<exists>c. rw_Body w = [Doc (cors_json c)] \<and>
      getCORS E svc (r\<lparr>ar_Params := [(''space'', cors_Space c)], ar_RawPath := p @ ''/'' @ cors_ID c\<rparr>) st1 =
        (found (cors_json c), st1)"
proof -
  have v: "createCORS_status x \<noteq> 201" for x by (cases x; simp)
  obtain x c where x: "decode read_cors (ar_Body r) = Inr x"
    "CreateCORS E svc (x\<lparr>cors_Space := space_of r\<rparr>) st = (Inr c, st1)" "created (cors_json c) = Responds w"
    using assms(2,3) v unfolding createCORS_def
    by (auto simp: decode_failed_def split: sum.splits prod.splits if_splits)
  have "CHR ''/'' \<notin> set (cors_ID c)"
    using CreateCORS_Inr [OF x(2)] newCORSID_no_slash [OF assms(1)] by auto
  then show ?thesis
    using x(3) create_then_get(4) [OF x(2)] extractCORSID_last [of "cors_ID c" p]
    by (auto simp: getCORS_def ByName_def)
qed

end

text \<open>C36: What the API created, the API returns: after an answer 201 on a database whose calls do not fail, the
  handler of a request for the entity that the answer holds answers 200 with the same document; for
  a CORS configuration under any raw path that ends in its identifier. (That a request with these
  names reaches the handler is up to the router of the API, which is not part of the sources.)\<close>

theorem api_created_is_served:
  assumes "reliable_kv_store kv contents rest" and "eq_rule E" and "svc = main_service kv" and "status w = 201"
  shows "(createFunction E svc r st = (Responds w, st1) \<longrightarrow> (\<exists>f. rw_Body w = [Doc (func_json f)] \<and>
      getFunction E svc (r\<lparr>ar_Params := [(''space'', fn_Space f), (''id'', fn_ID f)]\<rparr>) st1 =
        (found (func_json f), st1))) \<and>
    (createEventType E svc r st = (Responds w, st1) \<longrightarrow> (\<exists>t. rw_Body w = [Doc (event_type_json t)] \<and>
      getEventType E svc (r\<lparr>ar_Params := [(''space'', et_Space t), (''name'', et_Name t)]\<rparr>) st1 =
        (found (event_type_json t), st1))) \<and>
    (createSubscription pick E svc r st = (Responds w, st1) \<longrightarrow> (\<exists>s. rw_Body w = [Doc (subscription_json s)] \<and>
      getSubscription E svc (r\<lparr>ar_Params := [(''space'', sub_Space s), (''id'', sub_ID s)]\<rparr>) st1 =
        (found (subscription_json s), st1))) \<and>
    (createCORS E svc r st = (Responds w, st1) \<longrightarrow> (\<exists>c. rw_Body w = [Doc (cors_json c)] \<and>
      getCORS E svc (r\<lparr>ar_Params := [(''space'', cors_Space c)], ar_RawPath := p @ ''/'' @ cors_ID c\<rparr>) st1 =
        (found (cors_json c), st1)))"
  unfolding assms(3)
  by (intro conjI impI;
      erule reliable_config_stores.api_create_then_get_function [OF main_reliable_config_stores [OF assms(1)] _ assms(4)]
        reliable_config_stores.api_create_then_get_event_type [OF main_reliable_config_stores [OF assms(1)] _ assms(4)]
        reliable_config_stores.api_create_then_get_subscription [OF main_reliable_config_stores [OF assms(1)] _ assms(4)]
        reliable_config_stores.api_create_then_get_cors [OF main_reliable_config_stores [OF assms(1)] assms(2) _ assms(4)])

theorem api_created_is_served_witness:
  "\<exists>f. getFunction plain_env (main_service mem_kv)
     ((ex_request (Doc (func_json ex_func)))\<lparr>ar_Params := [(''space'', fn_Space f), (''id'', fn_ID f)]\<rparr>) ex_db1 =
       (found (func_json f), ex_db1)"
proof -
  let ?w = "Encode (func_json ex_func') (WriteHeader 201 json_response)"
  have e: "ex_func\<lparr>fn_Space := ''default''\<rparr> = ex_func'" by (simp add: ex_func'_def)
  have v: "validateFunction plain_env ex_func' = validateFunction plain_env ex_func"
    unfolding validateFunction_def by (simp add: ex_func'_def ex_func_def defaultSpace_def)
  have "CreateFunction plain_env (main_service mem_kv) ex_func' [] = (Inr ex_func', ex_db1)"
    using ex_create_function unfolding CreateFunction_def v .
  then have c: "createFunction plain_env (main_service mem_kv) (ex_request (Doc (func_json ex_func))) [] = (Responds ?w, ex_db1)"
    by (simp add: createFunction_def ex_request_def ByName_def read_func_json ex_loaded e created_def)
  have s: "status ?w = 201" by (simp add: json_response_def)
  show ?thesis
    using api_created_is_served [OF mem.reliable_kv_store_axioms plain_env_eq_rule refl s,
        of "ex_request (Doc (func_json ex_func))" "[]" ex_db1] c by blast
qed

text \<open>The same mistake, two answers: an event type whose authorizer does not exist is refused
  with 500 when it is created and with 400 when it is updated.\<close>

theorem missing_authorizer_status:
  assumes "reliable_kv_store kv contents rest" and "decode read_event_type (ar_Body r) = Inr x"
    and "et_AuthorizerID x = Some a"
    and "t = x\<lparr>et_Space := space_of r, et_Name := ByName (ar_Params r) ''name''\<rparr>" and "et_Name x = et_Name t"
    and "validateEventType E t = Inr t" and "FN (contents st) (FunctionKey (et_Space t) a) = None"
  shows "\<exists>w. (if ET (contents st) (EventTypeKey (et_Space t) (et_Name t)) = None
      then createEventType E (main_service kv) r st = (Responds w, st) \<and> status w = 500
      else db_ok E (contents st) \<longrightarrow> updateEventType E (main_service kv) r st = (Responds w, st) \<and> status w = 400)"
proof -
  note rc = main_reliable_config_stores [OF assms(1)]
  note Get = reliable_config_stores.Get_stored(2) [OF rc] reliable_config_stores.Get_absent(2) [OF rc]
  have x: "x\<lparr>et_Space := space_of r\<rparr> = t" using assms(4,5) by simp
  have c: "check_authorizer E (main_service kv) t st = Some ErrAuthorizerDoesNotExists"
    using reliable_config_stores.Get_absent(1) [OF rc assms(7)] assms(3,4) by (simp add: check_authorizer_def)
  show ?thesis
  proof (cases "ET (contents st) (EventTypeKey (et_Space t) (et_Name t))")
    case None
    then have "CreateEventType E (main_service kv) t st = (Inl ErrAuthorizerDoesNotExists, st)"
      using reliable_kv_store.Get_none [OF reliable_config_stores.rel_E [OF rc] None] assms(6) c
      by (simp add: CreateEventType_def)
    then show ?thesis
      using None assms(2) by (simp add: createEventType_def x api_error_def json_response_def)
  next
    case (Some b)
    have "updateEventType E (main_service kv) r st = (api_error 400 ErrAuthorizerDoesNotExists, st)"
      if "db_ok E (contents st)"
    proof -
      have "\<exists>t'. decode read_event_type b = Inr t'"
        using that Some by (fastforce simp: db_ok_def config_ok_def event_types_ok_def)
      then have "UpdateEventType E (main_service kv) t st = (Inl ErrAuthorizerDoesNotExists, st)"
        using Get(1) [OF Some] assms(6) c by (auto simp: UpdateEventType_def)
      then show ?thesis using assms(2,4) by (simp add: updateEventType_def)
    qed
    then show ?thesis using Some by (auto simp: api_error_def json_response_def)
  qed
qed

theorem missing_authorizer_status_witness:
  "\<exists>w. createEventType plain_env (main_service mem_kv) (ex_request (Doc (event_type_json ex_type))) [] =
     (Responds w, []) \<and> status w = 500"
proof -
  have t: "ex_type' = ex_type\<lparr>et_Space := space_of (ex_request (Doc (event_type_json ex_type))),
      et_Name := ByName (ar_Params (ex_request (Doc (event_type_json ex_type)))) ''name''\<rparr>"
    by (simp add: ex_request_def ByName_def ex_type'_def ex_type_def)
  have v: "validateEventType plain_env ex_type' = Inr ex_type'"
    using ex_valid(2) unfolding validateEventType_def by (simp add: ex_type'_def ex_type_def defaultSpace_def)
  have d: "decode read_event_type (ar_Body (ex_request (Doc (event_type_json ex_type)))) = Inr ex_type"
    by (simp add: ex_request_def)
  show ?thesis
    using missing_authorizer_status [OF mem.reliable_kv_store_axioms d _ t _ v, of "''f''" "[]"]
    by (simp add: ex_type'_def ex_type_def below_def)
qed

end
