(* ===== verification/Event.thy ===== *)
theory Event
  imports Entities Http PathTree
begin

section \<open>Events (event/event.go, system.go, http.go)\<close>

text \<open>
  The CloudEvent that a request becomes: the four modes of \<^verbatim>\<open>FromRequest\<close>, the payload rules,
  validation, JSON form and log fields. Two parts of an event are shared between copies of it
  and changed later by the router, so they live in a \<open>heap\<close> and the event holds an address:
  the object \<^verbatim>\<open>HTTPRequestData\<close> and the map under the extension \<^verbatim>\<open>eventgateway\<close>. All other
  maps are never changed once the event is built and are values.

  External to the sources are the validator's rule \<^verbatim>\<open>uri\<close>, the text of JSON documents, the
  parser of times (an instant is the text it prints as) and the JSON form of a call error;
  they are the record \<open>event_env\<close>. A decoded object keeps the order of its members.
\<close>

subsection \<open>Data model\<close>

type_synonym addr = nat

datatype payload = PNil | PBytes string | PJson json

datatype ext_value = ExtMap addr | ExtJson json

record http_request_data =
  hd_Headers :: "(string, string) fmap"
  hd_Query :: multimap
  hd_Body :: payload
  hd_Host :: string
  hd_Path :: string
  hd_Method :: string
  hd_Params :: "params option"

record heap =
  hp_Maps :: "(string, json) fmap list"
  hp_Reqs :: "http_request_data list"

text \<open>A nil map of extensions is \<open>None\<close>.\<close>

datatype event = Event
    (ev_EventType: string) (ev_EventTypeVersion: string) (ev_CloudEventsVersion: string)
    (ev_Source: string) (ev_EventID: string) (ev_EventTime: "string option") (ev_SchemaURL: string)
    (ev_Extensions: "(string, ext_value) fmap option") (ev_ContentType: string) (ev_Data: event_data)
  and event_data =
    Plain payload
  | HTTPRequestData addr
  | SystemEventReceivedData string event "(string, string) fmap"
  | SystemFunctionInvokingData string string event
  | SystemFunctionInvokedData string string event string
  | SystemFunctionInvocationFailedData string string event call_error

record event_env =
  ee_base :: env
  ee_uri :: "string \<Rightarrow> bool"
  ee_text :: "json \<Rightarrow> string"
  ee_parse :: "string \<Rightarrow> json option"
  ee_time :: "string \<Rightarrow> (string, string) res"
  ee_error_json :: "call_error \<Rightarrow> json"

definition with_extensions :: "(string, ext_value) fmap option \<Rightarrow> event \<Rightarrow> event" where
  "with_extensions x e =
     Event (ev_EventType e) (ev_EventTypeVersion e) (ev_CloudEventsVersion e) (ev_Source e) (ev_EventID e)
       (ev_EventTime e) (ev_SchemaURL e) x (ev_ContentType e) (ev_Data e)"

definition with_data :: "event_data \<Rightarrow> event \<Rightarrow> event" where
  "with_data d e =
     Event (ev_EventType e) (ev_EventTypeVersion e) (ev_CloudEventsVersion e) (ev_Source e) (ev_EventID e)
       (ev_EventTime e) (ev_SchemaURL e) (ev_Extensions e) (ev_ContentType e) d"

definition TypeHTTPRequest :: string where "TypeHTTPRequest = ''http.request''"
definition TransformationVersion :: string where "TransformationVersion = ''0.1''"
definition CloudEventsVersion :: string where "CloudEventsVersion = ''0.1''"
definition SystemEventReceivedType :: string where "SystemEventReceivedType = ''eventgateway.event.received''"
definition SystemFunctionInvokingType :: string where "SystemFunctionInvokingType = ''eventgateway.function.invoking''"
definition SystemFunctionInvokedType :: string where "SystemFunctionInvokedType = ''eventgateway.function.invoked''"
definition SystemFunctionInvocationFailedType :: string where
  "SystemFunctionInvocationFailedType = ''eventgateway.function.invocationFailed''"

definition mimeJSON :: string where "mimeJSON = ''application/json''"
definition mimeFormMultipart :: string where "mimeFormMultipart = ''multipart/form-data''"
definition mimeFormURLEncoded :: string where "mimeFormURLEncoded = ''application/x-www-form-urlencoded''"
definition mimeCloudEventsJSON :: string where "mimeCloudEventsJSON = ''application/cloudevents+json''"

text \<open>The heap: a new object gets the next address.\<close>

definition new_map :: "(string, json) fmap \<Rightarrow> heap \<Rightarrow> addr \<times> heap" where
  "new_map m h = (length (hp_Maps h), h\<lparr>hp_Maps := hp_Maps h @ [m]\<rparr>)"

definition new_req :: "http_request_data \<Rightarrow> heap \<Rightarrow> addr \<times> heap" where
  "new_req d h = (length (hp_Reqs h), h\<lparr>hp_Reqs := hp_Reqs h @ [d]\<rparr>)"

subsection \<open>Payloads\<close>

definition normalizePayload :: "event_env \<Rightarrow> payload \<Rightarrow> string \<Rightarrow> payload" where
  "normalizePayload E p mime =
     (case p of
        PBytes b \<Rightarrow>
          (if length b > 0 then
             (if mime = mimeJSON \<or> has_suffix mime ''+json'' then
                (case ee_parse E b of
                   Some (JObj ms) \<Rightarrow> PJson (JObj ms)
                 | Some JNull \<Rightarrow> PJson JNull
                 | _ \<Rightarrow> p)
              else if has_prefix mime mimeFormMultipart \<or> mime = mimeFormURLEncoded then PJson (JStr b)
              else p)
           else p)
      | _ \<Rightarrow> p)"

definition normalize_data :: "event_env \<Rightarrow> event_data \<Rightarrow> string \<Rightarrow> event_data" where
  "normalize_data E d mime = (case d of Plain p \<Rightarrow> Plain (normalizePayload E p mime) | _ \<Rightarrow> d)"

definition NewHTTPRequestData :: "event_env \<Rightarrow> http_request \<Rightarrow> payload \<Rightarrow> http_request_data" where
  "NewHTTPRequestData E r eventData =
     \<lparr>hd_Headers = FlattenHeader (rq_Header r), hd_Query = rq_Query r,
      hd_Body = normalizePayload E eventData (Header_Get (rq_Header r) ''content-type''),
      hd_Host = rq_Host r, hd_Path = rq_Path r, hd_Method = rq_Method r, hd_Params = None\<rparr>"

subsection \<open>New, Validate, IsSystem\<close>

definition New :: "event_env \<Rightarrow> string \<Rightarrow> string \<Rightarrow> string \<Rightarrow> string \<Rightarrow> event_data \<Rightarrow> heap \<Rightarrow> event \<times> heap" where
  "New E now uuid eventType mimeType d h =
     (let (a, h') = new_map (fmap_of_list [(''transformed'', JStr ''true''),
            (''transformation-version'', JStr TransformationVersion)]) h in
      (Event eventType '''' CloudEventsVersion
         (''https://serverless.com/event-gateway/#transformationVersion='' @ TransformationVersion) uuid
         (Some now) '''' (Some (fmap_of_list [(''eventgateway'', ExtMap a)])) mimeType
         (normalize_data E d mimeType), h'))"

definition Validate :: "event_env \<Rightarrow> event \<Rightarrow> string option" where
  "Validate E e =
     map_option (\<lambda>m. ''CloudEvent doesn't validate: '' @ m)
       (validate_struct (ee_base E)
         [(''EventType'', v_required (ee_base E) (ev_EventType e)),
          (''CloudEventsVersion'', v_required (ee_base E) (ev_CloudEventsVersion e)),
          (''Source'', ee_uri E (ev_Source e) \<and> v_required (ee_base E) (ev_Source e)),
          (''EventID'', v_required (ee_base E) (ev_EventID e))])"

definition IsSystem :: "event \<Rightarrow> bool" where
  "IsSystem e = has_prefix (ev_EventType e) ''eventgateway.''"

subsection \<open>JSON\<close>

definition b64_std :: "string \<Rightarrow> string" where
  "b64_std s =
     map (\<lambda>c. if c = CHR ''-'' then CHR ''+'' else if c = CHR ''_'' then CHR ''/'' else c) (b64_encode s) @
     (if length s mod 3 = 1 then ''=='' else if length s mod 3 = 2 then ''='' else '''')"

fun payload_json :: "payload \<Rightarrow> json" where
  "payload_json PNil = JNull"
| "payload_json (PBytes b) = JStr (b64_std b)"
| "payload_json (PJson j) = j"

definition map_json :: "(string, json) fmap \<Rightarrow> json" where
  "map_json m = JObj (sorted_list_of_fmap m)"

definition ext_json :: "heap \<Rightarrow> ext_value \<Rightarrow> json" where
  "ext_json h v =
     (case v of ExtJson j \<Rightarrow> j
      | ExtMap a \<Rightarrow> if a < length (hp_Maps h) then map_json (hp_Maps h ! a) else JNull)"

definition extensions_json :: "heap \<Rightarrow> (string, ext_value) fmap \<Rightarrow> members" where
  "extensions_json h x = map (\<lambda>(k, v). (k, ext_json h v)) (sorted_list_of_fmap x)"

definition params_json :: "params option \<Rightarrow> json" where
  "params_json ps =
     (case ps of None \<Rightarrow> JNull
      | Some m \<Rightarrow> JObj (map (\<lambda>k. (k, JStr (case m k of None \<Rightarrow> [] | Some v \<Rightarrow> v))) (sorted_list_of_set (dom m))))"

definition query_json :: "multimap \<Rightarrow> json" where
  "query_json q = JObj (map (\<lambda>(k, v, vs). (k, JArr (map JStr (v # vs)))) q)"

definition http_data_json :: "http_request_data \<Rightarrow> json" where
  "http_data_json d = JObj
     [(''headers'', JObj (map_members (hd_Headers d))), (''query'', query_json (hd_Query d)),
      (''body'', payload_json (hd_Body d)), (''host'', JStr (hd_Host d)), (''path'', JStr (hd_Path d)),
      (''method'', JStr (hd_Method d)), (''params'', params_json (hd_Params d))]"

text \<open>The JSON forms of the data of system events, given that of the event in them.\<close>

definition SystemEventReceivedData_json :: "string \<Rightarrow> json \<Rightarrow> (string, string) fmap \<Rightarrow> json" where
  "SystemEventReceivedData_json path j headers = JObj
     [(''path'', JStr path), (''event'', j), (''headers'', JObj (map_members headers))]"

definition SystemFunctionInvokingData_json :: "string \<Rightarrow> string \<Rightarrow> json \<Rightarrow> json" where
  "SystemFunctionInvokingData_json sp i j = JObj [(''space'', JStr sp), (''functionId'', JStr i), (''event'', j)]"

definition SystemFunctionInvokedData_json :: "string \<Rightarrow> string \<Rightarrow> json \<Rightarrow> string \<Rightarrow> json" where
  "SystemFunctionInvokedData_json sp i j result = JObj
     [(''space'', JStr sp), (''functionId'', JStr i), (''event'', j), (''result'', JStr (b64_std result))]"

definition SystemFunctionInvocationFailedData_json :: "string \<Rightarrow> string \<Rightarrow> json \<Rightarrow> json \<Rightarrow> json" where
  "SystemFunctionInvocationFailedData_json sp i j err = JObj
     [(''space'', JStr sp), (''functionId'', JStr i), (''event'', j), (''error'', err)]"

fun event_json :: "event_env \<Rightarrow> heap \<Rightarrow> event \<Rightarrow> json"
  and data_json :: "event_env \<Rightarrow> heap \<Rightarrow> event_data \<Rightarrow> json" where
  "event_json E h (Event t tv cv src i tm su x ct d) = JObj
     (put_string ''eventType'' t @ put_string_omitempty ''eventTypeVersion'' tv @
      put_string ''cloudEventsVersion'' cv @ put_string ''source'' src @ put_string ''eventID'' i @
      put_ptr_omitempty ''eventTime'' tm @ put_string_omitempty ''schemaURL'' su @
      (case x of None \<Rightarrow> [] | Some m \<Rightarrow> if m = fmempty then [] else put_raw ''extensions'' (JObj (extensions_json h m))) @
      put_string_omitempty ''contentType'' ct @ put_raw ''data'' (data_json E h d))"
| "data_json E h (Plain p) = payload_json p"
| "data_json E h (HTTPRequestData a) =
     (if a < length (hp_Reqs h) then http_data_json (hp_Reqs h ! a) else JNull)"
| "data_json E h (SystemEventReceivedData path e headers) =
     SystemEventReceivedData_json path (event_json E h e) headers"
| "data_json E h (SystemFunctionInvokingData sp i e) = SystemFunctionInvokingData_json sp i (event_json E h e)"
| "data_json E h (SystemFunctionInvokedData sp i e result) =
     SystemFunctionInvokedData_json sp i (event_json E h e) result"
| "data_json E h (SystemFunctionInvocationFailedData sp i e err) =
     SystemFunctionInvocationFailedData_json sp i (event_json E h e) (ee_error_json E err)"

text \<open>Reading an event: only the object under \<^verbatim>\<open>eventgateway\<close> is put into the heap.\<close>

fun read_time :: "event_env \<Rightarrow> string option \<Rightarrow> json list \<Rightarrow> (string, string option) res" where
  "read_time E cur [] = Inr cur"
| "read_time E cur (JNull # js) = read_time E None js"
| "read_time E cur (JStr s # js) = (case ee_time E s of Inl e \<Rightarrow> Inl e | Inr t \<Rightarrow> read_time E (Some t) js)"
| "read_time E cur (_ # js) = Inl ''eventTime''"

fun read_any_map :: "(string, json) fmap option \<Rightarrow> json list \<Rightarrow> (string, (string, json) fmap option) res" where
  "read_any_map cur [] = Inr cur"
| "read_any_map cur (JNull # js) = read_any_map None js"
| "read_any_map cur (JObj ms # js) =
     read_any_map (Some (fold (\<lambda>(k, v) m. fmupd k v m) ms (case cur of None \<Rightarrow> fmempty | Some m \<Rightarrow> m))) js"
| "read_any_map cur (_ # js) = Inl ''extensions''"

fun read_any :: "json \<Rightarrow> json list \<Rightarrow> json" where
  "read_any cur [] = cur"
| "read_any cur (j # js) = read_any j js"

definition load_extensions :: "(string, json) fmap option \<Rightarrow> heap \<Rightarrow> (string, ext_value) fmap option \<times> heap" where
  "load_extensions x h =
     (case x of
        None \<Rightarrow> (None, h)
      | Some m \<Rightarrow>
          (case fmlookup m ''eventgateway'' of
             Some (JObj ms) \<Rightarrow>
               (let (a, h') = new_map (fmap_of_list (rev ms)) h in
                (Some (fmupd ''eventgateway'' (ExtMap a) (fmmap ExtJson m)), h'))
           | _ \<Rightarrow> (Some (fmmap ExtJson m), h)))"

definition any_payload :: "json \<Rightarrow> payload" where
  "any_payload j = (case j of JNull \<Rightarrow> PNil | _ \<Rightarrow> PJson j)"

definition read_event :: "event_env \<Rightarrow> json \<Rightarrow> heap \<Rightarrow> (string, event \<times> heap) res" where
  "read_event E j h =
     (case json_members j of Inl e \<Rightarrow> Inl e | Inr ms \<Rightarrow>
     (case get_string ms ''eventType'' of Inl e \<Rightarrow> Inl e | Inr t \<Rightarrow>
     (case get_string ms ''eventTypeVersion'' of Inl e \<Rightarrow> Inl e | Inr tv \<Rightarrow>
     (case get_string ms ''cloudEventsVersion'' of Inl e \<Rightarrow> Inl e | Inr cv \<Rightarrow>
     (case get_string ms ''source'' of Inl e \<Rightarrow> Inl e | Inr src \<Rightarrow>
     (case get_string ms ''eventID'' of Inl e \<Rightarrow> Inl e | Inr i \<Rightarrow>
     (case read_time E None (field_values ms ''eventTime'') of Inl e \<Rightarrow> Inl e | Inr tm \<Rightarrow>
     (case get_string ms ''schemaURL'' of Inl e \<Rightarrow> Inl e | Inr su \<Rightarrow>
     (case read_any_map None (field_values ms ''extensions'') of Inl e \<Rightarrow> Inl e | Inr x \<Rightarrow>
     (case get_string ms ''contentType'' of Inl e \<Rightarrow> Inl e | Inr ct \<Rightarrow>
        (let (x', h') = load_extensions x h in
         Inr (Event t tv cv src i tm su x' ct
           (Plain (any_payload (read_any JNull (field_values ms ''data'')))), h'))))))))))))"

subsection \<open>FromRequest\<close>

datatype 'a go = Returns 'a | Fails string | Panics

definition isLegacyMode :: "multimap \<Rightarrow> bool" where
  "isLegacyMode headers \<longleftrightarrow> Header_Get headers ''Event'' \<noteq> []"

definition isCloudEventsBinaryContentMode :: "multimap \<Rightarrow> bool" where
  "isCloudEventsBinaryContentMode headers \<longleftrightarrow>
     Header_Get headers ''CE-EventType'' \<noteq> [] \<and> Header_Get headers ''CE-CloudEventsVersion'' \<noteq> [] \<and>
     Header_Get headers ''CE-Source'' \<noteq> [] \<and> Header_Get headers ''CE-EventID'' \<noteq> []"

text \<open>
  The extensions of binary mode, in the order of the header map; \<open>None\<close> is the panic of
  \<^verbatim>\<open>runes[0]\<close> on an empty slice.
\<close>

fun binary_extensions :: "(string \<times> string) list \<Rightarrow> (string, ext_value) fmap \<Rightarrow> (string, ext_value) fmap option" where
  "binary_extensions [] x = Some x"
| "binary_extensions ((key, val) # hs) x =
     (if has_prefix key ''Ce-X-'' then
        (case trim_left key ''Ce-X-'' of
           [] \<Rightarrow> None
         | c # cs \<Rightarrow> binary_extensions hs (fmupd (lower_char c # cs) (ExtJson (JStr val)) x))
      else binary_extensions hs x)"

definition flat_headers :: "multimap \<Rightarrow> (string \<times> string) list" where
  "flat_headers h = map (\<lambda>k. (k, case fmlookup (FlattenHeader h) k of None \<Rightarrow> [] | Some v \<Rightarrow> v)) (map fst h)"

definition parseAsCloudEventBinary :: "event_env \<Rightarrow> multimap \<Rightarrow> string \<Rightarrow> event go" where
  "parseAsCloudEventBinary E headers body =
     (let e = Event (Header_Get headers ''CE-EventType'') (Header_Get headers ''CE-EventTypeVersion'')
            (Header_Get headers ''CE-CloudEventsVersion'') (Header_Get headers ''CE-Source'')
            (Header_Get headers ''CE-EventID'') None '''' None (Header_Get headers ''Content-Type'')
            (Plain (PBytes body)) in
      case Validate E e of
        Some m \<Rightarrow> Fails m
      | None \<Rightarrow>
          (case (if Header_Get headers ''CE-EventTime'' \<noteq> []
                 then map_sum id Some (ee_time E (Header_Get headers ''CE-EventTime'')) else Inr None) of
             Inl m \<Rightarrow> Fails m
           | Inr tm \<Rightarrow>
               (case binary_extensions (flat_headers headers) fmempty of
                  None \<Rightarrow> Panics
                | Some x \<Rightarrow>
                    Returns (Event (ev_EventType e) (ev_EventTypeVersion e) (ev_CloudEventsVersion e)
                      (ev_Source e) (ev_EventID e) tm (Header_Get headers ''CE-SchemaURL'') (Some x)
                      (ev_ContentType e) (normalize_data E (ev_Data e) (ev_ContentType e))))))"

definition parseAsCloudEvent :: "event_env \<Rightarrow> string \<Rightarrow> heap \<Rightarrow> (event \<times> heap) go" where
  "parseAsCloudEvent E body h =
     (case ee_parse E body of
        None \<Rightarrow> Fails ''syntax''
      | Some j \<Rightarrow>
          (case read_event E j h of
             Inl m \<Rightarrow> Fails m
           | Inr (e, h') \<Rightarrow>
               (case Validate E e of
                  Some m \<Rightarrow> Fails m
                | None \<Rightarrow> Returns (with_data (normalize_data E (ev_Data e) (ev_ContentType e)) e, h'))))"

definition FromRequest :: "event_env \<Rightarrow> string \<Rightarrow> string \<Rightarrow> http_request \<Rightarrow> heap \<Rightarrow> (event \<times> heap) go" where
  "FromRequest E now uuid r h =
     (case (case ParseMediaType (Header_Get (rq_Header r) ''Content-Type'') of
              Inl m \<Rightarrow> if m \<noteq> no_media_type then Inl m else Inr ''application/octet-stream''
            | Inr mimeType \<Rightarrow> Inr mimeType) of
        Inl m \<Rightarrow> Fails m
      | Inr mimeType \<Rightarrow>
          (case rq_Body r of
             Inl m \<Rightarrow> Fails m
           | Inr body \<Rightarrow>
               (let legacy = New E now uuid (Header_Get (rq_Header r) ''event'') mimeType (Plain (PBytes body)) h in
                if mimeType = mimeCloudEventsJSON then parseAsCloudEvent E body h
                else if isCloudEventsBinaryContentMode (rq_Header r) then
                  (case parseAsCloudEventBinary E (rq_Header r) body of
                     Returns e \<Rightarrow> Returns (e, h) | Fails m \<Rightarrow> Fails m | Panics \<Rightarrow> Panics)
                else if isLegacyMode (rq_Header r) then
                  (if mimeType = mimeJSON then
                     (case parseAsCloudEvent E body h of
                        Fails _ \<Rightarrow> Returns legacy | x \<Rightarrow> x)
                   else Returns legacy)
                else
                  (let (a, h1) = new_req (NewHTTPRequestData E r (PBytes body)) h in
                   Returns (New E now uuid TypeHTTPRequest mimeJSON (HTTPRequestData a) h1)))))"

subsection \<open>MarshalLogObject\<close>

datatype event_log_field = LogField string string | LogObject string log_fields

text \<open>The fields of an event in a log entry, with those of \<^verbatim>\<open>MapStringInterface\<close> (internal/zap).\<close>

definition map_log :: "event_env \<Rightarrow> heap \<Rightarrow> (string, ext_value) fmap \<Rightarrow> log_fields" where
  "map_log E h x = map (\<lambda>(k, v). (k, ee_text E (ext_json h v))) (sorted_list_of_fmap x)"

definition event_log :: "event_env \<Rightarrow> heap \<Rightarrow> event \<Rightarrow> event_log_field list" where
  "event_log E h e =
     [LogField ''eventType'' (ev_EventType e)] @
     (if ev_EventTypeVersion e \<noteq> [] then [LogField ''eventTypeVersion'' (ev_EventTypeVersion e)] else []) @
     [LogField ''cloudEventsVersion'' (ev_CloudEventsVersion e), LogField ''source'' (ev_Source e),
      LogField ''eventID'' (ev_EventID e)] @
     (case ev_EventTime e of None \<Rightarrow> [] | Some t \<Rightarrow> [LogField ''eventTime'' t]) @
     (if ev_SchemaURL e \<noteq> [] then [LogField ''schemaURL'' (ev_SchemaURL e)] else []) @
     (if ev_ContentType e \<noteq> [] then [LogField ''contentType'' (ev_ContentType e)] else []) @
     (case ev_Extensions e of None \<Rightarrow> [] | Some x \<Rightarrow> [LogObject ''extensions'' (map_log E h x)]) @
     [LogField ''data'' (ee_text E (data_json E h (ev_Data e)))]"

end
