(* ===== verification/Router.thy ===== *)
theory Router
  imports Event Caches
begin

section \<open>The router (router/router.go, path*.go, http.go, authorization.go, plugin/manager.go)\<close>

text \<open>
  The events API: a request becomes an event, system events tell async subscribers and plugins
  about it, a sync subscriber answers it and async subscribers get it through the backlog of
  the workers. Every step acts on a \<open>router_state\<close>: the heap of shared objects (theory Event),
  the backlog, and the calls made so far. A step ends in a value or in a panic, and what it
  did to the state before a panic stays done.

  External: the plugins, the providers' world (what it answers may depend on the calls made
  before), the third-party CORS handler and copier, the clock and the UUIDs, the order of a
  map iteration, and errors of the connection. The caches are those of one moment. A backlog of
  length 0, where a value would go straight to a waiting worker, always counts as full.
  The log is left out; the metrics are in theory Meters.
\<close>

subsection \<open>Paths (path.go, path_hosted.go)\<close>

definition basePath :: string where "basePath = ''/''"

record path_rules =
  pr_extractPath :: "string \<Rightarrow> string \<Rightarrow> string"
  pr_systemPathFromSpace :: "string \<Rightarrow> string"
  pr_systemPathFromURL :: "string \<Rightarrow> string \<Rightarrow> string option"

definition default_paths :: path_rules where
  "default_paths =
     \<lparr>pr_extractPath = (\<lambda>host path. path), pr_systemPathFromSpace = (\<lambda>space. basePath),
      pr_systemPathFromURL = (\<lambda>host path. Some basePath)\<rparr>"

text \<open>The pattern \<^verbatim>\<open>(eventgateway([a-z-]*)?.io|slsgateway.com)\<close>, found anywhere in the host.\<close>

definition any_then :: "string \<Rightarrow> string \<Rightarrow> bool" where
  "any_then s lit = (case s of [] \<Rightarrow> False | c # cs \<Rightarrow> byte c \<noteq> 10 \<and> has_prefix cs lit)"

fun letters_then_io :: "string \<Rightarrow> bool" where
  "letters_then_io [] = False"
| "letters_then_io (c # cs) = (any_then (c # cs) ''io'' \<or> ((is_lower c \<or> c = CHR ''-'') \<and> letters_then_io cs))"

fun hosted_domain :: "string \<Rightarrow> bool" where
  "hosted_domain [] = False"
| "hosted_domain (c # cs) =
     (has_prefix (c # cs) ''eventgateway'' \<and> letters_then_io (trim_prefix (c # cs) ''eventgateway'') \<or>
      has_prefix (c # cs) ''slsgateway'' \<and> any_then (trim_prefix (c # cs) ''slsgateway'') ''com'' \<or>
      hosted_domain cs)"

definition hosted_extractPath :: "string \<Rightarrow> string \<Rightarrow> string" where
  "hosted_extractPath host path =
     (if hosted_domain host then basePath @ hd (split_on (CHR ''.'') host) @ path else path)"

definition hosted_systemPathFromSpace :: "string \<Rightarrow> string" where
  "hosted_systemPathFromSpace space = basePath @ space @ ''/''"

text \<open>The second segment of the path; without one, indexing panics.\<close>

definition hosted_systemPathFromURL :: "string \<Rightarrow> string \<Rightarrow> string option" where
  "hosted_systemPathFromURL host path =
     (if hosted_domain host then
        (case split_on (CHR ''/'') path of _ # seg # _ \<Rightarrow> Some (basePath @ seg @ ''/'') | _ \<Rightarrow> None)
      else Some basePath)"

definition hosted_paths :: path_rules where
  "hosted_paths =
     \<lparr>pr_extractPath = hosted_extractPath, pr_systemPathFromSpace = hosted_systemPathFromSpace,
      pr_systemPathFromURL = hosted_systemPathFromURL\<rparr>"

subsection \<open>State\<close>

record backlog_event =
  be_space :: string
  be_functionID :: string
  be_method :: string
  be_path :: string
  be_event :: event

datatype external_call = FunctionCall func string | PluginCall string event

text \<open>\<open>rs_backlog\<close> is \<open>None\<close> before \<^verbatim>\<open>StartWorkers\<close>; \<open>rs_events\<close> counts the events made with \<^verbatim>\<open>New\<close>.\<close>

record router_state =
  rs_heap :: heap
  rs_backlog :: "backlog_event list option"
  rs_calls :: "external_call list"
  rs_events :: nat
  rs_dropped :: nat
  rs_draining :: bool
  rs_active :: bool

datatype plugin_type = AsyncPlugin | SyncPlugin

record plugin =
  pl_Path :: string
  pl_Subscriptions :: "router_state \<Rightarrow> (string \<times> plugin_type) list"
  pl_React :: "router_state \<Rightarrow> event \<Rightarrow> string option"

record cors_options =
  co_AllowedOrigins :: "string list"
  co_AllowedHeaders :: "string list"
  co_AllowedMethods :: "string list"
  co_AllowCredentials :: bool

record router =
  r_env :: event_env
  r_paths :: path_rules
  r_target :: target
  r_pick :: "nat \<Rightarrow> nat"
  r_order :: "(string \<times> string) list \<Rightarrow> (string \<times> string) list"
  r_plugins :: "plugin list"
  r_workersNumber :: nat
  r_backlogLength :: nat
  r_world :: "external_call list \<Rightarrow> world"
  r_copy :: "event \<Rightarrow> heap \<Rightarrow> event \<times> heap"
  r_now :: "nat \<Rightarrow> string"
  r_uuid :: "nat \<Rightarrow> string"
  r_cors :: "cors_options \<Rightarrow> http_request \<Rightarrow> response_writer \<Rightarrow> response_writer \<times> bool"
  r_Write_error :: "response_writer \<Rightarrow> string \<Rightarrow> string option"

text \<open>A router before \<^verbatim>\<open>StartWorkers\<close>.\<close>

definition NewRouter :: router_state where
  "NewRouter = \<lparr>rs_heap = \<lparr>hp_Maps = [], hp_Reqs = []\<rparr>, rs_backlog = None, rs_calls = [], rs_events = 0,
     rs_dropped = 0, rs_draining = False, rs_active = False\<rparr>"

subsection \<open>Steps\<close>

datatype 'a result = Value 'a | Panic

type_synonym 'a act = "router_state \<Rightarrow> 'a result \<times> router_state"

definition ret :: "'a \<Rightarrow> 'a act" where
  "ret x = (\<lambda>st. (Value x, st))"

definition bnd :: "'a act \<Rightarrow> ('a \<Rightarrow> 'b act) \<Rightarrow> 'b act" where
  "bnd m f = (\<lambda>st. case m st of (Value x, st') \<Rightarrow> f x st' | (Panic, st') \<Rightarrow> (Panic, st'))"

definition panic :: "'a act" where
  "panic = (\<lambda>st. (Panic, st))"

definition gets :: "(router_state \<Rightarrow> 'a) \<Rightarrow> 'a act" where
  "gets f = (\<lambda>st. (Value (f st), st))"

definition modify :: "(router_state \<Rightarrow> router_state) \<Rightarrow> unit act" where
  "modify f = (\<lambda>st. (Value (), f st))"

datatype router_error =
    UnableToLookUp
  | CallError call_error
  | PluginError string
  | AuthorizationError string
  | Malformed string

text \<open>A new event of the gateway itself.\<close>

definition new_event :: "router \<Rightarrow> string \<Rightarrow> string \<Rightarrow> event_data \<Rightarrow> event act" where
  "new_event R t mime d = (\<lambda>st.
     case New (r_env R) (r_now R (rs_events st)) (r_uuid R (rs_events st)) t mime d (rs_heap st) of
       (e, h) \<Rightarrow> (Value e, st\<lparr>rs_heap := h, rs_events := Suc (rs_events st)\<rparr>))"

subsection \<open>Calling a function of the cache\<close>

definition call_target :: "router \<Rightarrow> string \<Rightarrow> string \<Rightarrow> string \<Rightarrow> (router_error, string) res act" where
  "call_target R space i payload = (\<lambda>st.
     case target_Function (r_target R) space i of
       None \<Rightarrow> (Value (Inl UnableToLookUp), st)
     | Some f \<Rightarrow>
         (let st' = st\<lparr>rs_calls := rs_calls st @ [FunctionCall f payload]\<rparr> in
          case func_Call (r_world R (rs_calls st)) f payload of
            CallPanic \<Rightarrow> (Panic, st')
          | CallReturns result None \<Rightarrow> (Value (Inr result), st')
          | CallReturns _ (Some e) \<Rightarrow> (Value (Inl (CallError e)), st')))"

subsection \<open>Authorization (authorization.go)\<close>

record authorization =
  au_PrincipalID :: string
  au_Context :: "(string, string) fmap option"

definition authorization_json :: "authorization option \<Rightarrow> json" where
  "authorization_json a =
     (case a of None \<Rightarrow> JNull
      | Some a \<Rightarrow> JObj [(''principalId'', JStr (au_PrincipalID a)),
          (''context'', case au_Context a of None \<Rightarrow> JNull | Some m \<Rightarrow> JObj (map_members m))])"

fun read_nil_map :: "string \<Rightarrow> (string, string) fmap option \<Rightarrow> json list \<Rightarrow> (string, (string, string) fmap option) res" where
  "read_nil_map f cur [] = Inr cur"
| "read_nil_map f cur (JNull # js) = read_nil_map f None js"
| "read_nil_map f cur (JObj ms # js) =
     (case read_entries f (case cur of None \<Rightarrow> fmempty | Some m \<Rightarrow> m) ms of
        Inl e \<Rightarrow> Inl e | Inr m \<Rightarrow> read_nil_map f (Some m) js)"
| "read_nil_map f cur (_ # js) = Inl f"

fun read_authorization :: "authorization option \<Rightarrow> json list \<Rightarrow> (string, authorization option) res" where
  "read_authorization cur [] = Inr cur"
| "read_authorization cur (JNull # js) = read_authorization None js"
| "read_authorization cur (JObj ms # js) =
     (let a = (case cur of None \<Rightarrow> \<lparr>au_PrincipalID = [], au_Context = None\<rparr> | Some a \<Rightarrow> a) in
      case read_string ''principalId'' (au_PrincipalID a) (field_values ms ''principalId'') of
        Inl e \<Rightarrow> Inl e
      | Inr p \<Rightarrow>
          (case read_nil_map ''context'' (au_Context a) (field_values ms ''context'') of
             Inl e \<Rightarrow> Inl e
           | Inr c \<Rightarrow> read_authorization (Some \<lparr>au_PrincipalID = p, au_Context = c\<rparr>) js))"
| "read_authorization cur (_ # js) = Inl ''authorization''"

fun read_authorization_error :: "string option \<Rightarrow> json list \<Rightarrow> (string, string option) res" where
  "read_authorization_error cur [] = Inr cur"
| "read_authorization_error cur (JNull # js) = read_authorization_error None js"
| "read_authorization_error cur (JObj ms # js) =
     (case read_string ''message'' (case cur of None \<Rightarrow> [] | Some m \<Rightarrow> m) (field_values ms ''message'') of
        Inl e \<Rightarrow> Inl e
      | Inr m \<Rightarrow> read_authorization_error (Some m) js)"
| "read_authorization_error cur (_ # js) = Inl ''error''"

definition read_authorizer_response :: "event_env \<Rightarrow> string \<Rightarrow> (string, authorization option \<times> string option) res" where
  "read_authorizer_response E resp =
     (case ee_parse E resp of
        None \<Rightarrow> Inl ''syntax''
      | Some j \<Rightarrow>
          (case json_members j of
             Inl e \<Rightarrow> Inl e
           | Inr ms \<Rightarrow>
               (case read_authorization None (field_values ms ''authorization'') of
                  Inl e \<Rightarrow> Inl e
                | Inr a \<Rightarrow>
                    (case read_authorization_error None (field_values ms ''error'') of
                       Inl e \<Rightarrow> Inl e
                     | Inr err \<Rightarrow> Inr (a, err)))))"

definition authorizer_payload_json :: "event_env \<Rightarrow> heap \<Rightarrow> event \<Rightarrow> http_request_data \<Rightarrow> json" where
  "authorizer_payload_json E h e d = JObj [(''event'', event_json E h e), (''request'', http_data_json d)]"

text \<open>
  The authorization is written into the map under \<^verbatim>\<open>eventgateway\<close> if the extensions have one
  (an address, which other copies of the event share); else all extensions are replaced.
\<close>

definition set_authorization :: "json \<Rightarrow> event \<Rightarrow> event act" where
  "set_authorization j e = (\<lambda>st.
     case (case ev_Extensions e of None \<Rightarrow> None | Some x \<Rightarrow> fmlookup x ''eventgateway'') of
       Some (ExtMap a) \<Rightarrow>
         (Value e, st\<lparr>rs_heap := (rs_heap st)\<lparr>hp_Maps :=
            (hp_Maps (rs_heap st))[a := fmupd ''authorization'' j (hp_Maps (rs_heap st) ! a)]\<rparr>\<rparr>)
     | Some (ExtJson _) \<Rightarrow> (Panic, st)
     | None \<Rightarrow>
         (case new_map (fmap_of_list [(''authorization'', j)]) (rs_heap st) of
            (a, h) \<Rightarrow> (Value (with_extensions (Some (fmap_of_list [(''eventgateway'', ExtMap a)])) e),
                       st\<lparr>rs_heap := h\<rparr>)))"

text \<open>The result is the error, if any, and the event with its new extensions. \<open>r\<close> may be nil.\<close>

definition authorizeEventType ::
  "router \<Rightarrow> string \<Rightarrow> event \<Rightarrow> http_request option \<Rightarrow> (router_error option \<times> event) act" where
  "authorizeEventType R space e r =
     (case map_option et_AuthorizerID (target_EventType (r_target R) space (ev_EventType e)) of
        Some (Some authorizer) \<Rightarrow>
          (case r of
             None \<Rightarrow> panic
           | Some rq \<Rightarrow>
               bnd (gets rs_heap) (\<lambda>h.
               bnd (call_target R space authorizer (ee_text (r_env R)
                      (authorizer_payload_json (r_env R) h e (NewHTTPRequestData (r_env R) rq PNil)))) (\<lambda>resp.
               (case resp of
                  Inl err \<Rightarrow> ret (Some err, e)
                | Inr bytes \<Rightarrow>
                    (case read_authorizer_response (r_env R) bytes of
                       Inl m \<Rightarrow> ret (Some (Malformed m), e)
                     | Inr (_, Some m) \<Rightarrow> ret (Some (AuthorizationError m), e)
                     | Inr (a, None) \<Rightarrow>
                         bnd (set_authorization (authorization_json a) e) (\<lambda>e'. ret (None, e')))))))
      | _ \<Rightarrow> ret (None, e))"

subsection \<open>Async subscribers\<close>

definition enqueueWork :: "router \<Rightarrow> backlog_event \<Rightarrow> unit act" where
  "enqueueWork R b = modify (\<lambda>st.
     case rs_backlog st of
       None \<Rightarrow> st\<lparr>rs_dropped := Suc (rs_dropped st)\<rparr>
     | Some q \<Rightarrow>
         (if length q < r_backlogLength R then st\<lparr>rs_backlog := Some (q @ [b])\<rparr>
          else st\<lparr>rs_dropped := Suc (rs_dropped st)\<rparr>))"

definition copy_event :: "router \<Rightarrow> event \<Rightarrow> event act" where
  "copy_event R e = (\<lambda>st. case r_copy R e (rs_heap st) of (e', h) \<Rightarrow> (Value e', st\<lparr>rs_heap := h\<rparr>))"

fun async_loop :: "router \<Rightarrow> string \<Rightarrow> string \<Rightarrow> event \<Rightarrow> http_request option \<Rightarrow> async_subscriber list \<Rightarrow> unit act" where
  "async_loop R me path e r [] = ret ()"
| "async_loop R me path e r (s # ss) =
     bnd (copy_event R e) (\<lambda>subEvent.
     bnd (authorizeEventType R (as_Space s) subEvent r) (\<lambda>(err, subEvent').
     bnd (if err = None
          then enqueueWork R \<lparr>be_space = as_Space s, be_functionID = as_FunctionID s, be_method = me,
                 be_path = path, be_event = subEvent'\<rparr>
          else ret ()) (\<lambda>_.
     async_loop R me path e r ss)))"

definition handleAsyncSubscriptions :: "router \<Rightarrow> string \<Rightarrow> string \<Rightarrow> event \<Rightarrow> http_request option \<Rightarrow> unit act" where
  "handleAsyncSubscriptions R me path e r =
     async_loop R me path e r (AsyncSubscribers (subscriptionCache (r_target R)) me path (ev_EventType e))"

subsection \<open>Plugins (plugin/manager.go)\<close>

fun plugin_loop :: "plugin \<Rightarrow> event \<Rightarrow> (string \<times> plugin_type) list \<Rightarrow> string option act" where
  "plugin_loop p e [] = ret None"
| "plugin_loop p e ((t, ty) # subs) = (\<lambda>st.
     if t = ev_EventType e then
       (let err = pl_React p st e;
            st' = st\<lparr>rs_calls := rs_calls st @ [PluginCall (pl_Path p) e]\<rparr> in
        (case err of
           Some m \<Rightarrow> if ty = SyncPlugin then (Value (Some m), st') else plugin_loop p e subs st'
         | None \<Rightarrow> plugin_loop p e subs st'))
     else plugin_loop p e subs st)"

fun React :: "plugin list \<Rightarrow> event \<Rightarrow> string option act" where
  "React [] e = ret None"
| "React (p # ps) e =
     bnd (gets (pl_Subscriptions p)) (\<lambda>subs.
     bnd (plugin_loop p e subs) (\<lambda>err.
       (case err of Some m \<Rightarrow> ret (Some m) | None \<Rightarrow> React ps e)))"

subsection \<open>System events\<close>

definition emitSystemEventReceived :: "router \<Rightarrow> string \<Rightarrow> event \<Rightarrow> http_request \<Rightarrow> string option act" where
  "emitSystemEventReceived R path e r =
     bnd (new_event R SystemEventReceivedType mimeJSON
            (SystemEventReceivedData path e (FlattenHeader (rq_Header r)))) (\<lambda>system.
     (case pr_systemPathFromURL (r_paths R) (rq_Host r) path of
        None \<Rightarrow> panic
      | Some p \<Rightarrow>
          bnd (handleAsyncSubscriptions R ''POST'' p system None) (\<lambda>_. React (r_plugins R) system)))"

definition emit_function_event :: "router \<Rightarrow> string \<Rightarrow> string \<Rightarrow> event_data \<Rightarrow> event act" where
  "emit_function_event R space t d =
     bnd (new_event R t mimeJSON d) (\<lambda>system.
     bnd (handleAsyncSubscriptions R ''POST'' (pr_systemPathFromSpace (r_paths R) space) system None) (\<lambda>_.
     ret system))"

definition emitSystemFunctionInvoking :: "router \<Rightarrow> string \<Rightarrow> string \<Rightarrow> event \<Rightarrow> string option act" where
  "emitSystemFunctionInvoking R space i e =
     (if IsSystem e then ret None
      else bnd (emit_function_event R space SystemFunctionInvokingType (SystemFunctionInvokingData space i e))
             (React (r_plugins R)))"

definition emitSystemFunctionInvoked :: "router \<Rightarrow> string \<Rightarrow> string \<Rightarrow> event \<Rightarrow> string \<Rightarrow> string option act" where
  "emitSystemFunctionInvoked R space i e result =
     (if IsSystem e then ret None
      else bnd (emit_function_event R space SystemFunctionInvokedType (SystemFunctionInvokedData space i e result))
             (React (r_plugins R)))"

definition emitSystemFunctionInvocationFailed :: "router \<Rightarrow> string \<Rightarrow> string \<Rightarrow> event \<Rightarrow> call_error \<Rightarrow> unit act" where
  "emitSystemFunctionInvocationFailed R space i e err =
     (if IsSystem e then ret ()
      else bnd (emit_function_event R space SystemFunctionInvocationFailedType
                  (SystemFunctionInvocationFailedData space i e err)) (\<lambda>_. ret ()))"

subsection \<open>Calling a function\<close>

definition callFunction :: "router \<Rightarrow> string \<Rightarrow> string \<Rightarrow> event \<Rightarrow> (router_error, string) res act" where
  "callFunction R space i e =
     bnd (emitSystemFunctionInvoking R space i e) (\<lambda>stopped.
     (case stopped of
        Some m \<Rightarrow> ret (Inl (PluginError m))
      | None \<Rightarrow>
          (case target_Function (r_target R) space i of
             None \<Rightarrow> ret (Inl UnableToLookUp)
           | Some _ \<Rightarrow>
               bnd (gets (\<lambda>st. ee_text (r_env R) (event_json (r_env R) (rs_heap st) e))) (\<lambda>payload.
               bnd (call_target R space i payload) (\<lambda>result.
               (case result of
                  Inl (CallError err) \<Rightarrow>
                    bnd (emitSystemFunctionInvocationFailed R space i e err) (\<lambda>_. ret result)
                | Inl _ \<Rightarrow> ret result
                | Inr _ \<Rightarrow> bnd (emitSystemFunctionInvoked R space i e payload) (\<lambda>_. ret result)))))))"

definition determineErrorMessage :: "router_error \<Rightarrow> string" where
  "determineErrorMessage err =
     (case err of
        CallError (ErrFunctionAccessDenied (AwsError code _)) \<Rightarrow>
          (if code = ''AccessDeniedException'' then
             ''Function call failed with AccessDeniedException. The provided credentials do not'' @
             '' have the required IAM permissions to invoke this function. Please attach the'' @
             '' lambda:invokeFunction permission to these credentials.''
           else if code = ''UnrecognizedClientException'' then
             ''Function call failed with UnrecognizedClientException. The provided credentials'' @
             '' are invalid. Please provide valid credentials.''
           else if code = ''ExpiredTokenException'' then
             ''Function call failed with ExpiredTokenException. The provided security token for'' @
             '' the function has expired. Please provide an updated security token or provide'' @
             '' permanent credentials.''
           else ''Function call failed. Please check logs.'')
      | _ \<Rightarrow> ''Function call failed. Please check logs.'')"

subsection \<open>The answer of a sync subscriber (http.go)\<close>

record HTTPResponse =
  hr_StatusCode :: int
  hr_Headers :: "(string, string) fmap"
  hr_Body :: string

text \<open>A JSON number as a Go \<^verbatim>\<open>int\<close>: an optional sign and digits, within 64 bits.\<close>

definition read_digits :: "string \<Rightarrow> int option" where
  "read_digits s =
     (if s \<noteq> [] \<and> list_all is_digit s then Some (foldl (\<lambda>n c. n * 10 + (of_nat (byte c) - 48)) 0 s) else None)"

definition read_int :: "string \<Rightarrow> int option" where
  "read_int s =
     (case (case s of CHR ''-'' # ds \<Rightarrow> map_option uminus (read_digits ds) | _ \<Rightarrow> read_digits s) of
        None \<Rightarrow> None
      | Some n \<Rightarrow> if - (2 ^ 63) \<le> n \<and> n < 2 ^ 63 then Some n else None)"

fun read_ints :: "string \<Rightarrow> int \<Rightarrow> json list \<Rightarrow> (string, int) res" where
  "read_ints f cur [] = Inr cur"
| "read_ints f cur (JNull # js) = read_ints f cur js"
| "read_ints f cur (JNum s # js) = (case read_int s of None \<Rightarrow> Inl f | Some n \<Rightarrow> read_ints f n js)"
| "read_ints f cur (_ # js) = Inl f"

definition read_HTTPResponse :: "event_env \<Rightarrow> string \<Rightarrow> (string, HTTPResponse) res" where
  "read_HTTPResponse E resp =
     (case ee_parse E resp of
        None \<Rightarrow> Inl ''syntax''
      | Some j \<Rightarrow>
          (case json_members j of Inl e \<Rightarrow> Inl e | Inr ms \<Rightarrow>
          (case read_ints ''statusCode'' 200 (field_values ms ''statusCode'') of Inl e \<Rightarrow> Inl e | Inr c \<Rightarrow>
          (case get_map ms ''headers'' of Inl e \<Rightarrow> Inl e | Inr hs \<Rightarrow>
          (case get_string ms ''body'' of Inl e \<Rightarrow> Inl e | Inr b \<Rightarrow>
             Inr \<lparr>hr_StatusCode = c, hr_Headers = hs, hr_Body = b\<rparr>)))))"

text \<open>The code writes the status before it sets the content type.\<close>

definition error_answer :: "int \<Rightarrow> string \<Rightarrow> response_writer \<Rightarrow> response_writer" where
  "error_answer code m w =
     Encode (errors_json [m]) (Header_Set ''Content-Type'' ''application/json'' (WriteHeader code w))"

text \<open>What the client gets for the result of the call.\<close>

definition write_response :: "router \<Rightarrow> response_writer \<Rightarrow> (router_error, string) res \<Rightarrow> response_writer" where
  "write_response R w resp =
     (case resp of
        Inl err \<Rightarrow> error_answer 500 (determineErrorMessage err) w
      | Inr bytes \<Rightarrow>
          (case read_HTTPResponse (r_env R) bytes of
             Inl _ \<Rightarrow> error_answer 500 ''HTTP response object malformed'' w
           | Inr hr \<Rightarrow>
               (let w1 = fold (\<lambda>(k, v). Header_Set k v) (r_order R (sorted_list_of_fmap (hr_Headers hr))) w;
                    w2 = WriteHeader (hr_StatusCode hr) w1;
                    err = (if has_no_body (status w2)
                           then Some ''http: request method or response status code does not allow body''
                           else r_Write_error R w2 (hr_Body hr)) in
                (case err of
                   None \<Rightarrow> Write (Raw (hr_Body hr)) w2
                 | Some m \<Rightarrow> error_answer 500 m w2))))"

definition httpRequestHandler :: "router \<Rightarrow> string \<Rightarrow> string \<Rightarrow> event \<Rightarrow> response_writer \<Rightarrow> response_writer act" where
  "httpRequestHandler R space i e w = bnd (callFunction R space i e) (\<lambda>resp. ret (write_response R w resp))"

definition handleSyncSubscription ::
  "router \<Rightarrow> event \<Rightarrow> sync_subscriber \<Rightarrow> response_writer \<Rightarrow> http_request \<Rightarrow> response_writer act" where
  "handleSyncSubscription R e0 s w r =
     bnd (authorizeEventType R (ss_Space s) e0 (Some r)) (\<lambda>(err, e).
     (case err of
        Some _ \<Rightarrow> ret (WriteHeader 403 w)
      | None \<Rightarrow>
          bnd (if ev_EventType e = TypeHTTPRequest then
                 (case ev_Data e of
                    HTTPRequestData a \<Rightarrow>
                      modify (\<lambda>st. st\<lparr>rs_heap := (rs_heap st)\<lparr>hp_Reqs :=
                        (hp_Reqs (rs_heap st))[a := (hp_Reqs (rs_heap st) ! a)\<lparr>hd_Params := ss_Params s\<rparr>]\<rparr>\<rparr>)
                  | _ \<Rightarrow> panic)
               else ret ()) (\<lambda>_.
          httpRequestHandler R (ss_Space s) (ss_FunctionID s) e w)))"

subsection \<open>ServeHTTP\<close>

definition isDraining :: "router_state \<Rightarrow> bool" where
  "isDraining st = rs_draining st"

text \<open>\<^verbatim>\<open>FromRequest\<close> as a step; an event it makes with \<^verbatim>\<open>New\<close> takes the next UUID.\<close>

definition event_from_request :: "router \<Rightarrow> http_request \<Rightarrow> (string, event) res act" where
  "event_from_request R r = (\<lambda>st.
     case FromRequest (r_env R) (r_now R (rs_events st)) (r_uuid R (rs_events st)) r (rs_heap st) of
       Panics \<Rightarrow> (Panic, st)
     | Fails m \<Rightarrow> (Value (Inl m), st)
     | Returns (e, h) \<Rightarrow> (Value (Inr e), st\<lparr>rs_heap := h, rs_events := Suc (rs_events st)\<rparr>))"

definition event_handler :: "router \<Rightarrow> string \<Rightarrow> http_request \<Rightarrow> response_writer \<Rightarrow> response_writer act" where
  "event_handler R path r w =
     bnd (event_from_request R r) (\<lambda>ev.
     (case ev of
        Inl m \<Rightarrow> ret (error_answer 400 m w)
      | Inr e \<Rightarrow>
          (if IsSystem e then ret (WriteHeader 400 w)
           else
             bnd (emitSystemEventReceived R path e r) (\<lambda>stopped.
             (case stopped of
                Some _ \<Rightarrow> ret w
              | None \<Rightarrow>
                  (let sub = SyncSubscriber (r_pick R) (subscriptionCache (r_target R)) (rq_Method r) path (ev_EventType e) in
                   bnd (case sub of None \<Rightarrow> ret w | Some s \<Rightarrow> handleSyncSubscription R e s w r) (\<lambda>w1.
                   bnd (handleAsyncSubscriptions R (rq_Method r) path e (Some r)) (\<lambda>_.
                   ret (if sub = None then WriteHeader 202 w1 else w1)))))))))"

definition requested_method :: "http_request \<Rightarrow> string" where
  "requested_method r =
     (if rq_Method r = ''OPTIONS'' \<and> Header_Get (rq_Header r) ''Access-Control-Request-Method'' \<noteq> []
      then Header_Get (rq_Header r) ''Access-Control-Request-Method'' else rq_Method r)"

definition cors_options_of :: "cors \<Rightarrow> cors_options" where
  "cors_options_of c =
     \<lparr>co_AllowedOrigins = cors_AllowedOrigins c, co_AllowedHeaders = cors_AllowedHeaders c,
      co_AllowedMethods = cors_AllowedMethods c, co_AllowCredentials = cors_AllowCredentials c\<rparr>"

definition serve_request :: "router \<Rightarrow> http_request \<Rightarrow> response_writer act" where
  "serve_request R r =
     bnd (gets isDraining) (\<lambda>draining.
     (if draining then ret (error_answer 503 ''Service Unavailable'' new_response)
      else
        (let path = pr_extractPath (r_paths R) (rq_Host r) (rq_EscapedPath r) in
         (case target_CORS (r_pick R) (corsCache (r_target R)) (requested_method r) path of
            None \<Rightarrow> event_handler R path r new_response
          | Some c \<Rightarrow>
              (case r_cors R (cors_options_of c) r new_response of
                 (w, next) \<Rightarrow> if next then event_handler R path r w else ret w)))))"

definition ServeHTTP :: "router \<Rightarrow> http_request \<Rightarrow> router_state \<Rightarrow> handled \<times> router_state" where
  "ServeHTTP R r st = (case serve_request R r st of (Value w, st') \<Rightarrow> (Responds w, st') | (Panic, st') \<Rightarrow> (Aborted, st'))"

subsection \<open>Workers\<close>

text \<open>What a worker does with an event; a panic in it ends the process.\<close>

definition processEvent :: "router \<Rightarrow> backlog_event \<Rightarrow> unit act" where
  "processEvent R b = bnd (callFunction R (be_space b) (be_functionID b) (be_event b)) (\<lambda>_. ret ())"

text \<open>
  \<^verbatim>\<open>Drain\<close> before and after it waits for the workers, and the state after \<^verbatim>\<open>StartWorkers\<close>; the
  workers are in theory Workers.
\<close>

definition Drain_close :: "router_state \<Rightarrow> router_state" where
  "Drain_close st = (if rs_draining st then st else st\<lparr>rs_draining := True\<rparr>)"

definition Drain_end :: "router_state \<Rightarrow> router_state" where
  "Drain_end st = (if rs_active st then st\<lparr>rs_active := False\<rparr> else st)"

definition StartWorkers :: "router_state \<Rightarrow> router_state" where
  "StartWorkers st =
     (if rs_active st then st
      else st\<lparr>rs_active := True, rs_backlog := (case rs_backlog st of None \<Rightarrow> Some [] | b \<Rightarrow> b)\<rparr>)"

end
