(* ===== verification/EventProps.thy ===== *)
theory EventProps
  imports Event
begin

section \<open>Properties of events\<close>

text \<open>
  Every event that a request becomes is valid and refers to objects that exist; an event that
  one gateway sends is read back by another with the same JSON form; and two ways in which a
  request is read differently from what its sender means.
\<close>

subsection \<open>Addresses\<close>

definition ext_closed :: "heap \<Rightarrow> (string, ext_value) fmap option \<Rightarrow> bool" where
  "ext_closed h x = (case x of None \<Rightarrow> True
     | Some m \<Rightarrow> \<forall>v \<in> fmran' m. case v of ExtMap a \<Rightarrow> a < length (hp_Maps h) | ExtJson _ \<Rightarrow> True)"

definition data_closed :: "heap \<Rightarrow> event_data \<Rightarrow> bool" where
  "data_closed h d = (case d of Plain _ \<Rightarrow> True | HTTPRequestData a \<Rightarrow> a < length (hp_Reqs h) | _ \<Rightarrow> False)"

definition received_closed :: "heap \<Rightarrow> event \<Rightarrow> bool" where
  "received_closed h e \<longleftrightarrow> ext_closed h (ev_Extensions e) \<and> data_closed h (ev_Data e)"

lemma with_simps [simp]:
  "ev_EventType (with_data d e) = ev_EventType e" "ev_CloudEventsVersion (with_data d e) = ev_CloudEventsVersion e"
  "ev_Source (with_data d e) = ev_Source e" "ev_EventID (with_data d e) = ev_EventID e"
  "ev_Extensions (with_data d e) = ev_Extensions e" "ev_Data (with_data d e) = d"
  "ev_EventType (with_extensions x e) = ev_EventType e" "ev_Extensions (with_extensions x e) = x"
  "ev_Data (with_extensions x e) = ev_Data e"
  by (simp_all add: with_data_def with_extensions_def)

lemma Validate_fields:
  "ev_EventType e = ev_EventType e' \<Longrightarrow> ev_CloudEventsVersion e = ev_CloudEventsVersion e' \<Longrightarrow>
   ev_Source e = ev_Source e' \<Longrightarrow> ev_EventID e = ev_EventID e' \<Longrightarrow> Validate E e = Validate E e'"
  by (simp add: Validate_def)

lemma Validate_with_data [simp]: "Validate E (with_data d e) = Validate E e"
  by (rule Validate_fields) simp_all

lemma Validate_None:
  "Validate E e = None \<longleftrightarrow> v_required (ee_base E) (ev_EventType e) \<and> v_required (ee_base E) (ev_CloudEventsVersion e) \<and>
     ee_uri E (ev_Source e) \<and> v_required (ee_base E) (ev_Source e) \<and> v_required (ee_base E) (ev_EventID e)"
  by (auto simp: Validate_def validate_struct_None)

lemma ext_closed_json: "ext_closed h (Some (fmmap ExtJson m))"
  by (auto simp: ext_closed_def fmran'_def)

lemma load_extensions_closed: "load_extensions x h = (x', h') \<Longrightarrow> ext_closed h' x'"
  by (auto simp: load_extensions_def ext_closed_json new_map_def ext_closed_def fmran'_def
      split: option.splits json.splits if_splits)

lemma binary_extensions_closed:
  "binary_extensions hs x = Some x' \<Longrightarrow> ext_closed h (Some x) \<Longrightarrow> ext_closed h (Some x')"
proof (induction hs x rule: binary_extensions.induct)
  case (2 key val hs x)
  have "ext_closed h (Some (fmupd k (ExtJson j) x))" for k j
    using "2.prems"(2) by (auto simp: ext_closed_def fmran'_def split: if_splits)
  then show ?case using 2 by (auto split: if_splits list.splits)
qed simp

lemma normalize_data_closed [simp]: "data_closed h (normalize_data E d mime) = data_closed h d"
  by (simp add: data_closed_def normalize_data_def split: event_data.split)

lemma New_fields:
  assumes "New E now uuid t mime d h = (e, h')"
  shows "ev_EventType e = t" "ev_CloudEventsVersion e = ''0.1''" "ev_EventID e = uuid"
    "ev_Source e = ''https://serverless.com/event-gateway/#transformationVersion=0.1''"
    "ev_Data e = normalize_data E d mime" "ext_closed h' (ev_Extensions e)" "hp_Reqs h' = hp_Reqs h"
    "ev_ContentType e = mime"
  using assms by (auto simp: New_def new_map_def TransformationVersion_def CloudEventsVersion_def ext_closed_def
      fmran'_def fmlookup_of_list split: if_splits)

lemma read_event_facts:
  "read_event E j h = Inr (e, h') \<Longrightarrow> ext_closed h' (ev_Extensions e) \<and> (\<exists>p. ev_Data e = Plain p)"
  by (auto simp: read_event_def Let_def split: sum.splits) (auto split: prod.splits dest: load_extensions_closed)

text \<open>What the third-party validator promises on the gateway's own events.\<close>

definition own_events_valid :: "event_env \<Rightarrow> bool" where
  "own_events_valid E \<longleftrightarrow> (\<forall>s. v_required (ee_base E) s = (s \<noteq> [])) \<and>
     ee_uri E ''https://serverless.com/event-gateway/#transformationVersion=0.1''"

lemma New_valid:
  assumes "own_events_valid E" and "uuid \<noteq> []" and "t \<noteq> []" and "New E now uuid t mime d h = (e, h')"
    and "data_closed h d"
  shows "Validate E e = None \<and> received_closed h' e"
  using New_fields [OF assms(4)] assms(1,2,3,5)
  by (simp add: Validate_None own_events_valid_def received_closed_def)
   (simp add: data_closed_def split: event_data.splits)

lemma parseAsCloudEvent_valid:
  "parseAsCloudEvent E body h = Returns (e, h') \<Longrightarrow> Validate E e = None \<and> received_closed h' e"
  by (auto simp: parseAsCloudEvent_def received_closed_def data_closed_def normalize_data_def
      split: option.splits sum.splits dest!: read_event_facts)

lemma parseAsCloudEventBinary_valid:
  assumes "parseAsCloudEventBinary E headers body = Returns e"
  shows "Validate E e = None \<and> received_closed h e"
proof -
  define e0 where "e0 = Event (Header_Get headers ''CE-EventType'') (Header_Get headers ''CE-EventTypeVersion'')
            (Header_Get headers ''CE-CloudEventsVersion'') (Header_Get headers ''CE-Source'')
            (Header_Get headers ''CE-EventID'') None [] None (Header_Get headers ''Content-Type'')
            (Plain (PBytes body))"
  obtain x tm where x: "binary_extensions (flat_headers headers) fmempty = Some x"
    and v: "Validate E e0 = None"
    and e: "e = Event (ev_EventType e0) (ev_EventTypeVersion e0) (ev_CloudEventsVersion e0)
      (ev_Source e0) (ev_EventID e0) tm (Header_Get headers ''CE-SchemaURL'') (Some x)
      (ev_ContentType e0) (normalize_data E (ev_Data e0) (ev_ContentType e0))"
    using assms unfolding parseAsCloudEventBinary_def Let_def e0_def [symmetric]
    by (auto split: option.splits sum.splits)
  have "Validate E e = None" using v Validate_fields [of e e0 E] by (simp add: e)
  moreover have "ext_closed h (Some fmempty)" by (simp add: ext_closed_def fmran'_def)
  moreover have "data_closed h (ev_Data e)" by (simp add: e e0_def) (simp add: data_closed_def)
  ultimately show ?thesis
    using binary_extensions_closed [OF x] by (simp add: e received_closed_def)
qed

text \<open>C27: Every event that a request becomes is a valid CloudEvent: in all four modes the required
  attributes are set and the source is a URI, and the event refers only to objects that exist.\<close>

theorem FromRequest_valid:
  assumes "own_events_valid E" and "uuid \<noteq> []" and "FromRequest E now uuid r h = Returns (e, h')"
  shows "Validate E e = None \<and> received_closed h' e"
proof -
  have ev: "CanonicalHeaderKey ''event'' = CanonicalHeaderKey ''Event''" by code_simp
  have legacy: "Validate E e = None \<and> received_closed h' e"
    if "isLegacyMode (rq_Header r)" "New E now uuid (Header_Get (rq_Header r) ''event'') m (Plain (PBytes b)) h = (e, h')"
    for m b
    using that New_valid [OF assms(1,2) _ that(2)]
    by (simp add: isLegacyMode_def Header_Get_def ev data_closed_def)
  have own: "Validate E e = None \<and> received_closed h' e"
    if "new_req d h = (a, h1)" "New E now uuid TypeHTTPRequest m (HTTPRequestData a) h1 = (e, h')" for d a h1 m
    using New_valid [OF assms(1,2) _ that(2)] that(1)
    by (auto simp: TypeHTTPRequest_def data_closed_def new_req_def)
  show ?thesis
    using assms(3) legacy own parseAsCloudEvent_valid [of E _ h e h'] parseAsCloudEventBinary_valid [of E _ _ e h]
    unfolding FromRequest_def Let_def
    by (auto split: sum.splits if_splits go.splits prod.splits)
qed

subsection \<open>Example environment\<close>

text \<open>A validator, a clock and the text of one document, for the witnesses.\<close>

definition plain_event_env :: "json \<Rightarrow> event_env" where
  "plain_event_env j =
     \<lparr>ee_base = \<lparr>v_required = (\<lambda>s. s \<noteq> []), v_url = (\<lambda>_. True), v_min = (\<lambda>n s. n \<le> length s),
        v_min_len = (\<lambda>n l. n \<le> length l), v_eq = (=), v_message = concat, new_session_error = (\<lambda>_. None)\<rparr>,
      ee_uri = (\<lambda>s. s \<noteq> []), ee_text = (\<lambda>_. ''{...}''), ee_parse = (\<lambda>s. if s = ''{...}'' then Some j else None),
      ee_time = Inr, ee_error_json = (\<lambda>_. JObj [])\<rparr>"

definition ex_http :: "multimap \<Rightarrow> string \<Rightarrow> http_request" where
  "ex_http h b = \<lparr>rq_Method = ''POST'', rq_Host = ''localhost'', rq_Path = ''/'', rq_RawPath = '''',
     rq_EscapedPath = ''/'', rq_Query = [], rq_Header = h, rq_Body = Inr b\<rparr>"

abbreviation "no_heap \<equiv> \<lparr>hp_Maps = [], hp_Reqs = []\<rparr>"

lemma canonical_keys:
  "CanonicalHeaderKey ''Content-Type'' = ''Content-Type''" "CanonicalHeaderKey ''content-type'' = ''Content-Type''"
  "CanonicalHeaderKey ''Event'' = ''Event''" "CanonicalHeaderKey ''event'' = ''Event''"
  "CanonicalHeaderKey ''CE-EventType'' = ''Ce-Eventtype''"
  "CanonicalHeaderKey ''CE-EventTypeVersion'' = ''Ce-Eventtypeversion''"
  "CanonicalHeaderKey ''CE-CloudEventsVersion'' = ''Ce-Cloudeventsversion''"
  "CanonicalHeaderKey ''CE-Source'' = ''Ce-Source''" "CanonicalHeaderKey ''CE-EventID'' = ''Ce-Eventid''"
  "CanonicalHeaderKey ''CE-EventTime'' = ''Ce-Eventtime''" "CanonicalHeaderKey ''CE-SchemaURL'' = ''Ce-Schemaurl''"
  by code_simp+

lemma media_types:
  "ParseMediaType ''application/cloudevents+json'' = Inr ''application/cloudevents+json''"
  "ParseMediaType ''application/json; charset=utf-8'' = Inr ''application/json''"
  "ParseMediaType '''' = Inl no_media_type"
  by code_simp+

theorem FromRequest_valid_witness:
  "\<exists>e h'. FromRequest (plain_event_env JNull) ''now'' ''id'' (ex_http [(''Event'', ''user.created'', [])] ''x'') no_heap =
      Returns (e, h') \<and> Validate (plain_event_env JNull) e = None"
proof -
  let ?r = "ex_http [(''Event'', ''user.created'', [])] ''x''"
  obtain e h' where f: "FromRequest (plain_event_env JNull) ''now'' ''id'' ?r no_heap = Returns (e, h')"
    by (cases "New (plain_event_env JNull) ''now'' ''id'' ''user.created'' ''application/octet-stream'' (Plain (PBytes ''x'')) no_heap")
      (simp add: FromRequest_def ex_http_def Header_Get_def canonical_keys media_types mimeCloudEventsJSON_def mimeJSON_def
        isCloudEventsBinaryContentMode_def isLegacyMode_def Let_def)
  have "own_events_valid (plain_event_env JNull)" by (simp add: own_events_valid_def plain_event_env_def)
  from FromRequest_valid [OF this _ f] f show ?thesis by simp
qed

subsection \<open>Round trip\<close>

lemma sorted_list_of_fmmap:
  "sorted_list_of_fmap (fmmap f m) = map (\<lambda>(k, v). (k, f v)) (sorted_list_of_fmap m)"
proof -
  have *: "the (map_option f (fmlookup m k)) = f (the (fmlookup m k))" if "k \<in> set (sorted_list_of_fset (fmdom m))" for k
    using that by (auto simp: sorted_list_of_fset.rep_eq fmdom'_alt_def [symmetric] fmlookup_dom'_iff)
  show ?thesis by (auto simp: sorted_list_of_fmap_def *)
qed

lemma extensions_json_map: "extensions_json h m = sorted_list_of_fmap (fmmap (ext_json h) m)"
  by (simp add: extensions_json_def sorted_list_of_fmmap)

lemma sorted_keys_distinct: "distinct (map fst (sorted_list_of_fmap m))"
  by (simp add: sorted_list_of_fmap_def comp_def sorted_list_of_fset.rep_eq)

lemma fold_fmupd:
  "distinct (map fst xs) \<Longrightarrow> fold (\<lambda>(k, v) m. fmupd k v m) xs m = m ++\<^sub>f fmap_of_list xs"
proof (induction xs arbitrary: m)
  case (Cons kv xs)
  obtain k v where [simp]: "kv = (k, v)" by fastforce
  have "fmupd k v m ++\<^sub>f fmap_of_list xs = m ++\<^sub>f fmap_of_list (kv # xs)"
    using Cons.prems by (intro fmap_ext) (auto simp: fmlookup_of_list fset_of_list.rep_eq map_of_eq_None_iff)
  then show ?case using Cons by simp
qed simp

lemma fold_sorted: "fold (\<lambda>(k, v) m. fmupd k v m) (sorted_list_of_fmap m) fmempty = m"
  by (simp add: fold_fmupd sorted_keys_distinct fmap_of_sorted_list_of_fmap)

lemma fmap_of_rev_sorted: "fmap_of_list (rev (sorted_list_of_fmap m)) = m"
proof (rule fmap_ext)
  fix k
  have "map_of (rev (sorted_list_of_fmap m)) = map_of (sorted_list_of_fmap m)"
    by (subst map_of_inject_set) (simp_all add: rev_map [symmetric] sorted_keys_distinct)
  then show "fmlookup (fmap_of_list (rev (sorted_list_of_fmap m))) k = fmlookup m k"
    by (simp add: fmlookup_of_list)
qed

text \<open>Extensions read back from their JSON form have the same JSON form.\<close>

lemma load_extensions_json:
  assumes "\<And>ms. fmlookup m ''eventgateway'' \<noteq> Some (ExtJson (JObj ms))"
    and "load_extensions (Some (fmmap (ext_json h) m)) h0 = (x', h')"
  shows "\<exists>m'. x' = Some m' \<and> extensions_json h' m' = extensions_json h m \<and> (m' = fmempty \<longleftrightarrow> m = fmempty)"
proof -
  have e: "fmmap f m = fmempty \<longleftrightarrow> m = fmempty" for f :: "'a \<Rightarrow> 'b" and m :: "(string, 'a) fmap"
    using fmdom_map [of f m] by (metis fmdom_empty fmdom_notD fmempty_lookup fempty_iff fmap_ext)
  have plain: "ext_json h0 (ExtJson j) = j" for j by (simp add: ext_json_def)
  show ?thesis
  proof (cases "\<exists>ms. fmlookup (fmmap (ext_json h) m) ''eventgateway'' = Some (JObj ms)")
    case True
    then obtain ms v where v: "fmlookup m ''eventgateway'' = Some v" "ext_json h v = JObj ms" by auto
    with assms(1) obtain b where ms: "fmlookup m ''eventgateway'' = Some (ExtMap b)" "ext_json h (ExtMap b) = JObj ms"
      by (cases v) (auto simp: ext_json_def)
    then have b: "ms = sorted_list_of_fmap (hp_Maps h ! b)"
      by (simp add: ext_json_def map_json_def split: if_splits)
    let ?a = "length (hp_Maps h0)"
    have x': "x' = Some (fmupd ''eventgateway'' (ExtMap ?a) (fmmap ExtJson (fmmap (ext_json h) m)))"
      and h': "h' = h0\<lparr>hp_Maps := hp_Maps h0 @ [hp_Maps h ! b]\<rparr>"
      using assms(2) ms b by (auto simp: load_extensions_def new_map_def fmap_of_rev_sorted)
    have g: "ext_json h' (ExtMap ?a) = ext_json h (ExtMap b)" "ext_json h' (ExtJson j) = j" for j
      using ms(2) b by (simp_all add: h' ext_json_def map_json_def)
    have "fmmap (ext_json h') (fmupd ''eventgateway'' (ExtMap ?a) (fmmap ExtJson (fmmap (ext_json h) m))) = fmmap (ext_json h) m"
      using ms(1) by (intro fmap_ext) (auto simp: g option.map_comp comp_def)
    moreover have "m \<noteq> fmempty" using ms(1) by auto
    ultimately show ?thesis unfolding x' extensions_json_map
      by (metis fmempty_lookup fmupd_lookup option.distinct(1))
  next
    case False
    then have "x' = Some (fmmap ExtJson (fmmap (ext_json h) m))" "h' = h0"
      using assms(2) by (auto simp: load_extensions_def split: option.splits json.splits)
    moreover have "fmmap (ext_json h0) (fmmap ExtJson (fmmap (ext_json h) m)) = fmmap (ext_json h) m"
      by (intro fmap_ext) (simp add: option.map_comp comp_def plain)
    ultimately show ?thesis by (simp add: extensions_json_map e)
  qed
qed

lemma any_payload_json [simp]: "payload_json (any_payload j) = j"
  by (cases j) (simp_all add: any_payload_def)

lemma any_payload_normal [simp]: "normalize_data E (Plain (any_payload j)) mime = Plain (any_payload j)"
  by (cases j) (simp_all add: normalize_data_def any_payload_def normalizePayload_def)

text \<open>What a JSON form of an event is read back to.\<close>

lemma read_event_json:
  assumes "\<And>t. ev_EventTime e = Some t \<Longrightarrow> ee_time E t = Inr t"
    and "\<And>m ms. ev_Extensions e = Some m \<Longrightarrow> fmlookup m ''eventgateway'' \<noteq> Some (ExtJson (JObj ms))"
  shows "\<exists>e' h'. read_event E (event_json E h e) h0 = Inr (e', h') \<and> event_json E h' e' = event_json E h e \<and>
    Validate E e' = Validate E e \<and> (\<exists>j. ev_Data e' = Plain (any_payload j))"
proof -
  obtain t tv cv src i tm su x ct d where e: "e = Event t tv cv src i tm su x ct d" by (cases e)
  let ?x = "case x of None \<Rightarrow> None | Some m \<Rightarrow> if m = fmempty then None else Some (fmmap (ext_json h) m)"
  obtain x' h' where x': "load_extensions ?x h0 = (x', h')" by fastforce
  let ?e' = "Event t tv cv src i tm su x' ct (Plain (any_payload (data_json E h d)))"
  have tm: "read_time E None (case tm of None \<Rightarrow> [] | Some s \<Rightarrow> [JStr s]) = Inr tm"
    using assms(1) by (auto simp: e split: option.splits)
  have ext: "read_any_map None (case x of None \<Rightarrow> []
      | Some m \<Rightarrow> if m = fmempty then [] else [JObj (extensions_json h m)]) = Inr ?x"
    by (auto simp: extensions_json_map fold_sorted split: option.splits)
  have "read_event E (event_json E h e) h0 = Inr (?e', h')"
    using x' tm ext
    by (cases tm; cases "x = None \<or> x = Some fmempty")
      (auto simp: read_event_def e json_members_def get_string_def json_fields split: option.splits)
  moreover have "event_json E h' ?e' = event_json E h e"
  proof (cases "\<exists>m. x = Some m \<and> m \<noteq> fmempty")
    case True
    then obtain m where m: "x = Some m" "m \<noteq> fmempty" by blast
    then obtain m' where "x' = Some m'" "extensions_json h' m' = extensions_json h m" "m' \<noteq> fmempty"
      using load_extensions_json [of m h h0 x' h'] x' assms(2) by (auto simp: e)
    then show ?thesis by (simp add: e m)
  next
    case False
    then have "?x = None" by (auto split: option.splits)
    then have "x' = None" using x' by (simp add: load_extensions_def)
    then show ?thesis using False by (auto simp: e split: option.splits)
  qed
  ultimately show ?thesis
    using Validate_fields [of ?e' e E] by (auto simp: e)
qed

text \<open>C37: Structured mode is a round trip: an event that a gateway sends as a CloudEvents document,
  and another gateway receives, has the same JSON form there, whatever its data and extensions.\<close>

theorem structured_mode_roundtrip:
  assumes "Header_Get (rq_Header r) ''Content-Type'' = ''application/cloudevents+json''"
    and "rq_Body r = Inr (ee_text E (event_json E h e))"
    and "ee_parse E (ee_text E (event_json E h e)) = Some (event_json E h e)"
    and "Validate E e = None"
    and "\<And>t. ev_EventTime e = Some t \<Longrightarrow> ee_time E t = Inr t"
    and "\<And>m ms. ev_Extensions e = Some m \<Longrightarrow> fmlookup m ''eventgateway'' \<noteq> Some (ExtJson (JObj ms))"
  shows "\<exists>e' h'. FromRequest E now uuid r h0 = Returns (e', h') \<and> event_json E h' e' = event_json E h e"
proof -
  obtain e' h' j where e': "read_event E (event_json E h e) h0 = Inr (e', h')"
    "event_json E h' e' = event_json E h e" "Validate E e' = None" "ev_Data e' = Plain (any_payload j)"
    using read_event_json [of e E h h0] assms(4,5,6) by metis
  then have "with_data (normalize_data E (ev_Data e') (ev_ContentType e')) e' = e'"
    by (cases e') (simp add: with_data_def)
  then show ?thesis
    using e' assms(1-3) by (simp add: FromRequest_def media_types mimeCloudEventsJSON_def parseAsCloudEvent_def)
qed

definition ex_event :: event where
  "ex_event = Event ''user.created'' '''' ''0.1'' ''/a'' ''1'' None '''' None ''application/json''
     (Plain (PJson (JObj [(''x'', JNum ''1'')])))"

lemma plain_json:
  "event_json (plain_event_env j) h e = event_json (plain_event_env JNull) h e"
  "data_json (plain_event_env j) h d = data_json (plain_event_env JNull) h d"
  by (induction e and d) (simp_all add: plain_event_env_def)

theorem structured_mode_roundtrip_witness:
  "\<exists>e' h'. FromRequest (plain_event_env (event_json (plain_event_env JNull) no_heap ex_event)) ''now'' ''id''
     (ex_http [(''Content-Type'', ''application/cloudevents+json'', [])] ''{...}'') no_heap = Returns (e', h') \<and>
   event_json (plain_event_env JNull) h' e' = event_json (plain_event_env JNull) no_heap ex_event"
proof -
  let ?E = "plain_event_env (event_json (plain_event_env JNull) no_heap ex_event)"
  have "Validate ?E ex_event = None"
    by (simp add: Validate_None plain_event_env_def ex_event_def)
  then show ?thesis
    using structured_mode_roundtrip [of "ex_http [(''Content-Type'', ''application/cloudevents+json'', [])] ''{...}''"
        ?E no_heap ex_event "''now''" "''id''" no_heap]
    unfolding plain_json [of "event_json (plain_event_env JNull) no_heap ex_event"]
    by (simp add: ex_http_def Header_Get_def canonical_keys) (simp add: plain_event_env_def ex_event_def)
qed

text \<open>A header can crash the handler: in binary mode, a valid event with an extension header
  whose name consists of the letters of \<^verbatim>\<open>Ce-X-\<close> only makes \<^verbatim>\<open>FromRequest\<close> panic, because
  \<^verbatim>\<open>TrimLeft\<close> removes a set of letters and not a prefix.\<close>

theorem extension_header_panics:
  assumes "ParseMediaType (Header_Get (rq_Header r) ''Content-Type'') = Inr mt" and "mt \<noteq> mimeCloudEventsJSON"
    and "isCloudEventsBinaryContentMode (rq_Header r)" and "rq_Body r = Inr body"
    and "own_events_valid E" and "ee_uri E (Header_Get (rq_Header r) ''CE-Source'')"
    and "Header_Get (rq_Header r) ''CE-EventTime'' = []"
    and "(''Ce-X-'' @ k, v) \<in> set (rq_Header r)" and "set k \<subseteq> set ''Ce-X-''"
  shows "FromRequest E now uuid r h = Panics"
proof -
  have none: "binary_extensions hs x = None" if "\<exists>val. (''Ce-X-'' @ k, val) \<in> set hs" for hs x
    using that
  proof (induction hs arbitrary: x)
    case (Cons kv hs)
    obtain key val where kv: "kv = (key, val)" by fastforce
    have "trim_left (''Ce-X-'' @ k) ''Ce-X-'' = []"
      using assms(9) by (auto simp: trim_left_def dropWhile_eq_Nil_conv)
    moreover have "has_prefix (''Ce-X-'' @ k) ''Ce-X-''" by (rule has_prefix_append)
    ultimately show ?case
      using Cons by (cases "key = ''Ce-X-'' @ k") (auto simp: kv split: list.splits)
  qed simp
  have "\<exists>val. (''Ce-X-'' @ k, val) \<in> set (flat_headers (rq_Header r))"
    using assms(8) by (force simp: flat_headers_def)
  moreover have "Validate E (Event (Header_Get (rq_Header r) ''CE-EventType'') tv
      (Header_Get (rq_Header r) ''CE-CloudEventsVersion'') (Header_Get (rq_Header r) ''CE-Source'')
      (Header_Get (rq_Header r) ''CE-EventID'') tm su x ct d) = None" for tv tm su x ct d
    using assms(3,5,6) by (simp add: Validate_None own_events_valid_def isCloudEventsBinaryContentMode_def)
  ultimately have "parseAsCloudEventBinary E (rq_Header r) body = Panics"
    using none assms(7) by (simp add: parseAsCloudEventBinary_def Let_def)
  then show ?thesis using assms(1-4) by (simp add: FromRequest_def)
qed

theorem extension_header_panics_witness:
  "FromRequest (plain_event_env JNull) ''now'' ''id'' (ex_http
     [(''Content-Type'', ''application/json; charset=utf-8'', []), (''Ce-Eventtype'', ''a'', []),
      (''Ce-Cloudeventsversion'', ''0.1'', []), (''Ce-Source'', ''/a'', []), (''Ce-Eventid'', ''1'', []),
      (''Ce-X-C'', ''v'', [])] ''x'') no_heap = Panics"
  by (rule extension_header_panics [of _ "''application/json''" _ _ "''C''" "(''v'', [])"])
    (simp_all add: ex_http_def Header_Get_def canonical_keys media_types mimeCloudEventsJSON_def
      isCloudEventsBinaryContentMode_def own_events_valid_def plain_event_env_def)

text \<open>JSON with a charset is not read as JSON: a request with the content type
  \<^verbatim>\<open>application/json; charset=utf-8\<close> becomes an event whose body is the base64 text of the bytes
  even though its media type is JSON.\<close>

theorem json_with_charset_not_decoded:
  assumes "Header_Get (rq_Header r) ''Content-Type'' = ''application/json; charset=utf-8''"
    and "\<not> isCloudEventsBinaryContentMode (rq_Header r)" and "\<not> isLegacyMode (rq_Header r)"
    and "rq_Body r = Inr body" and "ee_parse E body = Some (JObj ms)"
  shows "\<exists>e h' a. FromRequest E now uuid r h = Returns (e, h') \<and> ev_Data e = HTTPRequestData a \<and>
    a < length (hp_Reqs h') \<and> payload_json (hd_Body (hp_Reqs h' ! a)) = JStr (b64_std body)"
proof -
  have g: "Header_Get (rq_Header r) ''content-type'' = ''application/json; charset=utf-8''"
    using assms(1) by (simp add: Header_Get_def canonical_keys)
  have "\<not> has_suffix ''application/json; charset=utf-8'' ''+json''"
    "\<not> has_prefix ''application/json; charset=utf-8'' mimeFormMultipart"
    by (simp_all add: has_suffix_def has_prefix_def mimeFormMultipart_def)
  then have b: "hd_Body (NewHTTPRequestData E r (PBytes body)) = PBytes body"
    by (simp add: NewHTTPRequestData_def normalizePayload_def g mimeJSON_def mimeFormURLEncoded_def)
  let ?d = "NewHTTPRequestData E r (PBytes body)"
  let ?h1 = "h\<lparr>hp_Reqs := hp_Reqs h @ [?d]\<rparr>"
  obtain e h' where n: "New E now uuid TypeHTTPRequest mimeJSON (HTTPRequestData (length (hp_Reqs h))) ?h1 = (e, h')"
    by fastforce
  have "FromRequest E now uuid r h = Returns (e, h')"
    using assms n by (simp add: FromRequest_def media_types mimeCloudEventsJSON_def new_req_def)
  then show ?thesis
    using New_fields [OF n] b by (auto simp: normalize_data_def nth_append)
qed

theorem json_with_charset_not_decoded_witness:
  "\<exists>e h' a. FromRequest (plain_event_env (JObj [])) ''now'' ''id''
     (ex_http [(''Content-Type'', ''application/json; charset=utf-8'', [])] ''{...}'') no_heap = Returns (e, h') \<and>
   ev_Data e = HTTPRequestData a \<and> payload_json (hd_Body (hp_Reqs h' ! a)) = JStr (b64_std ''{...}'')"
  using json_with_charset_not_decoded [of "ex_http [(''Content-Type'', ''application/json; charset=utf-8'', [])] ''{...}''"
      "''{...}''" "plain_event_env (JObj [])" "[]"]
  by (simp add: ex_http_def Header_Get_def canonical_keys isCloudEventsBinaryContentMode_def isLegacyMode_def
      plain_event_env_def) blast

end
