(* ===== verification/RouterFacts.thy ===== *)
theory RouterFacts
  imports Router EventProps
begin

section \<open>Facts on the router\<close>

text \<open>
  A relation between the states before and after that every primitive step satisfies holds for
  every composed step, whether it ends in a value or in a panic. The locale \<open>router_frame\<close>
  proves this once for all of the router; it is interpreted on the relations between the
  backlogs that the properties and theory Workers need.
\<close>

definition steps :: "(router_state \<Rightarrow> router_state \<Rightarrow> bool) \<Rightarrow> 'a act \<Rightarrow> bool" where
  "steps rel m \<longleftrightarrow> (\<forall>st. rel st (snd (m st)))"

locale frame =
  fixes rel :: "router_state \<Rightarrow> router_state \<Rightarrow> bool"
  assumes rel_refl: "rel st st" and rel_trans: "rel a b \<Longrightarrow> rel b c \<Longrightarrow> rel a c"
begin

lemma steps_ret [intro!]: "steps rel (ret x)"
  by (simp add: steps_def ret_def rel_refl)

lemma steps_panic [intro!]: "steps rel panic"
  by (simp add: steps_def panic_def rel_refl)

lemma steps_gets [intro!]: "steps rel (gets f)"
  by (simp add: steps_def gets_def rel_refl)

lemma steps_bnd [intro]:
  assumes "steps rel m" and "\<And>x. steps rel (f x)"
  shows "steps rel (bnd m f)"
  unfolding steps_def
proof
  fix st
  show "rel st (snd (bnd m f st))"
    using assms rel_trans [of st "snd (m st)"] unfolding steps_def bnd_def
    by (cases "m st") (auto split: result.splits; metis snd_conv)
qed

end

text \<open>The copier keeps the type of an event: it copies field by field.\<close>

definition copies_types :: "router \<Rightarrow> bool" where
  "copies_types R \<longleftrightarrow> (\<forall>e h. ev_EventType (fst (r_copy R e h)) = ev_EventType e)"

locale router_frame = frame +
  fixes R :: router and allowed :: "event \<Rightarrow> bool"
  assumes rel_calls: "rel st (st\<lparr>rs_calls := cs\<rparr>)" and rel_heap: "rel st (st\<lparr>rs_heap := h\<rparr>)"
    and rel_events: "rel st (st\<lparr>rs_heap := h, rs_events := n\<rparr>)"
    and rel_enqueue: "allowed (be_event b) \<Longrightarrow> steps rel (enqueueWork R b)"
    and types: "copies_types R"
begin

lemma steps_call: "steps rel (call_target R sp i payload)"
  by (auto simp: steps_def call_target_def rel_refl rel_calls Let_def split: option.split call_result.split)

lemma steps_new: "steps rel (new_event R t m d)"
  by (auto simp: steps_def new_event_def rel_events split: prod.split)

lemma steps_copy: "steps rel (copy_event R e)"
  by (auto simp: steps_def copy_event_def rel_heap split: prod.split)

lemma steps_set_authorization: "steps rel (set_authorization j e)"
  by (auto simp: steps_def set_authorization_def new_map_def rel_heap rel_refl split: option.split ext_value.split)

lemma steps_authorize: "steps rel (authorizeEventType R sp e r)"
  unfolding authorizeEventType_def
  by (auto simp: split: option.split sum.split prod.split intro!: steps_bnd steps_call steps_set_authorization)

lemma steps_plugin_loop: "steps rel (plugin_loop p e subs)"
proof (induction subs)
  case (Cons s subs)
  obtain t ty where s: "s = (t, ty)" by fastforce
  have "rel st (snd (plugin_loop p e subs (st\<lparr>rs_calls := cs\<rparr>)))" for st cs
    by (rule rel_trans [OF rel_calls [where cs = cs]]) (use Cons in \<open>simp add: steps_def\<close>)
  then show ?case
    using Cons rel_calls by (auto simp: s steps_def Let_def split: option.split)
qed auto

lemma steps_React: "steps rel (React ps e)"
  by (induction ps) (auto intro!: steps_bnd steps_plugin_loop split: option.split)

text \<open>Authorization keeps the type of the event.\<close>

lemma authorize_type:
  "authorizeEventType R sp e r st = (Value (err, e'), st') \<Longrightarrow> ev_EventType e' = ev_EventType e"
  by (auto simp: authorizeEventType_def bnd_def ret_def gets_def panic_def set_authorization_def new_map_def
      split: option.splits sum.splits prod.splits result.splits ext_value.splits)

lemma steps_async_loop:
  assumes "\<And>e'. ev_EventType e' = ev_EventType e \<Longrightarrow> allowed e'"
  shows "steps rel (async_loop R me path e r ss)"
proof (induction ss)
  case (Cons s ss)
  show ?case
    unfolding steps_def
  proof
    fix st
    obtain e1 st1 where c: "copy_event R e st = (Value e1, st1)"
      by (cases "r_copy R e (rs_heap st)") (simp add: copy_event_def)
    then have t1: "ev_EventType e1 = ev_EventType e"
      using types by (auto simp: copy_event_def copies_types_def split: prod.splits) (metis fst_conv)
    have r1: "rel st st1" using steps_copy [of e] c unfolding steps_def by (metis snd_conv)
    obtain res st2 where a: "authorizeEventType R (as_Space s) e1 r st1 = (res, st2)" by fastforce
    have r2: "rel st1 st2" using steps_authorize a unfolding steps_def by (metis snd_conv)
    show "rel st (snd (async_loop R me path e r (s # ss) st))"
    proof (cases res)
      case Panic
      then show ?thesis using c a rel_trans [OF r1 r2] by (simp add: bnd_def)
    next
      case (Value v)
      obtain err e2 where v: "v = (err, e2)" by fastforce
      have t2: "ev_EventType e2 = ev_EventType e" using authorize_type a t1 Value v by metis
      let ?b = "\<lparr>be_space = as_Space s, be_functionID = as_FunctionID s, be_method = me, be_path = path, be_event = e2\<rparr>"
      have "steps rel (bnd (if err = None then enqueueWork R ?b else ret ()) (\<lambda>_. async_loop R me path e r ss))"
        using Cons rel_enqueue [of ?b] assms t2 by (intro steps_bnd) auto
      then have "rel st2 (snd (async_loop R me path e r (s # ss) st))"
        using c a by (simp add: bnd_def Value v steps_def)
      then show ?thesis using rel_trans r1 r2 by blast
    qed
  qed
qed auto

lemma steps_handleAsync:
  "(\<And>e'. ev_EventType e' = ev_EventType e \<Longrightarrow> allowed e') \<Longrightarrow> steps rel (handleAsyncSubscriptions R me path e r)"
  unfolding handleAsyncSubscriptions_def by (rule steps_async_loop)

text \<open>Calling a function with a system event emits nothing.\<close>

lemma steps_callFunction_system: "IsSystem e \<Longrightarrow> steps rel (callFunction R sp i e)"
  unfolding callFunction_def emitSystemFunctionInvoking_def emitSystemFunctionInvoked_def
    emitSystemFunctionInvocationFailed_def
  by (auto intro!: steps_bnd steps_call split: option.split sum.split router_error.split)

text \<open>The steps made of these, when the system events of the router may be enqueued.\<close>

lemma steps_react_to:
  assumes "steps rel (emit_function_event R sp t d)"
  shows "steps rel (bnd (emit_function_event R sp t d) (React (r_plugins R)))"
  using assms by (intro steps_bnd steps_React)

end

text \<open>The types of the four system events.\<close>

definition system_types :: "string set" where
  "system_types = {SystemEventReceivedType, SystemFunctionInvokingType, SystemFunctionInvokedType,
     SystemFunctionInvocationFailedType}"

lemma system_types_system: "ev_EventType e \<in> system_types \<Longrightarrow> IsSystem e"
  by (auto simp: system_types_def IsSystem_def has_prefix_def SystemEventReceivedType_def
      SystemFunctionInvokingType_def SystemFunctionInvokedType_def SystemFunctionInvocationFailedType_def)

lemma new_event_type: "new_event R t m d st = (Value e, st') \<Longrightarrow> ev_EventType e = t"
  by (auto simp: new_event_def New_def new_map_def split: prod.splits)

lemma new_event_value: "\<exists>e st'. new_event R t m d st = (Value e, st')"
  by (simp add: new_event_def split: prod.split)

text \<open>When system events may be enqueued.\<close>

locale system_frame = router_frame +
  assumes system: "ev_EventType e \<in> system_types \<Longrightarrow> allowed e"
begin

lemma steps_emitted:
  assumes "t \<in> system_types" and "\<And>e. steps rel (f e)"
  shows "steps rel (bnd (new_event R t m d) (\<lambda>e. bnd (handleAsyncSubscriptions R me path e r) (\<lambda>_. f e)))"
  unfolding steps_def
proof
  fix st
  obtain e st1 where n: "new_event R t m d st = (Value e, st1)" using new_event_value by blast
  have "steps rel (bnd (handleAsyncSubscriptions R me path e r) (\<lambda>_. f e))"
    using new_event_type [OF n] assms system by (intro steps_bnd steps_handleAsync) auto
  then have "rel st1 (snd (bnd (handleAsyncSubscriptions R me path e r) (\<lambda>_. f e) st1))"
    by (simp add: steps_def)
  moreover have "rel st st1" using steps_new [of t m d] n unfolding steps_def by (metis snd_conv)
  ultimately show "rel st (snd (bnd (new_event R t m d) (\<lambda>e. bnd (handleAsyncSubscriptions R me path e r) (\<lambda>_. f e)) st))"
    using rel_trans by (simp add: bnd_def [of "new_event R t m d"] n)
qed

lemma steps_function_event: "t \<in> system_types \<Longrightarrow> steps rel (emit_function_event R sp t d)"
  unfolding emit_function_event_def by (rule steps_emitted) auto

lemma steps_received: "steps rel (emitSystemEventReceived R path e r)"
proof (cases "pr_systemPathFromURL (r_paths R) (rq_Host r) path")
  case None
  then show ?thesis by (auto simp: emitSystemEventReceived_def intro!: steps_bnd steps_new)
next
  case (Some p)
  then show ?thesis unfolding emitSystemEventReceived_def
    using steps_emitted [of SystemEventReceivedType "React (r_plugins R)"] steps_React by (simp add: system_types_def)
qed

lemma steps_callFunction: "steps rel (callFunction R sp i e)"
  unfolding callFunction_def emitSystemFunctionInvoking_def emitSystemFunctionInvoked_def
    emitSystemFunctionInvocationFailed_def
  by (auto intro!: steps_bnd steps_call steps_react_to steps_function_event
      split: option.split sum.split router_error.split simp: system_types_def)

lemma steps_processEvent: "steps rel (processEvent R b)"
  unfolding processEvent_def by (intro steps_bnd steps_callFunction steps_ret)

lemma steps_requestHandler: "steps rel (httpRequestHandler R sp i e w)"
  unfolding httpRequestHandler_def
  by (auto intro!: steps_bnd steps_callFunction split: sum.split option.split simp: Let_def)

lemma steps_handleSync: "steps rel (handleSyncSubscription R e s w r)"
proof -
  have m: "steps rel (modify (\<lambda>st. st\<lparr>rs_heap := f st\<rparr>))" for f
    by (simp add: steps_def modify_def rel_heap)
  show ?thesis
    unfolding handleSyncSubscription_def
    by (auto intro!: steps_bnd steps_authorize steps_requestHandler m
        split: option.split prod.split event_data.split)
qed

end

text \<open>When every event may be enqueued.\<close>

locale full_frame = system_frame +
  assumes all: "allowed e"
begin

lemma steps_event_handler: "steps rel (event_handler R path r w)"
proof -
  have f: "steps rel (event_from_request R r)"
    using rel_events rel_refl by (auto simp: steps_def event_from_request_def split: go.split prod.split)
  show ?thesis
    unfolding event_handler_def
    by (auto intro!: steps_bnd f steps_received steps_handleSync steps_handleAsync
        split: sum.split option.split simp: Let_def all)
qed

lemma steps_serve: "steps rel (serve_request R r)"
  unfolding serve_request_def
  by (auto intro!: steps_bnd steps_event_handler split: option.split prod.split simp: Let_def)

lemma ServeHTTP_rel: "rel st (snd (ServeHTTP R r st))"
  using steps_serve unfolding steps_def ServeHTTP_def
  by (auto split: prod.split result.split) (metis snd_conv)+

end

subsection \<open>What happens to the backlog\<close>

text \<open>
  The backlog only grows at its end, with events that satisfy \<open>P\<close>, and never beyond its
  length; whether the workers are started and whether the router drains is not changed.
\<close>

definition appends :: "router \<Rightarrow> (event \<Rightarrow> bool) \<Rightarrow> router_state \<Rightarrow> router_state \<Rightarrow> bool" where
  "appends R P st st' \<longleftrightarrow> rs_draining st' = rs_draining st \<and> rs_active st' = rs_active st \<and>
     (case rs_backlog st of
        None \<Rightarrow> rs_backlog st' = None
      | Some q \<Rightarrow> \<exists>xs. rs_backlog st' = Some (q @ xs) \<and> (\<forall>b \<in> set xs. P (be_event b)) \<and>
          (xs \<noteq> [] \<longrightarrow> length (q @ xs) \<le> r_backlogLength R))"

lemma appends_frame: "frame (appends R P)"
proof
  show "appends R P st st" for st by (simp add: appends_def split: option.split)
next
  fix a b c
  assume "appends R P a b" "appends R P b c"
  then show "appends R P a c"
    by (cases "rs_backlog a"; cases "rs_backlog b") (fastforce simp: appends_def)+
qed

lemma appends_router_frame:
  assumes "copies_types R"
  shows "router_frame (appends R P) R P"
proof (rule router_frame.intro [OF appends_frame], unfold_locales)
  fix st cs h n b
  show "appends R P st (st\<lparr>rs_calls := cs\<rparr>)" "appends R P st (st\<lparr>rs_heap := h\<rparr>)"
    "appends R P st (st\<lparr>rs_heap := h, rs_events := n\<rparr>)"
    by (auto simp: appends_def split: option.split)
  show "P (be_event b) \<Longrightarrow> steps (appends R P) (enqueueWork R b)"
    by (auto simp: steps_def enqueueWork_def modify_def appends_def split: option.split)
qed (rule assms)

text \<open>
  The third-party copier copies field by field, so that maps and pointers are shared with the
  copy: on events that hold addresses it is the identity.
\<close>

definition shallow :: "router \<Rightarrow> router" where
  "shallow R = R\<lparr>r_copy := (\<lambda>e h. (e, h))\<rparr>"

definition shallow_copier :: "router \<Rightarrow> bool" where
  "shallow_copier R \<longleftrightarrow> (\<forall>e h. r_copy R e h = (e, h))"

lemma shallow_id: "shallow_copier R \<Longrightarrow> shallow R = R"
  by (cases R) (auto simp: shallow_def shallow_copier_def fun_eq_iff)

lemma shallow_types: "copies_types (shallow R)"
  by (simp add: copies_types_def shallow_def)

lemma shallow_backlogLength [simp]: "r_backlogLength (shallow R) = r_backlogLength R"
  by (simp add: shallow_def)

interpretation backlog: frame "appends R P" for R P
  by (rule appends_frame)

interpretation system_only: system_frame "appends (shallow R) IsSystem" "shallow R" IsSystem for R
  by (intro system_frame.intro appends_router_frame shallow_types, unfold_locales) (rule system_types_system)

interpretation nothing: router_frame "appends (shallow R) (\<lambda>_. False)" "shallow R" "\<lambda>_. False" for R
  by (rule appends_router_frame [OF shallow_types])

interpretation anything: full_frame "appends (shallow R) (\<lambda>_. True)" "shallow R" "\<lambda>_. True" for R
  by (intro full_frame.intro system_frame.intro appends_router_frame shallow_types) (unfold_locales, simp_all)

lemma bnd_Value: "m st = (Value x, st') \<Longrightarrow> bnd m f st = f x st'"
  by (simp add: bnd_def)

lemma bnd_Panic: "m st = (Panic, st') \<Longrightarrow> bnd m f st = (Panic, st')"
  by (simp add: bnd_def)

lemma ret_bnd [simp]: "bnd (ret x) f = f x" "bnd panic g = panic" "bnd (gets h) f st = f (h st) st"
  by (auto simp: bnd_def ret_def panic_def gets_def)

lemma copy_shallow [simp]: "shallow_copier R \<Longrightarrow> copy_event R e st = (Value e, st)"
  by (simp add: copy_event_def shallow_copier_def)

end
