(* ===== verification/RouterProps.thy ===== *)
theory RouterProps
  imports RouterFacts "HOL-Library.Multiset"
begin

section \<open>Properties of the router\<close>

text \<open>
  What a request may do to the backlog, when a subscriber is not reached because an authorizer
  refused, which requests have no effect, and the places where sharing of maps, a missing
  request or a forged event type makes the router misbehave.
\<close>

subsection \<open>An example router\<close>

definition answer_world :: "string \<Rightarrow> world" where
  "answer_world b = \<lparr>ErrCodeServiceException = ''ServiceException'', Invoke = (\<lambda>_ _ _. (None, None)),
     Kinesis_PutRecord = (\<lambda>_ _ _ _. (None, None)), Firehose_PutRecord = (\<lambda>_ _ _. (None, None)),
     SQS_SendMessage = (\<lambda>_ _ _. (None, None)), uuid_NewV4 = ''id'',
     http_Post = (\<lambda>_ _ _ _. Inr \<lparr>StatusCode = 200, body_read = (b, None)\<rparr>)\<rparr>"

definition no_target :: target where
  "no_target = \<lparr>eventTypeCache = newEventTypeCache, functionCache = newFunctionCache,
     subscriptionCache = newSubscriptionCache, corsCache = newCORSCache\<rparr>"

definition ex_router :: "event_env \<Rightarrow> target \<Rightarrow> string \<Rightarrow> router" where
  "ex_router E tc b =
     \<lparr>r_env = E, r_paths = default_paths, r_target = tc, r_pick = (\<lambda>_. 0), r_order = id, r_plugins = [],
      r_workersNumber = 1, r_backlogLength = 2, r_world = (\<lambda>_. answer_world b), r_copy = (\<lambda>e h. (e, h)),
      r_now = (\<lambda>_. ''now''), r_uuid = (\<lambda>_. ''id''), r_cors = (\<lambda>_ _ w. (w, True)), r_Write_error = (\<lambda>_ _. None)\<rparr>"

lemma ex_shallow [simp]: "shallow_copier (ex_router E tc b)"
  by (simp add: shallow_copier_def ex_router_def)

lemma ex_router_simps [simp]:
  "r_env (ex_router E tc b) = E" "r_target (ex_router E tc b) = tc" "r_backlogLength (ex_router E tc b) = 2"
  "r_plugins (ex_router E tc b) = []" "r_paths (ex_router E tc b) = default_paths"
  "r_world (ex_router E tc b) = (\<lambda>_. answer_world b)"
  by (simp_all add: ex_router_def)

definition started :: router_state where
  "started = StartWorkers NewRouter"

lemma started_simps [simp]:
  "rs_dropped started = 0" "rs_backlog started = Some []" "rs_draining started = False" "rs_calls started = []" "rs_heap started = no_heap"
  "started\<lparr>rs_calls := []\<rparr> = started"
  by (simp_all add: started_def StartWorkers_def NewRouter_def)

subsection \<open>The backlog\<close>

text \<open>C9: The backlog is bounded and loses nothing: a request, and a worker that processes an event,
  only append to it and never beyond its length; a worker appends system events only, and none
  while it processes a system event. Whether they end in a panic makes no difference.\<close>

theorem backlog_bounded:
  assumes "shallow_copier R" and "rs_backlog st = Some q" and "length q \<le> r_backlogLength R"
  shows "(\<exists>xs. rs_backlog (snd (ServeHTTP R r st)) = Some (q @ xs) \<and> length (q @ xs) \<le> r_backlogLength R) \<and>
    (\<exists>xs. rs_backlog (snd (processEvent R b st)) = Some (q @ xs) \<and> length (q @ xs) \<le> r_backlogLength R \<and>
      (\<forall>x \<in> set xs. IsSystem (be_event x)) \<and> (IsSystem (be_event b) \<longrightarrow> xs = []))"
proof -
  have R: "shallow R = R" by (rule shallow_id [OF assms(1)])
  have "appends R (\<lambda>_. True) st (snd (ServeHTTP R r st))"
    using anything.ServeHTTP_rel [of R st r] by (simp add: R)
  moreover have "appends R IsSystem st (snd (processEvent R b st))"
    using system_only.steps_processEvent [of R b] by (simp add: R steps_def)
  moreover have "appends R (\<lambda>_. False) st (snd (processEvent R b st))" if "IsSystem (be_event b)"
    using backlog.steps_bnd [OF nothing.steps_callFunction_system [OF that, of R "be_space b" "be_functionID b"]
        backlog.steps_ret, of "\<lambda>_. ()"] by (simp add: R steps_def processEvent_def)
  ultimately show ?thesis
    using assms(2,3) unfolding appends_def by (auto split: if_splits)
qed

theorem backlog_bounded_witness:
  "\<exists>xs. rs_backlog (snd (ServeHTTP (ex_router (plain_event_env JNull) no_target ''x'') (ex_http [] ''x'') started)) =
     Some xs \<and> length xs \<le> 2"
  using backlog_bounded [of "ex_router (plain_event_env JNull) no_target ''x''" started "[]" "ex_http [] ''x''"] by auto

subsection \<open>Authorization\<close>

definition authorizer_payload :: "router \<Rightarrow> event \<Rightarrow> http_request \<Rightarrow> router_state \<Rightarrow> string" where
  "authorizer_payload R e r st = ee_text (r_env R)
     (authorizer_payload_json (r_env R) (rs_heap st) e (NewHTTPRequestData (r_env R) r PNil))"

text \<open>The authorizer \<open>a\<close> exists, answers, and its answer is well formed and has no error.\<close>

definition grants :: "router \<Rightarrow> string \<Rightarrow> string \<Rightarrow> event \<Rightarrow> http_request \<Rightarrow> router_state \<Rightarrow> bool" where
  "grants R space a e r st \<longleftrightarrow>
     (case target_Function (r_target R) space a of
        None \<Rightarrow> False
      | Some f \<Rightarrow>
          (case func_Call (r_world R (rs_calls st)) f (authorizer_payload R e r st) of
             CallReturns bytes None \<Rightarrow>
               (case read_authorizer_response (r_env R) bytes of Inr (_, None) \<Rightarrow> True | _ \<Rightarrow> False)
           | _ \<Rightarrow> False))"

text \<open>Without the authorizer's consent its call is the only thing that happens.\<close>

lemma authorize_refused:
  assumes "target_EventType (r_target R) space (ev_EventType e) = Some t" and "et_AuthorizerID t = Some a"
    and "\<not> grants R space a e r st"
  shows "\<exists>cs. (\<forall>c \<in> set cs. \<exists>f. target_Function (r_target R) space a = Some f \<and>
      c = FunctionCall f (authorizer_payload R e r st)) \<and> length cs \<le> 1 \<and>
    (authorizeEventType R space e (Some r) st = (Panic, st\<lparr>rs_calls := rs_calls st @ cs\<rparr>) \<or>
     (\<exists>err. authorizeEventType R space e (Some r) st = (Value (Some err, e), st\<lparr>rs_calls := rs_calls st @ cs\<rparr>)))"
proof (cases "target_Function (r_target R) space a")
  case None
  then show ?thesis
    using assms(1,2) by (intro exI [of _ "[]"])
      (simp add: authorizeEventType_def call_target_def bnd_def ret_def gets_def)
next
  case (Some f)
  then show ?thesis
    using assms by (intro exI [of _ "[FunctionCall f (authorizer_payload R e r st)]"])
      (auto simp: authorizeEventType_def call_target_def bnd_def ret_def gets_def grants_def authorizer_payload_def Let_def
        split: call_result.splits option.splits sum.splits prod.splits)
qed

text \<open>C3: Without authorization an event is not delivered: if the authorizer of the event type is
  missing, fails, panics, or does not give a well-formed answer without an error, then its own
  call is the only call that is made for the subscriber; a sync subscriber is not called and the
  client gets 403, and an async subscriber is passed over.\<close>

theorem unauthorized_event_not_delivered:
  assumes "target_EventType (r_target R) space (ev_EventType e) = Some t" and "et_AuthorizerID t = Some a"
    and "\<not> grants R space a e r st"
  shows "\<exists>cs. (\<forall>c \<in> set cs. \<exists>f. target_Function (r_target R) space a = Some f \<and>
      c = FunctionCall f (authorizer_payload R e r st)) \<and> length cs \<le> 1 \<and>
    (ss_Space sub = space \<longrightarrow> handleSyncSubscription R e sub w r st \<in>
      {(Panic, st\<lparr>rs_calls := rs_calls st @ cs\<rparr>), (Value (WriteHeader 403 w), st\<lparr>rs_calls := rs_calls st @ cs\<rparr>)}) \<and>
    (shallow_copier R \<longrightarrow> as_Space s = space \<longrightarrow> async_loop R me path e (Some r) (s # ss) st \<in>
      {(Panic, st\<lparr>rs_calls := rs_calls st @ cs\<rparr>), async_loop R me path e (Some r) ss (st\<lparr>rs_calls := rs_calls st @ cs\<rparr>)})"
  using authorize_refused [OF assms]
proof (elim exE conjE)
  fix cs
  assume cs: "\<forall>c \<in> set cs. \<exists>f. target_Function (r_target R) space a = Some f \<and>
      c = FunctionCall f (authorizer_payload R e r st)" "length cs \<le> 1"
    and o: "authorizeEventType R space e (Some r) st = (Panic, st\<lparr>rs_calls := rs_calls st @ cs\<rparr>) \<or>
     (\<exists>err. authorizeEventType R space e (Some r) st = (Value (Some err, e), st\<lparr>rs_calls := rs_calls st @ cs\<rparr>))"
  then show ?thesis
    by (intro exI [of _ cs])
      (auto simp: handleSyncSubscription_def bnd_Panic bnd_Value bnd_Value [OF copy_shallow] ret_def)
qed

definition ex_authorized_type :: event_type where
  "ex_authorized_type = \<lparr>et_Space = ''default'', et_Name = ''user.created'', et_AuthorizerID = Some ''auth'', et_Metadata = fmempty\<rparr>"

theorem unauthorized_event_not_delivered_witness:
  "handleSyncSubscription (ex_router (plain_event_env JNull) (no_target\<lparr>eventTypeCache :=
        [(''default'', ''user.created'') \<mapsto> ex_authorized_type]\<rparr>) ''x'') ex_event
      \<lparr>ss_Space = ''default'', ss_FunctionID = ''f'', ss_Params = None\<rparr> new_response (ex_http [] ''x'') started =
   (Value (WriteHeader 403 new_response), started)"
proof -
  let ?R = "ex_router (plain_event_env JNull) (no_target\<lparr>eventTypeCache :=
        [(''default'', ''user.created'') \<mapsto> ex_authorized_type]\<rparr>) ''x''"
  have f: "target_Function (r_target ?R) ''default'' ''auth'' = None"
    by (simp add: target_Function_def no_target_def newFunctionCache_def)
  then have g: "\<not> grants ?R ''default'' ''auth'' ex_event (ex_http [] ''x'') started"
    by (simp add: grants_def)
  have t: "target_EventType (r_target ?R) ''default'' (ev_EventType ex_event) = Some ex_authorized_type"
    by (simp add: target_EventType_def ex_event_def)
  have "fst (handleSyncSubscription ?R ex_event \<lparr>ss_Space = ''default'', ss_FunctionID = ''f'', ss_Params = None\<rparr>
      new_response (ex_http [] ''x'') started) \<noteq> Panic"
    using t f by (simp add: handleSyncSubscription_def authorizeEventType_def ex_authorized_type_def call_target_def
        bnd_def ret_def gets_def)
  moreover have "\<exists>cs. cs = [] \<and> handleSyncSubscription ?R ex_event
      \<lparr>ss_Space = ''default'', ss_FunctionID = ''f'', ss_Params = None\<rparr> new_response (ex_http [] ''x'') started \<in>
      {(Panic, started\<lparr>rs_calls := rs_calls started @ cs\<rparr>),
       (Value (WriteHeader 403 new_response), started\<lparr>rs_calls := rs_calls started @ cs\<rparr>)}"
    using unauthorized_event_not_delivered [OF t _ g,
        of "\<lparr>ss_Space = ''default'', ss_FunctionID = ''f'', ss_Params = None\<rparr>" new_response undefined "[]" "[]" "[]"] f
    by (fastforce simp: ex_authorized_type_def)
  ultimately show ?thesis by auto
qed

subsection \<open>Requests that become no event\<close>

definition request_event :: "router \<Rightarrow> http_request \<Rightarrow> router_state \<Rightarrow> (event \<times> heap) go" where
  "request_event R r st =
     FromRequest (r_env R) (r_now R (rs_events st)) (r_uuid R (rs_events st)) r (rs_heap st)"

definition request_path :: "router \<Rightarrow> http_request \<Rightarrow> string" where
  "request_path R r = pr_extractPath (r_paths R) (rq_Host r) (rq_EscapedPath r)"

definition no_cors :: "router \<Rightarrow> http_request \<Rightarrow> bool" where
  "no_cors R r \<longleftrightarrow> target_CORS (r_pick R) (corsCache (r_target R)) (requested_method r) (request_path R r) = None"

lemma serve_without_cors:
  assumes "no_cors R r" and "\<not> rs_draining st"
  shows "serve_request R r st = event_handler R (request_path R r) r new_response st"
  using assms by (simp add: serve_request_def no_cors_def request_path_def isDraining_def Let_def)

lemma event_from_request_cases:
  "event_from_request R r st =
     (case request_event R r st of
        Panics \<Rightarrow> (Panic, st)
      | Fails m \<Rightarrow> (Value (Inl m), st)
      | Returns (e, h) \<Rightarrow> (Value (Inr e), st\<lparr>rs_heap := h, rs_events := Suc (rs_events st)\<rparr>))"
  by (simp add: event_from_request_def request_event_def)

text \<open>A refused request has no effect: while the router drains (503), or when the request is not a
  CloudEvent or claims to be a system event (400), nothing is called, queued, dropped or told to
  a plugin.\<close>

theorem refused_requests_have_no_effect:
  assumes "rs_draining st \<or> no_cors R r \<and>
     ((\<exists>m. request_event R r st = Fails m) \<or> (\<exists>e h. request_event R r st = Returns (e, h) \<and> IsSystem e))"
  shows "\<exists>w st'. ServeHTTP R r st = (Responds w, st') \<and> status w = (if rs_draining st then 503 else 400) \<and>
    rs_calls st' = rs_calls st \<and> rs_backlog st' = rs_backlog st \<and> rs_dropped st' = rs_dropped st"
proof (cases "rs_draining st")
  case True
  then show ?thesis
    by (simp add: ServeHTTP_def serve_request_def isDraining_def ret_def error_answer_def status_def new_response_def)
next
  case False
  with assms have c: "no_cors R r" and e: "(\<exists>m. request_event R r st = Fails m) \<or>
    (\<exists>e h. request_event R r st = Returns (e, h) \<and> IsSystem e)" by auto
  show ?thesis
    using e False
    by (auto simp: ServeHTTP_def serve_without_cors [OF c False] event_handler_def bnd_def event_from_request_cases
        ret_def error_answer_def status_def new_response_def)
qed

theorem refused_requests_have_no_effect_witness:
  "\<exists>w st'. ServeHTTP (ex_router (plain_event_env JNull) no_target ''x'')
      (ex_http [(''Event'', ''eventgateway.function.invoked'', [])] ''x'') started = (Responds w, st') \<and>
    status w = 400 \<and> rs_calls st' = []"
proof -
  let ?R = "ex_router (plain_event_env JNull) no_target ''x''"
  let ?r = "ex_http [(''Event'', ''eventgateway.function.invoked'', [])] ''x''"
  have c: "no_cors ?R ?r"
    by (simp add: no_cors_def target_CORS_def no_target_def newCORSCache_def)
  obtain e h where f: "New (plain_event_env JNull) ''now'' ''id'' ''eventgateway.function.invoked''
      ''application/octet-stream'' (Plain (PBytes ''x'')) no_heap = (e, h)" by fastforce
  then have "IsSystem e" by (auto simp: New_def new_map_def IsSystem_def has_prefix_def)
  moreover have "request_event ?R ?r started = Returns (e, h)"
    using f by (simp add: request_event_def FromRequest_def ex_http_def Header_Get_def canonical_keys media_types
        mimeCloudEventsJSON_def mimeJSON_def isCloudEventsBinaryContentMode_def isLegacyMode_def Let_def ex_router_def)
  ultimately show ?thesis
    using refused_requests_have_no_effect [of started ?R ?r] c by auto
qed

subsection \<open>Delivery\<close>

definition unguarded :: "router \<Rightarrow> event \<Rightarrow> string \<Rightarrow> bool" where
  "unguarded R e space =
     (case target_EventType (r_target R) space (ev_EventType e) of None \<Rightarrow> True | Some t \<Rightarrow> et_AuthorizerID t = None)"

lemma authorize_unguarded: "unguarded R e space \<Longrightarrow> authorizeEventType R space e r st = (Value (None, e), st)"
  by (auto simp: unguarded_def authorizeEventType_def ret_def split: option.splits)

definition work_for :: "string \<Rightarrow> string \<Rightarrow> event \<Rightarrow> async_subscriber \<Rightarrow> backlog_event" where
  "work_for me path e s =
     \<lparr>be_space = as_Space s, be_functionID = as_FunctionID s, be_method = me, be_path = path, be_event = e\<rparr>"

lemma async_loop_unguarded:
  assumes "shallow_copier R" and "\<forall>s \<in> set ss. unguarded R e (as_Space s)" and "rs_backlog st = Some q"
    and "length q \<le> r_backlogLength R"
  shows "async_loop R me path e r ss st = (Value (), st\<lparr>
      rs_backlog := Some (q @ take (r_backlogLength R - length q) (map (work_for me path e) ss)),
      rs_dropped := rs_dropped st + (length ss - (r_backlogLength R - length q))\<rparr>)"
  using assms(2-)
proof (induction ss arbitrary: st q)
  case Nil
  then show ?case by (simp add: ret_def)
next
  case (Cons s ss)
  have a: "authorizeEventType R (as_Space s) e r st = (Value (None, e), st)" for st
    using Cons.prems(1) by (simp add: authorize_unguarded)
  let ?st' = "if length q < r_backlogLength R then st\<lparr>rs_backlog := Some (q @ [work_for me path e s])\<rparr>
    else st\<lparr>rs_dropped := Suc (rs_dropped st)\<rparr>"
  have "async_loop R me path e r (s # ss) st = async_loop R me path e r ss ?st'"
    using Cons.prems(2) by (simp add: bnd_Value [OF copy_shallow [OF assms(1)]] bnd_Value [OF a])
      (simp add: bnd_def enqueueWork_def modify_def work_for_def)
  also have "\<dots> = (Value (), st\<lparr>
      rs_backlog := Some (q @ take (r_backlogLength R - length q) (map (work_for me path e) (s # ss))),
      rs_dropped := rs_dropped st + (length (s # ss) - (r_backlogLength R - length q))\<rparr>)"
  proof (cases "length q < r_backlogLength R")
    case True
    then obtain n where "r_backlogLength R - length q = Suc n" by (metis Suc_diff_Suc)
    moreover from this have "r_backlogLength R - Suc (length q) = n" by simp
    ultimately show ?thesis
      using True Cons.prems Cons.IH [of ?st' "q @ [work_for me path e s]"] by simp
  next
    case False
    then show ?thesis
      using Cons.prems Cons.IH [of ?st' q] by simp
  qed
  finally show ?case .
qed

text \<open>Nothing is told about a received event: there are no plugins and no subscribers for it.\<close>

definition quiet :: "router \<Rightarrow> http_request \<Rightarrow> bool" where
  "quiet R r \<longleftrightarrow> r_plugins R = [] \<and>
     (case pr_systemPathFromURL (r_paths R) (rq_Host r) (request_path R r) of
        None \<Rightarrow> False
      | Some p \<Rightarrow> AsyncSubscribers (subscriptionCache (r_target R)) ''POST'' p SystemEventReceivedType = [])"

lemma quiet_received:
  assumes "quiet R r"
  shows "\<exists>h. emitSystemEventReceived R (request_path R r) e r st =
    (Value None, st\<lparr>rs_heap := h, rs_events := Suc (rs_events st)\<rparr>)"
proof -
  obtain e1 h1 where n: "New (r_env R) (r_now R (rs_events st)) (r_uuid R (rs_events st)) SystemEventReceivedType mimeJSON
      (SystemEventReceivedData (request_path R r) e (FlattenHeader (rq_Header r))) (rs_heap st) = (e1, h1)" by fastforce
  then have "ev_EventType e1 = SystemEventReceivedType" by (auto simp: New_def new_map_def)
  then show ?thesis
    using n assms by (auto simp: quiet_def emitSystemEventReceived_def new_event_def bnd_def handleAsyncSubscriptions_def ret_def
        split: option.splits)
qed

text \<open>C25: Async delivery: for a custom event without a sync subscriber, of event types without authorizers, while
  nobody listens to system events and no CORS configuration applies, the client gets 202, and the
  backlog gets the event once for every async subscriber, in their order, as far as it has room;
  the rest are dropped and counted. No function is called. (Authorizers and subscribers of
  system events have properties of their own below.)\<close>

theorem async_delivery:
  assumes "shallow_copier R" and "no_cors R r" and "\<not> rs_draining st" and "quiet R r"
    and "request_event R r st = Returns (e, h)" and "\<not> IsSystem e"
    and "SyncSubscriber (r_pick R) (subscriptionCache (r_target R)) (rq_Method r) (request_path R r) (ev_EventType e) = None"
    and "AsyncSubscribers (subscriptionCache (r_target R)) (rq_Method r) (request_path R r) (ev_EventType e) = ss"
    and "\<forall>s \<in> set ss. unguarded R e (as_Space s)" and "rs_backlog st = Some q" and "length q \<le> r_backlogLength R"
  shows "\<exists>st'. ServeHTTP R r st = (Responds (WriteHeader 202 new_response), st') \<and>
    rs_backlog st' = Some (q @ take (r_backlogLength R - length q) (map (work_for (rq_Method r) (request_path R r) e) ss)) \<and>
    rs_dropped st' = rs_dropped st + (length ss - (r_backlogLength R - length q)) \<and> rs_calls st' = rs_calls st"
proof -
  let ?st1 = "st\<lparr>rs_heap := h, rs_events := Suc (rs_events st)\<rparr>"
  have f: "event_from_request R r st = (Value (Inr e), ?st1)"
    by (simp add: event_from_request_cases assms(5))
  obtain h1 where s: "emitSystemEventReceived R (request_path R r) e r ?st1 =
      (Value None, ?st1\<lparr>rs_heap := h1, rs_events := Suc (rs_events ?st1)\<rparr>)"
    using quiet_received [OF assms(4)] by blast
  let ?st2 = "?st1\<lparr>rs_heap := h1, rs_events := Suc (rs_events ?st1)\<rparr>"
  have "serve_request R r st = (Value (WriteHeader 202 new_response), ?st2\<lparr>
      rs_backlog := Some (q @ take (r_backlogLength R - length q) (map (work_for (rq_Method r) (request_path R r) e) ss)),
      rs_dropped := rs_dropped st + (length ss - (r_backlogLength R - length q))\<rparr>)"
    using async_loop_unguarded [OF assms(1,9), of ?st2 q "rq_Method r" "request_path R r" "Some r"] assms(6-11)
    by (simp add: serve_without_cors [OF assms(2,3)] event_handler_def bnd_Value [of "event_from_request R r", OF f]
        bnd_Value [of "emitSystemEventReceived R (request_path R r) e r", OF s]
        handleAsyncSubscriptions_def bnd_Value) (simp add: ret_def)
  then show ?thesis
    by (simp add: ServeHTTP_def)
qed

text \<open>Async subscribers of one event type at the root path.\<close>

definition subscribed :: "string \<Rightarrow> fkey list \<Rightarrow> target" where
  "subscribed et ids = no_target\<lparr>subscriptionCache := set_async ''POST'' ''/'' et (Some ids) newSubscriptionCache\<rparr>"

lemma subscribed_simps [simp]:
  "AsyncSubscribers (subscriptionCache (subscribed et ids)) me p t =
     (if me = ''POST'' \<and> p = ''/'' \<and> t = et then map (\<lambda>(sp, i). \<lparr>as_Space = sp, as_FunctionID = i\<rparr>) ids else [])"
  "SyncSubscriber pick (subscriptionCache (subscribed et ids)) me p t = None"
  "corsCache (subscribed et ids) = newCORSCache" "target_EventType (subscribed et ids) sp n = None"
  "target_Function (subscribed et ids) sp i = None"
  by (auto simp: subscribed_def set_async_def newSubscriptionCache_def AsyncSubscribers_def SyncSubscriber_def inner_def
      no_target_def target_EventType_def target_Function_def newEventTypeCache_def newFunctionCache_def split: option.splits)

lemma ex_request_simps [simp]:
  "rq_Method (ex_http hs b) = ''POST''" "request_path (ex_router E tc b) (ex_http hs b') = ''/''"
  "pr_systemPathFromURL default_paths host p = Some ''/''" "pr_systemPathFromSpace default_paths sp = ''/''"
  by (simp_all add: ex_http_def request_path_def default_paths_def basePath_def)

lemma ex_no_cors: "corsCache tc = newCORSCache \<Longrightarrow> no_cors (ex_router E tc b) r"
  by (simp add: no_cors_def target_CORS_def newCORSCache_def)

lemma ex_request_event:
  "\<exists>e h. request_event (ex_router (plain_event_env j) tc b) (ex_http [(''Event'', t, [])] b') started = Returns (e, h) \<and>
    ev_EventType e = t"
  if "t \<noteq> []"
proof -
  obtain e h where f: "New (plain_event_env j) ''now'' ''id'' t ''application/octet-stream'' (Plain (PBytes b')) no_heap = (e, h)"
    by fastforce
  then have "ev_EventType e = t" by (auto simp: New_def new_map_def)
  moreover have "request_event (ex_router (plain_event_env j) tc b) (ex_http [(''Event'', t, [])] b') started = Returns (e, h)"
    using f that by (simp add: request_event_def FromRequest_def ex_http_def Header_Get_def canonical_keys media_types
        mimeCloudEventsJSON_def mimeJSON_def isCloudEventsBinaryContentMode_def isLegacyMode_def Let_def ex_router_def)
  ultimately show ?thesis by blast
qed

theorem async_delivery_witness:
  "\<exists>e st'. ServeHTTP (ex_router (plain_event_env JNull) (subscribed ''user.created'' [(''a'', ''f''), (''b'', ''g''), (''c'', ''h'')]) ''x'')
      (ex_http [(''Event'', ''user.created'', [])] ''x'') started = (Responds (WriteHeader 202 new_response), st') \<and>
    rs_backlog st' = Some [\<lparr>be_space = ''a'', be_functionID = ''f'', be_method = ''POST'', be_path = ''/'', be_event = e\<rparr>,
      \<lparr>be_space = ''b'', be_functionID = ''g'', be_method = ''POST'', be_path = ''/'', be_event = e\<rparr>] \<and> rs_dropped st' = 1"
proof -
  let ?R = "ex_router (plain_event_env JNull) (subscribed ''user.created'' [(''a'', ''f''), (''b'', ''g''), (''c'', ''h'')]) ''x''"
  let ?r = "ex_http [(''Event'', ''user.created'', [])] ''x''"
  obtain e h where e: "request_event ?R ?r started = Returns (e, h)" "ev_EventType e = ''user.created''"
    using ex_request_event by blast
  show ?thesis
    using async_delivery [OF ex_shallow ex_no_cors _ _ e(1) _ _ refl, where q = "[]"] e(2)
    by (simp add: quiet_def IsSystem_def has_prefix_def unguarded_def SystemEventReceivedType_def)
      (simp add: work_for_def numeral_2_eq_2, blast)
qed

lemma rw_Header_Set: "rw_Header (Header_Set k v w) = AList.update (CanonicalHeaderKey k) v (rw_Header w)"
  by (simp add: Header_Set_def)

lemma fold_Header_Set:
  assumes "inj_on CanonicalHeaderKey (fst ` set xs)" and "distinct (map fst xs)" and "(k, v) \<in> set xs"
  shows "map_of (rw_Header (fold (\<lambda>(k, v). Header_Set k v) xs w)) (CanonicalHeaderKey k) = Some v"
  using assms
proof (induction xs arbitrary: w rule: rev_induct)
  case (snoc x xs)
  obtain k' v' where x: "x = (k', v')" by fastforce
  show ?case
  proof (cases "k = k'")
    case True
    moreover have "v = v'"
      using snoc.prems x True by (auto simp: rev_image_eqI)
    ultimately show ?thesis by (simp add: x rw_Header_Set update_conv')
  next
    case False
    then have kv: "(k, v) \<in> set xs" using snoc.prems(3) x by simp
    then have "CanonicalHeaderKey k' \<noteq> CanonicalHeaderKey k"
      using snoc.prems(1) False x by (force simp: inj_on_def)
    moreover have "map_of (rw_Header (fold (\<lambda>(k, v). Header_Set k v) xs w)) (CanonicalHeaderKey k) = Some v"
      using snoc.prems kv by (intro snoc.IH) (auto intro: inj_on_subset)
    ultimately show ?thesis by (simp add: x rw_Header_Set update_conv')
  qed
qed simp

lemma fold_Header_Set_sent [simp]:
  "rw_Sent (fold (\<lambda>(k, v). Header_Set k v) xs w) = rw_Sent w" "rw_Body (fold (\<lambda>(k, v). Header_Set k v) xs w) = rw_Body w"
  by (induction xs arbitrary: w) (auto simp: Header_Set_def)

lemma error_answer_fresh:
  "rw_Sent w = None \<Longrightarrow> status (error_answer 500 m w) = 500 \<and> rw_Body (error_answer 500 m w) = rw_Body w @ [Doc (errors_json [m])]"
  by (simp add: error_answer_def status_def Encode_def Write_def WriteHeader_def Header_Set_def has_no_body_def)

text \<open>What \<^verbatim>\<open>httpRequestHandler\<close> writes when nothing goes wrong with the connection.\<close>

lemma httpRequestHandler_writes:
  assumes "callFunction R sp i e st = (Value resp, st')" and "\<forall>w b. r_Write_error R w b = None"
  shows "httpRequestHandler R sp i e w st = (case resp of
        Inl err \<Rightarrow> (Value (error_answer 500 (determineErrorMessage err) w), st')
      | Inr bytes \<Rightarrow> (case read_HTTPResponse (r_env R) bytes of
          Inl _ \<Rightarrow> (Value (error_answer 500 ''HTTP response object malformed'' w), st')
        | Inr hr \<Rightarrow> (let w2 = WriteHeader (hr_StatusCode hr)
              (fold (\<lambda>(k, v). Header_Set k v) (r_order R (sorted_list_of_fmap (hr_Headers hr))) w) in
            (Value (if has_no_body (status w2)
               then error_answer 500 ''http: request method or response status code does not allow body'' w2
               else Write (Raw (hr_Body hr)) w2), st'))))"
  by (simp add: httpRequestHandler_def write_response_def bnd_Value [of "callFunction R sp i e", OF assms(1)] ret_def
      assms(2) Let_def split: sum.split)

text \<open>C26: A sync subscriber answers the client: the status, the headers and the body of the HTTP response
  object it returns are what the client gets (no body with a status that allows none); without
  such an object, or without a successful call, the client gets 500 and a message.\<close>

theorem sync_subscriber_answers:
  assumes "rw_Sent w = None" and "callFunction R sp i e st = (Value resp, st')"
    and "\<forall>w b. r_Write_error R w b = None" and "\<forall>xs. mset (r_order R xs) = mset xs"
  shows "\<exists>w'. httpRequestHandler R sp i e w st = (Value w', st') \<and>
    (case map_sum id (read_HTTPResponse (r_env R)) resp of
       Inl err \<Rightarrow> status w' = 500 \<and> rw_Body w' = rw_Body w @ [Doc (errors_json [determineErrorMessage err])]
     | Inr (Inl _) \<Rightarrow> status w' = 500 \<and> rw_Body w' = rw_Body w @ [Doc (errors_json [''HTTP response object malformed''])]
     | Inr (Inr hr) \<Rightarrow> status w' = hr_StatusCode hr \<and>
         rw_Body w' = rw_Body w @ (if has_no_body (hr_StatusCode hr) then [] else [Raw (hr_Body hr)]) \<and>
         (inj_on CanonicalHeaderKey (fset (fmdom (hr_Headers hr))) \<longrightarrow>
            (\<forall>k v. fmlookup (hr_Headers hr) k = Some v \<longrightarrow> map_of (sent_headers w') (CanonicalHeaderKey k) = Some v)))"
proof -
  note h = httpRequestHandler_writes [OF assms(2,3)]
  show ?thesis
  proof (cases resp)
    case (Inl err)
    then show ?thesis using h assms(1) by (simp add: error_answer_fresh)
  next
    case (Inr bytes)
    show ?thesis
    proof (cases "read_HTTPResponse (r_env R) bytes")
      case (Inl m)
      then show ?thesis using h Inr assms(1) by (simp add: error_answer_fresh)
    next
      case (Inr hr)
      let ?xs = "r_order R (sorted_list_of_fmap (hr_Headers hr))"
      let ?w1 = "fold (\<lambda>(k, v). Header_Set k v) ?xs w"
      have m: "mset ?xs = mset (sorted_list_of_fmap (hr_Headers hr))" using assms(4) by simp
      have d: "distinct (map fst ?xs)"
        using sorted_keys_distinct [of "hr_Headers hr"] mset_map [of fst] m by (metis mset_eq_imp_distinct_iff)
      have s: "set ?xs = set (sorted_list_of_fmap (hr_Headers hr))" using m by (rule mset_eq_setD)
      have "map_of (rw_Header ?w1) (CanonicalHeaderKey k) = Some v"
        if "inj_on CanonicalHeaderKey (fset (fmdom (hr_Headers hr)))" "fmlookup (hr_Headers hr) k = Some v" for k v
      proof (rule fold_Header_Set [OF _ d])
        have "(k, v) \<in> set (sorted_list_of_fmap (hr_Headers hr))"
          using that(2) by (metis map_of_SomeD map_of_sorted_list)
        then show "(k, v) \<in> set ?xs" by (simp add: s)
        have "fst ` set ?xs \<subseteq> fset (fmdom (hr_Headers hr))"
          unfolding s by (auto simp: sorted_list_of_fmap_def)
        then show "inj_on CanonicalHeaderKey (fst ` set ?xs)"
          using that(1) by (rule inj_on_subset [rotated])
      qed
      then show ?thesis
        using h Inr \<open>resp = Inr bytes\<close> assms(1)
        by (auto simp: Let_def status_def sent_headers_def error_answer_def Encode_def Write_def WriteHeader_def Header_Set_def)
    qed
  qed
qed

subsection \<open>Calling a function\<close>

definition function_events_unheard :: "router \<Rightarrow> string \<Rightarrow> bool" where
  "function_events_unheard R space \<longleftrightarrow>
     (\<forall>t \<in> {SystemFunctionInvokingType, SystemFunctionInvokedType, SystemFunctionInvocationFailedType}.
        AsyncSubscribers (subscriptionCache (r_target R)) ''POST'' (pr_systemPathFromSpace (r_paths R) space) t = [])"

lemma emit_unheard:
  assumes "function_events_unheard R space"
    and "t \<in> {SystemFunctionInvokingType, SystemFunctionInvokedType, SystemFunctionInvocationFailedType}"
    and "\<forall>p. d \<noteq> Plain p"
  shows "\<exists>ev h. emit_function_event R space t d st = (Value ev, st\<lparr>rs_heap := h, rs_events := Suc (rs_events st)\<rparr>) \<and>
    ev_EventType ev = t \<and> ev_Data ev = d"
proof -
  obtain ev h where n: "New (r_env R) (r_now R (rs_events st)) (r_uuid R (rs_events st)) t mimeJSON d (rs_heap st) = (ev, h)"
    by fastforce
  then have "ev_EventType ev = t" "ev_Data ev = d"
    using assms(3) by (auto simp: New_def new_map_def normalize_data_def split: event_data.split)
  then show ?thesis
    using n assms(1,2) by (auto simp: emit_function_event_def new_event_def bnd_def handleAsyncSubscriptions_def ret_def
        function_events_unheard_def)
qed

lemma plugin_loop_Value: "\<exists>r st'. plugin_loop p e subs st = (Value r, st')"
  by (induction subs arbitrary: st) (auto simp: ret_def Let_def split: option.split)

lemma React_Value: "\<exists>r st'. React ps e st = (Value r, st')"
proof (induction ps arbitrary: st)
  case (Cons p ps)
  then show ?case
    using plugin_loop_Value [of p e "pl_Subscriptions p st" st] by (auto simp: bnd_def gets_def ret_def split: option.split)
qed (simp add: ret_def)

text \<open>A successful call when nobody hears of its beginning.\<close>

lemma callFunction_success:
  assumes "function_events_unheard R space" and "\<not> IsSystem e"
    and quiet: "\<And>ev st. ev_EventType ev = SystemFunctionInvokingType \<Longrightarrow> React (r_plugins R) ev st = (Value None, st)"
    and "target_Function (r_target R) space i = Some f"
    and "payload = ee_text (r_env R) (event_json (r_env R) (rs_heap (snd (emitSystemFunctionInvoking R space i e st))) e)"
    and "func_Call (r_world R (rs_calls st)) f payload = CallReturns result None"
  shows "\<exists>ev st'. callFunction R space i e st = (Value (Inr result), snd (React (r_plugins R) ev st')) \<and>
    rs_calls st' = rs_calls st @ [FunctionCall f payload] \<and>
    ev_EventType ev = SystemFunctionInvokedType \<and> ev_Data ev = SystemFunctionInvokedData space i e payload"
proof -
  obtain ev h where e1: "emit_function_event R space SystemFunctionInvokingType (SystemFunctionInvokingData space i e) st =
      (Value ev, st\<lparr>rs_heap := h, rs_events := Suc (rs_events st)\<rparr>)" "ev_EventType ev = SystemFunctionInvokingType"
    using emit_unheard [OF assms(1)] by blast
  let ?st1 = "st\<lparr>rs_heap := h, rs_events := Suc (rs_events st)\<rparr>"
  have i: "emitSystemFunctionInvoking R space i e st = (Value None, ?st1)"
    using e1 quiet [OF e1(2)] assms(2) by (simp add: emitSystemFunctionInvoking_def bnd_def)
  let ?st2 = "?st1\<lparr>rs_calls := rs_calls st @ [FunctionCall f payload]\<rparr>"
  have c: "call_target R space i payload ?st1 = (Value (Inr result), ?st2)"
    using assms(4,6) by (simp add: call_target_def Let_def)
  obtain ev2 h2 where e2: "emit_function_event R space SystemFunctionInvokedType (SystemFunctionInvokedData space i e payload) ?st2 =
      (Value ev2, ?st2\<lparr>rs_heap := h2, rs_events := Suc (rs_events ?st2)\<rparr>)" "ev_EventType ev2 = SystemFunctionInvokedType"
    "ev_Data ev2 = SystemFunctionInvokedData space i e payload"
    using emit_unheard [OF assms(1)] by (metis event_data.distinct(7) insertCI)
  let ?st3 = "?st2\<lparr>rs_heap := h2, rs_events := Suc (rs_events ?st2)\<rparr>"
  obtain r st' where r: "React (r_plugins R) ev2 ?st3 = (Value r, st')" using React_Value by blast
  then have inv: "emitSystemFunctionInvoked R space i e payload ?st2 = (Value r, st')"
    using e2 assms(2) by (simp add: emitSystemFunctionInvoked_def bnd_def)
  have pay: "payload = ee_text (r_env R) (event_json (r_env R) h e)"
    using assms(5) i by simp
  have "callFunction R space i e st = (Value (Inr result), st')"
    using assms(4) pay [symmetric] c inv
    by (simp add: callFunction_def bnd_Value [of "emitSystemFunctionInvoking R space i e", OF i] bnd_def [of "call_target R space i payload"]
        bnd_def [of "emitSystemFunctionInvoked R space i e payload"] ret_def)
  then show ?thesis using r e2(2,3) by (intro exI [of _ ev2] exI [of _ ?st3]) simp
qed

text \<open>C38: Calling a function makes one call, with the JSON form of the event, and then tells the plugin
  that subscribes to invoked functions; the caller gets what the function returned. But the
  plugin gets the payload of the call where the documentation promises that result:
  \<^verbatim>\<open>callFunction\<close> passes \<^verbatim>\<open>payload\<close> on.\<close>

theorem invoked_event_reports_payload:
  assumes "function_events_unheard R space" and "\<not> IsSystem e"
    and "r_plugins R = [p]" and "pl_Subscriptions p = (\<lambda>_. [(SystemFunctionInvokedType, ty)])"
    and "target_Function (r_target R) space i = Some f"
    and "payload = ee_text (r_env R) (event_json (r_env R) (rs_heap (snd (emitSystemFunctionInvoking R space i e st))) e)"
    and "func_Call (r_world R (rs_calls st)) f payload = CallReturns result None"
  shows "\<exists>ev st'. callFunction R space i e st = (Value (Inr result), st') \<and>
    rs_calls st' = rs_calls st @ [FunctionCall f payload, PluginCall (pl_Path p) ev] \<and>
    ev_EventType ev = SystemFunctionInvokedType \<and> ev_Data ev = SystemFunctionInvokedData space i e payload"
proof -
  have "SystemFunctionInvokedType \<noteq> SystemFunctionInvokingType"
    by (simp add: SystemFunctionInvokedType_def SystemFunctionInvokingType_def)
  then obtain ev st' where c: "callFunction R space i e st = (Value (Inr result), snd (React (r_plugins R) ev st'))"
    "rs_calls st' = rs_calls st @ [FunctionCall f payload]" "ev_EventType ev = SystemFunctionInvokedType"
    "ev_Data ev = SystemFunctionInvokedData space i e payload"
    using callFunction_success [OF assms(1,2) _ assms(5-7)] assms(3,4) by (fastforce simp: bnd_def gets_def ret_def)
  moreover have "rs_calls (snd (React (r_plugins R) ev st')) = rs_calls st' @ [PluginCall (pl_Path p) ev]"
    using c(3) assms(3,4) by (simp add: bnd_def gets_def ret_def Let_def split: option.split)
  ultimately show ?thesis by auto
qed

definition ex_func :: func where
  "ex_func = \<lparr>fn_Space = ''default'', fn_ID = ''f'', fn_ProviderType = ''http'', fn_Provider = Some (HTTP ''http://f''),
     fn_Metadata = fmempty\<rparr>"

definition ex_plugin :: plugin where
  "ex_plugin = \<lparr>pl_Path = ''p'', pl_Subscriptions = (\<lambda>_. [(SystemFunctionInvokedType, AsyncPlugin)]), pl_React = (\<lambda>_ _. None)\<rparr>"

definition with_function :: "target \<Rightarrow> target" where
  "with_function tc = tc\<lparr>functionCache := [(''default'', ''f'') \<mapsto> ex_func]\<rparr>"

lemma with_function_simps [simp]:
  "target_Function (with_function tc) ''default'' ''f'' = Some ex_func"
  "subscriptionCache (with_function tc) = subscriptionCache tc" "eventTypeCache (with_function tc) = eventTypeCache tc"
  "AsyncSubscribers (subscriptionCache no_target) me p t = []"
  by (simp_all add: with_function_def target_Function_def no_target_def newSubscriptionCache_def AsyncSubscribers_def inner_def)

lemma ex_func_Call [simp]: "func_Call (answer_world b) ex_func payload = CallReturns b None"
  by (simp add: func_Call_def ex_func_def provider_Call_def answer_world_def Call_http_def)

theorem invoked_event_reports_payload_witness:
  "\<exists>ev. PluginCall ''p'' ev \<in> set (rs_calls (snd (callFunction
      ((ex_router (plain_event_env JNull) (with_function no_target) ''answer'')\<lparr>r_plugins := [ex_plugin]\<rparr>)
      ''default'' ''f'' ex_event started))) \<and>
    ev_Data ev = SystemFunctionInvokedData ''default'' ''f'' ex_event ''{...}''"
proof -
  let ?R = "(ex_router (plain_event_env JNull) (with_function no_target) ''answer'')\<lparr>r_plugins := [ex_plugin]\<rparr>"
  have u: "function_events_unheard ?R ''default''" by (simp add: function_events_unheard_def)
  have s: "\<not> IsSystem ex_event" by (simp add: IsSystem_def ex_event_def has_prefix_def)
  have t: "ee_text (plain_event_env JNull) j = ''{...}''" for j by (simp add: plain_event_env_def)
  show ?thesis
    using invoked_event_reports_payload [OF u s, of ex_plugin AsyncPlugin "''f''" ex_func _ started "''answer''"]
    by (force simp: ex_plugin_def t)
qed

theorem sync_subscriber_answers_witness:
  "\<exists>w' st'. httpRequestHandler (ex_router (plain_event_env (JObj [(''statusCode'', JNum ''201''), (''body'', JStr ''made'')]))
      (with_function no_target) ''{...}'') ''default'' ''f'' ex_event new_response started = (Value w', st') \<and>
    status w' = 201 \<and> rw_Body w' = [Raw ''made'']"
proof -
  let ?R = "ex_router (plain_event_env (JObj [(''statusCode'', JNum ''201''), (''body'', JStr ''made'')]))
      (with_function no_target) ''{...}''"
  have u: "function_events_unheard ?R ''default''" by (simp add: function_events_unheard_def)
  have s: "\<not> IsSystem ex_event" by (simp add: IsSystem_def ex_event_def has_prefix_def)
  obtain st' where c: "callFunction ?R ''default'' ''f'' ex_event started = (Value (Inr ''{...}''), st')"
    using callFunction_success [OF u s, of "''f''" ex_func _ started "''{...}''"] by (auto simp: ex_router_def ret_def)
  have r: "read_HTTPResponse (r_env ?R) ''{...}'' = Inr \<lparr>hr_StatusCode = 201, hr_Headers = fmempty, hr_Body = ''made''\<rparr>"
    by (simp add: plain_event_env_def read_HTTPResponse_def json_members_def) code_simp
  show ?thesis
    using sync_subscriber_answers [OF _ c, of new_response] r
    by (simp add: has_no_body_def) (auto simp: ex_router_def)
qed

end
