(* ===== verification/EndToEnd.thy ===== *)
theory EndToEnd
  imports CacheProps APIProps RouterProps
begin

section \<open>From the configuration API to a function call\<close>

text \<open>
  The composition of the two APIs: what the configuration API has stored reaches the caches
  through the watchers, and the router answers events from there. A snapshot is what a watch
  delivers first: every key of the directory with its value, in any order.
\<close>

definition snapshot :: "string \<Rightarrow> (string \<rightharpoonup> blob) \<Rightarrow> watch_pair list \<Rightarrow> bool" where
  "snapshot d m ps \<longleftrightarrow> distinct (map wp_Key ps) \<and>
     (\<lambda>p. (wp_Key p, wp_Value p)) ` set ps = {(d @ k, Some v) | k v. m k = Some v}"

lemma snapshotD:
  "snapshot d m ps \<Longrightarrow> p \<in> set ps \<Longrightarrow> \<exists>k v. wp_Key p = d @ k \<and> wp_Value p = Some v \<and> m k = Some v"
proof -
  assume "snapshot d m ps" "p \<in> set ps"
  then have "(wp_Key p, wp_Value p) \<in> {(d @ k, Some v) | k v. m k = Some v}" unfolding snapshot_def by blast
  then show ?thesis by auto
qed

lemma snapshot_ex: "snapshot d m ps \<Longrightarrow> m k = Some v \<Longrightarrow> \<exists>p \<in> set ps. wp_Key p = d @ k \<and> wp_Value p = Some v"
proof -
  assume "snapshot d m ps" "m k = Some v"
  then have "(d @ k, Some v) \<in> (\<lambda>p. (wp_Key p, wp_Value p)) ` set ps" unfolding snapshot_def by simp
  then show ?thesis by force
qed

lemma batch_events:
  "\<forall>p \<in> set ps. wp_Key p \<noteq> d \<and> wp_Value p \<noteq> None \<Longrightarrow>
   fst (process_batch d ps c) = map (\<lambda>p. ModifiedNode (wp_Key p) (the (wp_Value p))) ps"
  by (induction d ps c rule: process_batch.induct) (auto simp: process_pair_def split: prod.splits)

lemma snapshot_events:
  assumes "snapshot d m ps" and "m [] = None"
  shows "fst (processEvents d [ps] end) = map (\<lambda>p. ModifiedNode (wp_Key p) (the (wp_Value p))) ps"
proof -
  have "\<forall>p \<in> set ps. wp_Key p \<noteq> d \<and> wp_Value p \<noteq> None"
    using snapshotD [OF assms(1)] assms(2) by fastforce
  then show ?thesis
    using batch_events [of ps d Map.empty] by (cases "process_batch d ps Map.empty") (simp add: processEvents_def)
qed

lemma apply_pairs_distinct:
  "distinct (map wp_Key ps) \<Longrightarrow> \<forall>p \<in> set ps. wp_Key p \<noteq> d \<Longrightarrow>
   apply_pairs d ps m k = (case map_of (map (\<lambda>p. (wp_Key p, wp_Value p)) ps) k of None \<Rightarrow> m k | Some v \<Rightarrow> v)"
proof (induction ps arbitrary: m)
  case (Cons p ps)
  have "map_of (map (\<lambda>p. (wp_Key p, wp_Value p)) ps) (wp_Key p) = None"
    using Cons.prems(1) by (auto simp: map_of_eq_None_iff)
  then show ?case using Cons by (auto split: option.split)
qed simp

lemma snapshot_apply:
  assumes "snapshot d m ps" and "m [] = None"
  shows "apply_pairs d ps Map.empty (d @ k) = m k"
proof -
  let ?l = "map (\<lambda>p. (wp_Key p, wp_Value p)) ps"
  have d: "distinct (map fst ?l)" using assms(1) by (simp add: snapshot_def comp_def)
  have "\<forall>p \<in> set ps. wp_Key p \<noteq> d" using snapshotD [OF assms(1)] assms(2) by fastforce
  then have a: "apply_pairs d ps Map.empty (d @ k) = (case map_of ?l (d @ k) of None \<Rightarrow> None | Some v \<Rightarrow> v)"
    using assms(1) by (simp add: apply_pairs_distinct snapshot_def)
  show ?thesis
  proof (cases "m k")
    case (Some v)
    then have "(d @ k, Some v) \<in> set ?l" using assms(1) unfolding snapshot_def by auto
    then show ?thesis using a d Some by (simp add: map_of_is_SomeI)
  next
    case None
    have "map_of ?l (d @ k) = None"
    proof (rule ccontr)
      assume "map_of ?l (d @ k) \<noteq> None"
      then obtain v where "(d @ k, v) \<in> set ?l" by (auto dest: map_of_SomeD)
      then have "m k \<noteq> None" using assms(1) unfolding snapshot_def by auto
      then show False using None by simp
    qed
    then show ?thesis using a None by simp
  qed
qed

subsection \<open>The caches after a snapshot\<close>

text \<open>The router's functions and subscriptions are what the reactors made of one snapshot each.\<close>

definition caches_loaded :: "(nat \<Rightarrow> nat) \<Rightarrow> env \<Rightarrow> (string \<Rightarrow> blob option) \<Rightarrow> target \<Rightarrow> bool" where
  "caches_loaded pick E db tc \<longleftrightarrow>
     (\<exists>d ps. snapshot d (FN db) ps \<and>
        react d (functionCache_Modified E) functionCache_Deleted (fst (processEvents d [ps] ChannelClosed)) newFunctionCache =
          Done (functionCache tc)) \<and>
     (\<exists>d ps. snapshot d (SB db) ps \<and>
        react d (subscriptionCache_Modified pick) subscriptionCache_Deleted (fst (processEvents d [ps] ChannelClosed))
          newSubscriptionCache = Done (subscriptionCache tc))"

text \<open>This is what \<^verbatim>\<open>NewTarget\<close> leads to when each of the two watchers has got its snapshot in one session.\<close>

lemma NewTarget_loads:
  assumes "NewTarget pick E path answers = Done tc" and "has_prefix path ''/''" and "\<not> has_suffix path ''/''"
    and "answers (path @ ''/functions/'') = [\<lparr>at_exists = Inr True, at_put = None, at_watch = Inr ([ps], ChannelClosed)\<rparr>]"
    and "answers (path @ ''/subscriptions/'') = [\<lparr>at_exists = Inr True, at_put = None, at_watch = Inr ([qs], ChannelClosed)\<rparr>]"
    and "snapshot (path @ ''/functions/'') (FN db) ps" and "snapshot (path @ ''/subscriptions/'') (SB db) qs"
  shows "caches_loaded pick E db tc"
proof -
  have w: "NewWatcher (path @ ''/'' @ d) = Done (path @ ''/'' @ d @ ''/'')" if "d \<noteq> []" "last d \<noteq> CHR ''/''" for d
    using assms(2) that
    by (cases path; cases d rule: rev_cases) (auto simp: NewWatcher_def has_prefix_def has_suffix_def)
  have one: "watchRoot d [\<lparr>at_exists = Inr True, at_put = None, at_watch = Inr ([ps], ChannelClosed)\<rparr>] =
      fst (processEvents d [ps] ChannelClosed)" for d ps
    by (simp add: processEvents_def)
  have "react (path @ ''/functions/'') (functionCache_Modified E) functionCache_Deleted
        (fst (processEvents (path @ ''/functions/'') [ps] ChannelClosed)) newFunctionCache = Done (functionCache tc) \<and>
      react (path @ ''/subscriptions/'') (subscriptionCache_Modified pick) subscriptionCache_Deleted
        (fst (processEvents (path @ ''/subscriptions/'') [qs] ChannelClosed)) newSubscriptionCache =
      Done (subscriptionCache tc)"
    using assms(1,3-5) w [of "''eventtypes''"] w [of "''functions''"] w [of "''subscriptions''"] w [of "''cors''"]
    by (auto simp: NewTarget_def NewTarget_paths_def start_watcher_def one simp del: watchRoot.simps split: outcome.splits)
  then show ?thesis using assms(6,7) unfolding caches_loaded_def by blast
qed

lemma name_chars_Nil [simp]: "\<not> name_chars []"
  by (simp add: name_chars_def)

lemma no_empty_key:
  "functions_ok m \<Longrightarrow> m [] = None" "subscriptions_ok E ec fc m' \<Longrightarrow> m' [] = None"
  by (cases "m []"; force simp: functions_ok_def key_defs)
    (cases "m' []"; force simp: subscriptions_ok_def key_defs)

lemma loaded_function:
  assumes "functions_ok m" and "all_loaded E m" and "snapshot d m ps"
    and "react d (functionCache_Modified E) functionCache_Deleted (fst (processEvents d [ps] end)) newFunctionCache = Done (functionCache tc)"
    and "m (FunctionKey sp i) = Some b" and "CHR ''/'' \<notin> set sp" and "CHR ''/'' \<notin> set i"
  shows "target_Function tc sp i = (case decode (read_func E) b of Inl _ \<Rightarrow> None | Inr g \<Rightarrow> Some g)"
proof -
  have e: "m [] = None" using no_empty_key(1) [OF assms(1)] .
  have "function_reactor.good_event E d (ModifiedNode (wp_Key p) (the (wp_Value p)))" if p: "p \<in> set ps" for p
  proof -
    obtain k v where kv: "wp_Key p = d @ k" "wp_Value p = Some v" "m k = Some v"
      using snapshotD [OF assms(3) p] by blast
    moreover obtain g :: func where "k = FunctionKey (fn_Space g) (fn_ID g)" "name_chars (fn_Space g)" "name_chars (fn_ID g)"
      using assms(1) kv(3) unfolding functions_ok_def by blast
    moreover have "\<not> isl (decode (read_func E) v)" using assms(2) kv(3) unfolding all_loaded_def by fastforce
    ultimately show ?thesis
      unfolding function_reactor.good_event_def
      by (intro exI [of _ "fn_Space g"] exI [of _ "fn_ID g"]) (simp add: FunctionKey_def name_chars_no_slash)
  qed
  then have good: "list_all (function_reactor.good_event E d) (fst (processEvents d [ps] end))"
    by (simp add: snapshot_events [OF assms(3) e] list_all_iff)
  let ?a = "\<lparr>at_exists = Inr True, at_put = None, at_watch = Inr ([ps], end)\<rparr>"
  have w: "watchRoot d [?a] = fst (processEvents d [ps] end)" by (simp add: processEvents_def)
  have t: "told d [?a] Map.empty = apply_pairs d (concat [ps]) Map.empty"
    by (rule told_first) (simp add: watch_session_def)
  from function_cache_told [of E d "[?a]"] good show ?thesis
    using assms(4-7) snapshot_apply [OF assms(3) e] unfolding w t by (auto simp: target_Function_def FunctionKey_def)
qed

text \<open>The subscription cache of a snapshot is that of a list of all stored subscriptions.\<close>

lemma loaded_subscriptions:
  assumes "subscriptions_ok E ec fc m" and "snapshot d m ps"
    and "react d (subscriptionCache_Modified pick) subscriptionCache_Deleted (fst (processEvents d [ps] end)) newSubscriptionCache =
      Done c"
  shows "\<exists>ss. distinct ss \<and> set ss = {s. stored_sub m s} \<and> c = add_all pick ss"
proof -
  have e: "m [] = None" using no_empty_key(2) [OF assms(1)] .
  have "\<forall>p \<in> set ps. \<exists>s. stored_sub m s \<and> wp_Key p = d @ subscriptionPath (sub_Space s) (sub_ID s) \<and>
      wp_Value p = Some (Doc (subscription_json s))"
    using snapshotD [OF assms(2)] subscriptions_okE [OF assms(1)] by metis
  then obtain g where g: "\<And>p. p \<in> set ps \<Longrightarrow> stored_sub m (g p) \<and>
      wp_Key p = d @ subscriptionPath (sub_Space (g p)) (sub_ID (g p)) \<and> wp_Value p = Some (Doc (subscription_json (g p)))"
    by metis
  let ?xs = "map (\<lambda>p. (subscriptionPath (sub_Space (g p)) (sub_ID (g p)), g p)) ps"
  have "fst (processEvents d [ps] end) = map (\<lambda>(k, s). ModifiedNode (d @ k) (Doc (subscription_json s))) ?xs"
    using g by (simp add: snapshot_events [OF assms(2) e])
  from assms(3) [unfolded this react_subscriptions] have "c = add_all pick (map g ps)"
    by (simp add: add_all_def comp_def)
  moreover have "distinct (map g ps)"
  proof -
    have "inj_on g (set ps)"
    proof (rule inj_onI)
      fix p q assume "p \<in> set ps" "q \<in> set ps" "g p = g q"
      then have "wp_Key p = wp_Key q" using g by metis
      then show "p = q" using \<open>p \<in> set ps\<close> \<open>q \<in> set ps\<close> assms(2) by (auto simp: snapshot_def distinct_map dest: inj_onD)
    qed
    then show ?thesis using assms(2) by (simp add: snapshot_def distinct_map)
  qed
  moreover have "set (map g ps) = {s. stored_sub m s}"
  proof (intro equalityI subsetI)
    fix s assume "s \<in> {s. stored_sub m s}"
    then obtain p where p: "p \<in> set ps" "wp_Value p = Some (Doc (subscription_json s))"
      using snapshot_ex [OF assms(2)] unfolding stored_sub_def by blast
    then have "g p = s" using g [OF p(1)] by (simp add: subscription_json_inject)
    then show "s \<in> set (map g ps)" using p(1) by auto
  qed (use g in auto)
  ultimately show ?thesis by blast
qed

lemma sc_async_sync: "sub_Type s = TypeSync \<Longrightarrow> sc_async (add_subscription pick s c) = sc_async c"
  by (simp add: add_subscription_def Let_def set_sync_def ensureSyncMethod_def)

lemma no_async_subscribers:
  assumes "\<forall>s \<in> set ss. sub_Type s = TypeSync"
  shows "AsyncSubscribers (add_all pick ss) me p t = []"
proof -
  have "sc_async (foldl (\<lambda>c s. add_subscription pick s c) c ss) = sc_async c" for c
    using assms by (induction ss arbitrary: c) (simp_all add: sc_async_sync)
  then have "sc_async (add_all pick ss) = Map.empty" by (simp add: add_all_def newSubscriptionCache_def)
  then show ?thesis by (simp add: AsyncSubscribers_def inner_def)
qed

subsection \<open>A sync subscriber is called\<close>

definition with_params :: "params option \<Rightarrow> event \<Rightarrow> router_state \<Rightarrow> router_state" where
  "with_params ps e st =
     (case ev_Data e of
        HTTPRequestData a \<Rightarrow>
          (if ev_EventType e = TypeHTTPRequest
           then st\<lparr>rs_heap := (rs_heap st)\<lparr>hp_Reqs :=
             (hp_Reqs (rs_heap st))[a := (hp_Reqs (rs_heap st) ! a)\<lparr>hd_Params := ps\<rparr>]\<rparr>\<rparr>
           else st)
      | _ \<Rightarrow> st)"

lemma with_params_calls [simp]: "rs_calls (with_params ps e st) = rs_calls st"
  by (simp add: with_params_def split: event_data.split)

lemma sync_subscription_unguarded:
  assumes "unguarded R e (ss_Space s)" and "ev_EventType e = TypeHTTPRequest \<Longrightarrow> \<exists>a. ev_Data e = HTTPRequestData a"
  shows "handleSyncSubscription R e s w r st =
    httpRequestHandler R (ss_Space s) (ss_FunctionID s) e w (with_params (ss_Params s) e st)"
  using assms(2)
  by (auto simp: handleSyncSubscription_def authorize_unguarded [OF assms(1)] with_params_def bnd_def modify_def ret_def
      split: event_data.split)

text \<open>A request for a sync subscriber, when nobody else hears of it.\<close>

lemma sync_request:
  assumes "no_cors R r" and "\<not> rs_draining st" and "quiet R r"
    and "request_event R r st = Returns (e, h)" and "\<not> IsSystem e"
    and "SyncSubscriber (r_pick R) (subscriptionCache (r_target R)) (rq_Method r) (request_path R r) (ev_EventType e) = Some s"
    and "AsyncSubscribers (subscriptionCache (r_target R)) (rq_Method r) (request_path R r) (ev_EventType e) = []"
    and "unguarded R e (ss_Space s)" and "ev_EventType e = TypeHTTPRequest \<Longrightarrow> \<exists>a. ev_Data e = HTTPRequestData a"
    and "\<And>st1. rs_calls st1 = rs_calls st \<Longrightarrow>
      \<exists>w st2. httpRequestHandler R (ss_Space s) (ss_FunctionID s) e new_response st1 = (Value w, st2) \<and> P w st2"
  shows "\<exists>w st'. ServeHTTP R r st = (Responds w, st') \<and> P w st'"
proof -
  let ?st1 = "st\<lparr>rs_heap := h, rs_events := Suc (rs_events st)\<rparr>"
  have f: "event_from_request R r st = (Value (Inr e), ?st1)"
    by (simp add: event_from_request_cases assms(4))
  obtain h1 where q: "emitSystemEventReceived R (request_path R r) e r ?st1 =
      (Value None, ?st1\<lparr>rs_heap := h1, rs_events := Suc (rs_events ?st1)\<rparr>)"
    using quiet_received [OF assms(3)] by blast
  let ?st2 = "?st1\<lparr>rs_heap := h1, rs_events := Suc (rs_events ?st1)\<rparr>"
  have "rs_calls (with_params (ss_Params s) e ?st2) = rs_calls st" by simp
  from assms(10) [OF this] obtain w st2 where w: "handleSyncSubscription R e s new_response r ?st2 = (Value w, st2)" "P w st2"
    by (auto simp: sync_subscription_unguarded [OF assms(8,9)])
  have "event_handler R (request_path R r) r new_response st = (Value w, st2)"
    using assms(5,6,7) w(1)
    by (simp add: event_handler_def bnd_Value [of "event_from_request R r", OF f]
        bnd_Value [of "emitSystemEventReceived R (request_path R r) e r", OF q] handleAsyncSubscriptions_def ret_def)
       (simp add: bnd_def)
  then show ?thesis
    using w(2) by (auto simp: ServeHTTP_def serve_without_cors [OF assms(1,2)])
qed

lemma sync_call:
  assumes "function_events_unheard R sp" and "r_plugins R = []" and "\<not> IsSystem e"
    and "target_Function (r_target R) sp i = Some f"
    and "\<And>payload. func_Call (r_world R (rs_calls st)) f payload = CallReturns result None"
    and "read_HTTPResponse (r_env R) result = Inr hr"
    and "\<forall>w b. r_Write_error R w b = None"
  shows "\<exists>w st'. httpRequestHandler R sp i e new_response st = (Value w, st') \<and>
    status w = hr_StatusCode hr \<and> rw_Body w = (if has_no_body (hr_StatusCode hr) then [] else [Raw (hr_Body hr)]) \<and>
    (\<exists>payload. rs_calls st' = rs_calls st @ [FunctionCall f payload])"
proof -
  let ?p = "ee_text (r_env R) (event_json (r_env R) (rs_heap (snd (emitSystemFunctionInvoking R sp i e st))) e)"
  have n: "React (r_plugins R) ev st = (Value None, st)" for ev st by (simp add: assms(2) ret_def)
  obtain st' where c: "callFunction R sp i e st = (Value (Inr result), st')" "rs_calls st' = rs_calls st @ [FunctionCall f ?p]"
    using callFunction_success [OF assms(1,3) n assms(4) refl assms(5)] by (auto simp: n)
  show ?thesis
    using httpRequestHandler_writes [OF c(1) assms(7), of new_response] assms(6) c(2)
    by (auto simp: new_response_def Let_def status_def error_answer_def Encode_def Write_def WriteHeader_def Header_Set_def)
qed

text \<open>The router at hand: the plain paths, no plugins, and nothing that gets in the way of an answer.\<close>

definition plain_router :: "router \<Rightarrow> bool" where
  "plain_router R \<longleftrightarrow> r_paths R = default_paths \<and> r_plugins R = [] \<and> (\<forall>w b. r_Write_error R w b = None) \<and>
     (\<forall>xs. mset (r_order R xs) = mset xs)"

text \<open>C2: End to end, from one API to the other: take any sequence of requests to the configuration API
  on an empty database whose lists are answered, and a router whose caches come from snapshots of
  what the database then holds. Let all subscriptions be sync ones, those of different spaces
  with the method and event type at hand not clashing. A request that matches a stored
  subscription with a path other than \<^verbatim>\<open>/\<close>, of an event type without an authorizer, then calls
  the function that is stored for it, once, and the client gets that function's answer, provided
  the router has no plugins, no CORS configuration applies to the request, it is not draining, and
  the function answers with an HTTP response object.\<close>

theorem stored_subscription_answers:
  assumes store: "kv_store kv contents rest" "answers_lists kv" "contents st0 = Map.empty"
      "db = contents (api_run metrics pick0 E (main_service kv) rs st0)"
    and sub: "stored_sub (SB db) s" "sub_Path s \<noteq> ''/''"
      "\<forall>t. stored_sub (SB db) t \<longrightarrow> sub_Type t = TypeSync"
      "\<forall>t u. stored_sub (SB db) t \<longrightarrow> stored_sub (SB db) u \<longrightarrow> sub_Space t \<noteq> sub_Space u \<longrightarrow>
        sub_in (sub_Method s) (sub_EventType s) t \<longrightarrow> sub_in (sub_Method s) (sub_EventType s) u \<longrightarrow>
        compatible (sub_Path t) (sub_Path u)"
    and router: "plain_router R" "caches_loaded pick E db (r_target R)" "\<not> rs_draining st" "no_cors R r"
    and req: "request_event R r st = Returns (e, h)" "\<not> IsSystem e" "ev_EventType e = sub_EventType s"
      "rq_Method r = sub_Method s" "abs_route (request_path R r)" "request_path R r \<noteq> ''/''"
      "match_segs (toSegments (sub_Path s)) (toSegments (request_path R r)) = Some ps"
    and event: "ev_EventType e = TypeHTTPRequest \<Longrightarrow> \<exists>a. ev_Data e = HTTPRequestData a"
      "unguarded R e (sub_Space s)"
    and call: "FN db (FunctionKey (sub_Space s) (sub_FunctionID s)) = Some b" "decode (read_func E) b = Inr f"
      "\<And>payload. func_Call (r_world R (rs_calls st)) f payload = CallReturns result None"
      "read_HTTPResponse (r_env R) result = Inr hr"
  shows "\<exists>w st'. ServeHTTP R r st = (Responds w, st') \<and>
    status w = hr_StatusCode hr \<and> rw_Body w = (if has_no_body (hr_StatusCode hr) then [] else [Raw (hr_Body hr)]) \<and>
    (\<exists>payload. rs_calls st' = rs_calls st @ [FunctionCall f payload])"
proof -
  obtain qs where qs: "api_run metrics pick0 E (main_service kv) rs st0 = run pick0 E (main_service kv) qs st0"
    using api_run_is_run [of metrics pick0 E "main_service kv" rs st0] by blast
  have ok: "functions_ok (FN db)" "subscriptions_ok E (ET db) (FN db) (SB db)" "all_loaded E (FN db)"
    using api_run_consistent [OF store(1,3,4)] by (auto simp: db_ok_def config_ok_def)
  obtain fd fps where fps: "snapshot fd (FN db) fps" "react fd (functionCache_Modified E) functionCache_Deleted
      (fst (processEvents fd [fps] ChannelClosed)) newFunctionCache = Done (functionCache (r_target R))"
    using router(2) unfolding caches_loaded_def by blast
  obtain sd sps where sps: "snapshot sd (SB db) sps" "react sd (subscriptionCache_Modified pick) subscriptionCache_Deleted
      (fst (processEvents sd [sps] ChannelClosed)) newSubscriptionCache = Done (subscriptionCache (r_target R))"
    using router(2) unfolding caches_loaded_def by blast
  obtain ss where ss: "distinct ss" "set ss = {t. stored_sub (SB db) t}" "subscriptionCache (r_target R) = add_all pick ss"
    using loaded_subscriptions [OF ok(2) sps] by blast
  have async: "AsyncSubscribers (subscriptionCache (r_target R)) me p t = []" for me p t
    unfolding ss(3) by (rule no_async_subscribers) (use ss(2) sub(3) in auto)
  have quiet: "quiet R r" "function_events_unheard R (sub_Space s)"
    using router(1) async by (auto simp: quiet_def function_events_unheard_def plain_router_def default_paths_def)
  have s: "s \<in> set ss" "sub_in (sub_Method s) (sub_EventType s) s" using sub(1,3) ss(2) by (auto simp: sub_in_def)
  have "paths_ok (SB db)"
    unfolding store(4) qs by (rule main_run_paths [OF store(1,2)]) (simp_all add: store(3))
  then have "SyncSubscriber (r_pick R) (add_all pick ss) (sub_Method s) (request_path R r) (sub_EventType s) =
      Some \<lparr>ss_Space = sub_Space s, ss_FunctionID = sub_FunctionID s, ss_Params = Some ps\<rparr>"
    using stored_subs_routed [OF _ ss(1) _ _ s, of "SB db" "r_pick R" pick] ss(2) sub(2,4) req(5-7) by blast
  then have route: "SyncSubscriber (r_pick R) (subscriptionCache (r_target R)) (rq_Method r) (request_path R r) (ev_EventType e) =
      Some \<lparr>ss_Space = sub_Space s, ss_FunctionID = sub_FunctionID s, ss_Params = Some ps\<rparr>"
    by (simp add: ss(3) req(3,4))
  obtain g :: func where g: "FunctionKey (sub_Space s) (sub_FunctionID s) = FunctionKey (fn_Space g) (fn_ID g)"
      "name_chars (fn_Space g)" "name_chars (fn_ID g)"
    using ok(1) call(1) unfolding functions_ok_def by blast
  obtain s' :: subscription where s': "Doc (subscription_json s) = Doc (subscription_json s')" "valid_sub E s'"
    using subscriptions_okE [OF ok(2) sub(1) [unfolded stored_sub_def]] by metis
  then have "name_chars (sub_Space s)" by (simp add: subscription_json_inject valid_sub_def)
  then have "sub_Space s = fn_Space g \<and> sub_FunctionID s = fn_ID g"
    using g slash_key_inject [of "CHR ''/''" "sub_Space s" "fn_Space g" "sub_FunctionID s" "fn_ID g"]
    by (simp add: FunctionKey_def name_chars_no_slash)
  then have target: "target_Function (r_target R) (sub_Space s) (sub_FunctionID s) = Some f"
    using loaded_function [OF ok(1,3) fps call(1)] g(2,3) call(2) by (simp add: name_chars_no_slash)
  have R: "r_plugins R = []" "\<forall>w b. r_Write_error R w b = None" "\<forall>xs. mset (r_order R xs) = mset xs"
    using router(1) by (simp_all add: plain_router_def)
  have called: "\<exists>w st'. httpRequestHandler R (sub_Space s) (sub_FunctionID s) e new_response st1 = (Value w, st') \<and>
      status w = hr_StatusCode hr \<and> rw_Body w = (if has_no_body (hr_StatusCode hr) then [] else [Raw (hr_Body hr)]) \<and>
      (\<exists>payload. rs_calls st' = rs_calls st @ [FunctionCall f payload])" if st1: "rs_calls st1 = rs_calls st" for st1
    using sync_call [OF quiet(2) R(1) req(2) target _ call(4) R(2), of st1] call(3) unfolding st1 by blast
  show ?thesis
    by (rule sync_request [OF router(4,3) quiet(1) req(1,2) route async _ event(1)])
      (use event(2) called in simp_all)
qed

subsection \<open>An example\<close>

definition ex_api :: "blob \<Rightarrow> api_request" where
  "ex_api b = (ex_request b)\<lparr>ar_Params := [(''space'', [])]\<rparr>"

definition ex_api_run :: mem where
  "ex_api_run = api_run Aborted (\<lambda>_. 0) plain_env (main_service mem_kv)
     [(CreateFunctionEP, ex_api (Doc (func_json ServiceProps.ex_func))),
      (CreateEventTypeEP, ex_api (Doc (event_type_json ex_type))),
      (CreateSubscriptionEP, ex_api (Doc (subscription_json (ex_sub ''users/:id''))))] []"

lemma ex_api_run: "ex_api_run = ex_db3"
proof -
  have f: "ServiceProps.ex_func\<lparr>fn_Space := []\<rparr> = ServiceProps.ex_func" "ex_type\<lparr>et_Space := []\<rparr> = ex_type"
    "(ex_sub p)\<lparr>sub_Space := []\<rparr> = ex_sub p" for p
    by (simp_all add: ServiceProps.ex_func_def ex_type_def ex_sub_def)
  show ?thesis
    by (simp add: ex_api_run_def createFunction_def createEventType_def createSubscription_def ex_api_def ex_request_def
        ByName_def read_func_json ex_loaded f ex_create_function ex_create_type ex_create_sub)
qed

lemma ex_stored:
  "FN (map_of ex_db3) k = Some b \<longleftrightarrow> k = FunctionKey ''default'' ''f'' \<and> b = Doc (func_json ex_func')"
  "SB (map_of ex_db3) k = Some b \<longleftrightarrow>
     k = subscriptionPath ''default'' (sub_ID ex_sub_stored) \<and> b = Doc (subscription_json ex_sub_stored)"
  by (auto simp: below_def prefixed_roots ex_db3_def ex_db2_def ex_db1_def ex_sub_key_def
      FunctionKey_def subscriptionPath_def spacePath_def ex_sub_stored_def)

definition ex_target :: target where
  "ex_target = no_target\<lparr>functionCache := [(''default'', ''f'') \<mapsto> ex_func'],
     subscriptionCache := add_all (\<lambda>_. 0) [ex_sub_stored]\<rparr>"

lemma ex_caches_loaded: "caches_loaded (\<lambda>_. 0) plain_env (map_of ex_db3) ex_target"
proof -
  let ?f = "[\<lparr>wp_Key = ''/f/'' @ FunctionKey ''default'' ''f'', wp_Value = Some (Doc (func_json ex_func'))\<rparr>]"
  let ?s = "[\<lparr>wp_Key = ''/s/'' @ subscriptionPath ''default'' (sub_ID ex_sub_stored),
     wp_Value = Some (Doc (subscription_json ex_sub_stored))\<rparr>]"
  have f: "snapshot ''/f/'' (FN (map_of ex_db3)) ?f" and s: "snapshot ''/s/'' (SB (map_of ex_db3)) ?s"
    by (auto simp: snapshot_def ex_stored)
  have n: "FN (map_of ex_db3) [] = None" "SB (map_of ex_db3) [] = None"
    using ex_db_ok(3) no_empty_key by (auto simp: db_ok_def config_ok_def)
  have "two_segments (FunctionKey ''default'' ''f'') = Some (''default'', ''f'')"
    unfolding FunctionKey_def by (rule function_reactor.two_segments_key) simp_all
  then have "react ''/f/'' (functionCache_Modified plain_env) functionCache_Deleted
      (fst (processEvents ''/f/'' [?f] ChannelClosed)) newFunctionCache = Done (functionCache ex_target)"
    unfolding snapshot_events [OF f n(1)]
    by (simp add: FunctionKey_def trim_prefix_def has_prefix_def functionCache_Modified_def read_func_json ex_loaded
        newFunctionCache_def ex_target_def)
  moreover have "react ''/s/'' (subscriptionCache_Modified (\<lambda>_. 0)) subscriptionCache_Deleted
      (fst (processEvents ''/s/'' [?s] ChannelClosed)) newSubscriptionCache = Done (subscriptionCache ex_target)"
    using react_subscriptions [of "''/s/''" "\<lambda>_. 0" "[(subscriptionPath ''default'' (sub_ID ex_sub_stored), ex_sub_stored)]"]
    unfolding snapshot_events [OF s n(2)]
    by (simp add: ex_target_def add_all_def)
  ultimately show ?thesis using f s unfolding caches_loaded_def by blast
qed

theorem stored_subscription_answers_witness:
  "\<exists>w st' payload. ServeHTTP
      (ex_router (plain_event_env (JObj [(''statusCode'', JNum ''201''), (''body'', JStr ''made'')])) ex_target ''{...}'')
      ((ex_http [(''Event'', ''e'', [])] ''x'')\<lparr>rq_Method := ''GET'', rq_EscapedPath := ''/users/42''\<rparr>) started =
        (Responds w, st') \<and> status w = 201 \<and> rw_Body w = [Raw ''made''] \<and> rs_calls st' = [FunctionCall ex_func' payload]"
proof -
  let ?E = "plain_event_env (JObj [(''statusCode'', JNum ''201''), (''body'', JStr ''made'')])"
  let ?R = "ex_router ?E ex_target ''{...}''"
  let ?r = "(ex_http [(''Event'', ''e'', [])] ''x'')\<lparr>rq_Method := ''GET'', rq_EscapedPath := ''/users/42''\<rparr>"
  have s: "sub_Path ex_sub_stored = ''/users/:id''" "sub_Space ex_sub_stored = ''default''" "sub_Method ex_sub_stored = ''GET''"
    "sub_FunctionID ex_sub_stored = ''f''" "sub_EventType ex_sub_stored = ''e''" "sub_Type ex_sub_stored = TypeSync"
    by (simp_all add: ex_sub_stored_def ex_sub'_def ex_sub_def)
  have db: "map_of ex_db3 = map_of (api_run Aborted (\<lambda>_. 0) plain_env (main_service mem_kv)
     [(CreateFunctionEP, ex_api (Doc (func_json ServiceProps.ex_func))),
      (CreateEventTypeEP, ex_api (Doc (event_type_json ex_type))),
      (CreateSubscriptionEP, ex_api (Doc (subscription_json (ex_sub ''users/:id''))))] [])"
    using ex_api_run unfolding ex_api_run_def by simp
  have only: "stored_sub (SB (map_of ex_db3)) t \<longleftrightarrow> t = ex_sub_stored" for t
    by (auto simp: stored_sub_def ex_stored subscription_json_inject s)
  obtain e h where f: "New ?E ''now'' ''id'' ''e'' ''application/octet-stream'' (Plain (PBytes ''x'')) no_heap = (e, h)"
    by fastforce
  then have e: "\<not> IsSystem e" "ev_EventType e = ''e''" by (auto simp: New_def new_map_def IsSystem_def has_prefix_def)
  have req: "request_event ?R ?r started = Returns (e, h)"
    using f by (simp add: request_event_def FromRequest_def ex_http_def Header_Get_def canonical_keys media_types
        mimeCloudEventsJSON_def mimeJSON_def isCloudEventsBinaryContentMode_def isLegacyMode_def Let_def ex_router_def)
  have path: "request_path ?R ?r = ''/users/42''" by (simp add: request_path_def default_paths_def)
  have m: "match_segs (toSegments ''/users/:id'') (toSegments ''/users/42'') = Some [''id'' \<mapsto> ''42'']"
    by (simp add: toSegments_def is_param_def is_wild_def param_name_def has_prefix_def trim_prefix_def)
  have c: "no_cors ?R ?r" "unguarded ?R e ''default''" "plain_router ?R"
    by (simp_all add: no_cors_def target_CORS_def ex_target_def no_target_def newCORSCache_def unguarded_def target_EventType_def
        newEventTypeCache_def plain_router_def) (simp_all add: ex_router_def)
  have call: "func_Call (r_world ?R cs) ex_func' payload = CallReturns ''{...}'' None" for payload cs
    by (simp add: func_Call_def ex_func'_def ServiceProps.ex_func_def provider_Call_def answer_world_def Call_http_def)
  have resp: "read_HTTPResponse (r_env ?R) ''{...}'' = Inr \<lparr>hr_StatusCode = 201, hr_Headers = fmempty, hr_Body = ''made''\<rparr>"
    by (simp add: plain_event_env_def read_HTTPResponse_def json_members_def) code_simp
  have fn: "FN (map_of ex_db3) (FunctionKey (sub_Space ex_sub_stored) (sub_FunctionID ex_sub_stored)) = Some (Doc (func_json ex_func'))"
    "decode (read_func plain_env) (Doc (func_json ex_func')) = Inr ex_func'"
    by (simp_all add: ex_stored s read_func_json ex_loaded)
  show ?thesis
    using stored_subscription_answers [OF mem.kv_store_axioms mem.reliable_answers_lists _ db _ _ _ _ c(3) _ _ c(1) req e(1) _ _ _ _ _ _ _ fn call resp,
        of "\<lambda>_. 0" "[''id'' \<mapsto> ''42'']"]
    using ex_caches_loaded c(2) m path by (simp add: only s e has_no_body_def abs_route_def TypeHTTPRequest_def has_prefix_def ex_http_def)
qed

end
