(* ===== verification/Metrics.thy ===== *)
theory Metrics
  imports APIProps
begin

section \<open>The metrics of the configuration API (httpapi/metrics.go)\<close>

text \<open>
  A gauge for each kind of entity and a counter of the requests, with the labels that the
  handlers give them; how they relate to what is stored. The Prometheus client keeps the numbers
  (as floats; here they are integers). The help texts are left out.
\<close>

subsection \<open>The numbers\<close>

datatype resource = EventTypes | Functions | Subscriptions | CORSes

datatype operation = GetOp | ListOp | CreateOp | UpdateOp | DeleteOp

text \<open>
  \<^verbatim>\<open>metricEventTypes\<close>, \<^verbatim>\<open>metricFunctions\<close>, \<^verbatim>\<open>metricSubscriptions\<close> and \<^verbatim>\<open>metricCORS\<close> by their resource and
  the label \<^verbatim>\<open>space\<close>; \<^verbatim>\<open>metricConfigRequests\<close> by resource, operation and space.
\<close>

record api_metrics =
  am_gauge :: "resource \<Rightarrow> string \<Rightarrow> int"
  am_requests :: "resource \<Rightarrow> operation \<Rightarrow> string \<Rightarrow> nat"

definition zero_metrics :: api_metrics where
  "zero_metrics = \<lparr>am_gauge = (\<lambda>_ _. 0), am_requests = (\<lambda>_ _ _. 0)\<rparr>"

definition add_gauge :: "int \<Rightarrow> resource \<Rightarrow> string \<Rightarrow> api_metrics \<Rightarrow> api_metrics" where
  "add_gauge d res sp m = m\<lparr>am_gauge := (am_gauge m)(res := (am_gauge m res)(sp := am_gauge m res sp + d))\<rparr>"

definition count_request :: "resource \<Rightarrow> operation \<Rightarrow> string \<Rightarrow> api_metrics \<Rightarrow> api_metrics" where
  "count_request res op sp m =
     m\<lparr>am_requests := (am_requests m)(res := (am_requests m res)(op :=
        (am_requests m res op)(sp := Suc (am_requests m res op sp))))\<rparr>"

fun measured :: "endpoint \<Rightarrow> (resource \<times> operation) option" where
  "measured Status = None"
| "measured endpoint.Metrics = None"
| "measured ListEventTypesEP = Some (EventTypes, ListOp)"
| "measured GetEventTypeEP = Some (EventTypes, GetOp)"
| "measured CreateEventTypeEP = Some (EventTypes, CreateOp)"
| "measured UpdateEventTypeEP = Some (EventTypes, UpdateOp)"
| "measured DeleteEventTypeEP = Some (EventTypes, DeleteOp)"
| "measured ListFunctionsEP = Some (Functions, ListOp)"
| "measured GetFunctionEP = Some (Functions, GetOp)"
| "measured CreateFunctionEP = Some (Functions, CreateOp)"
| "measured UpdateFunctionEP = Some (Functions, UpdateOp)"
| "measured DeleteFunctionEP = Some (Functions, DeleteOp)"
| "measured ListSubscriptionsEP = Some (Subscriptions, ListOp)"
| "measured GetSubscriptionEP = Some (Subscriptions, GetOp)"
| "measured CreateSubscriptionEP = Some (Subscriptions, CreateOp)"
| "measured UpdateSubscriptionEP = Some (Subscriptions, UpdateOp)"
| "measured DeleteSubscriptionEP = Some (Subscriptions, DeleteOp)"
| "measured ListCORSEP = Some (CORSes, ListOp)"
| "measured GetCORSEP = Some (CORSes, GetOp)"
| "measured CreateCORSEP = Some (CORSes, CreateOp)"
| "measured UpdateCORSEP = Some (CORSes, UpdateOp)"
| "measured DeleteCORSEP = Some (CORSes, DeleteOp)"

text \<open>
  The handlers of create and update return early when the body does not decode. The entity that
  they pass to the service gets the default space there (its validation writes through the
  pointer), and its space is the label; the other handlers use the parameter of the path.
\<close>

fun body_decodes :: "env \<Rightarrow> resource \<Rightarrow> blob \<Rightarrow> bool" where
  "body_decodes E EventTypes b = (\<not> isl (decode read_event_type b))"
| "body_decodes E Functions b = (\<not> isl (decode (read_func E) b))"
| "body_decodes E Subscriptions b = (\<not> isl (decode read_subscription b))"
| "body_decodes E CORSes b = (\<not> isl (decode read_cors b))"

definition default_space :: "string \<Rightarrow> string" where
  "default_space sp = (if sp = [] then defaultSpace else sp)"

definition label :: "operation \<Rightarrow> api_request \<Rightarrow> string" where
  "label op r = (if op = CreateOp \<or> op = UpdateOp then default_space (space_of r) else space_of r)"

text \<open>
  What a handler does to the numbers after it has answered: the branch of a create handler that
  answers 201 increases the gauge, the branch of a delete handler that answers 204 decreases it.
  A handler that panics does not get there.
\<close>

definition report :: "env \<Rightarrow> endpoint \<Rightarrow> api_request \<Rightarrow> handled \<Rightarrow> api_metrics \<Rightarrow> api_metrics" where
  "report E ep r answer m =
     (case (measured ep, answer) of
        (Some (res, op), Responds w) \<Rightarrow>
          (if (op = CreateOp \<or> op = UpdateOp) \<and> \<not> body_decodes E res (ar_Body r) then m
           else count_request res op (label op r)
             (if op = CreateOp \<and> status w = 201 then add_gauge 1 res (label op r) m
              else if op = DeleteOp \<and> status w = 204 then add_gauge (- 1) res (label op r) m
              else m))
      | _ \<Rightarrow> m)"

fun measured_run ::
  "handled \<Rightarrow> (nat \<Rightarrow> nat) \<Rightarrow> env \<Rightarrow> ('st, 'h) service \<Rightarrow> (endpoint \<times> api_request) list \<Rightarrow>
   'st \<times> api_metrics \<Rightarrow> 'st \<times> api_metrics" where
  "measured_run metrics pick E svc [] s = s"
| "measured_run metrics pick E svc ((ep, r) # rs) (st, m) =
     (case serve metrics pick E svc ep r st of
        (answer, st') \<Rightarrow> measured_run metrics pick E svc rs (st', report E ep r answer m))"

text \<open>
  The handler around all of them, with the histogram as the list of its observations; \<open>start\<close> and
  \<open>stop\<close> are the times before and after. A request whose handler panics is not observed.
\<close>

definition metricsReporter_ServeHTTP ::
  "('st \<Rightarrow> handled \<times> 'st) \<Rightarrow> nat \<Rightarrow> nat \<Rightarrow> 'st \<times> nat list \<Rightarrow> handled \<times> ('st \<times> nat list)" where
  "metricsReporter_ServeHTTP handler start stop s =
     (case handler (fst s) of
        (Responds w, st') \<Rightarrow> (Responds w, (st', snd s @ [stop - start]))
      | (Aborted, st') \<Rightarrow> (Aborted, (st', snd s)))"

lemma durations_observed:
  "length (snd (snd (metricsReporter_ServeHTTP h start stop s))) =
     length (snd s) + (if fst (metricsReporter_ServeHTTP h start stop s) = Aborted then 0 else 1)"
  "fst (metricsReporter_ServeHTTP h start stop s) = fst (h (fst s))"
  "fst (snd (metricsReporter_ServeHTTP h start stop s)) = snd (h (fst s))"
  by (auto simp: metricsReporter_ServeHTTP_def split: prod.split handled.split)

subsection \<open>Counting keys\<close>

definition in_space :: "string \<Rightarrow> (string \<Rightarrow> 'b option) \<Rightarrow> nat" where
  "in_space sp m = card {k \<in> dom m. has_prefix k (spacePath sp)}"

definition same_space :: "string \<Rightarrow> string \<Rightarrow> int" where
  "same_space a b = (if a = b then 1 else 0)"

lemma in_space_insert:
  assumes "finite (dom m)" and "m (a @ ''/'' @ i) = None" and "CHR ''/'' \<notin> set a" and "CHR ''/'' \<notin> set sp"
  shows "int (in_space sp (m(a @ ''/'' @ i \<mapsto> v))) = int (in_space sp m) + same_space a sp"
proof -
  let ?k = "a @ ''/'' @ i"
  have p: "has_prefix ?k (spacePath sp) \<longleftrightarrow> a = sp"
    using slash_key_prefix [of "CHR ''/''" a sp i] assms(3,4) by (simp add: spacePath_def)
  have "{k \<in> dom (m(?k \<mapsto> v)). has_prefix k (spacePath sp)} =
      (if a = sp then insert ?k {k \<in> dom m. has_prefix k (spacePath sp)} else {k \<in> dom m. has_prefix k (spacePath sp)})"
    using p by auto
  then show ?thesis using assms(1,2) by (auto simp: in_space_def same_space_def card_insert_if)
qed

lemma in_space_remove:
  assumes "finite (dom m)" and "m (a @ ''/'' @ i) \<noteq> None" and "CHR ''/'' \<notin> set a" and "CHR ''/'' \<notin> set sp"
  shows "int (in_space sp (m(a @ ''/'' @ i := None))) = int (in_space sp m) - same_space a sp"
proof -
  obtain v where v: "m (a @ ''/'' @ i) = Some v" using assms(2) by blast
  let ?m = "m(a @ ''/'' @ i := None)"
  have "m = ?m(a @ ''/'' @ i \<mapsto> v)" using v by auto
  then show ?thesis
    using in_space_insert [of ?m a i sp v] assms by simp
qed

lemma in_space_replace:
  assumes "m k \<noteq> None"
  shows "in_space sp (m(k \<mapsto> v)) = in_space sp m"
proof -
  have "dom (m(k \<mapsto> v)) = dom m" using assms by auto
  then show ?thesis by (simp only: in_space_def)
qed

subsection \<open>What the operations do to the keys\<close>

lemma validated_space:
  "validateEventType E t0 = Inr t \<Longrightarrow> et_Space t = default_space (et_Space t0)"
  "validateFunction E f0 = Inr f \<Longrightarrow> fn_Space f = default_space (fn_Space f0)"
  by (auto simp: validateEventType_def validateFunction_def default_space_def Let_def split: option.splits if_splits)

lemma validated_space_sub: "validateSubscription E s0 = Inr s \<Longrightarrow> sub_Space s = default_space (sub_Space s0)"
  by (auto simp: validateSubscription_def default_space_def Let_def split: option.splits if_splits)

lemma validated_space_cors: "validateCORS E c0 = Inr c \<Longrightarrow> cors_Space c = default_space (cors_Space c0)"
  by (auto simp: validateCORS_def default_space_def Let_def split: option.splits if_splits)

context reliable_kv_store
begin

lemma Get_absent_key: "kv_Get kv k st = Inl e \<Longrightarrow> contents st k = None"
  using Get_ok [of st k] by (cases "contents st k") auto

lemma Delete_present: "kv_Delete kv k st = (None, st') \<Longrightarrow> contents st k \<noteq> None"
  using Delete_ok by blast

lemma writes_work [simp]:
  "kv_Put kv k v st \<noteq> (Some e, st')"
  "kv_Get kv k st = Inl e \<Longrightarrow> kv_AtomicPut kv k v None st \<noteq> (Inl x, st')"
  using Put_works [of k v st] AtomicPut_works [of st k v] Get_absent_key [of k st] by auto

end

context reliable_config_stores
begin

fun keys_of :: "resource \<Rightarrow> 'a \<Rightarrow> string \<Rightarrow> blob option" where
  "keys_of EventTypes st = ec st"
| "keys_of Functions st = fc st"
| "keys_of Subscriptions st = sc st"
| "keys_of CORSes st = cc st"

lemma view_keys: "view st' = view st \<Longrightarrow> keys_of res st' = keys_of res st"
  by (cases res) (auto simp: view_def)

text \<open>On stores that answer, a create either adds one new key of its space or changes nothing.\<close>

definition adds :: "resource \<Rightarrow> string \<Rightarrow> 'a \<Rightarrow> 'a \<Rightarrow> bool" where
  "adds res sp st st' \<longleftrightarrow> (\<exists>i v. keys_of res st (sp @ ''/'' @ i) = None \<and>
     (\<forall>r. keys_of r st' = (if r = res then (keys_of res st)(sp @ ''/'' @ i \<mapsto> v) else keys_of r st)))"

definition removes :: "resource \<Rightarrow> string \<Rightarrow> 'a \<Rightarrow> 'a \<Rightarrow> bool" where
  "removes res sp st st' \<longleftrightarrow> (\<exists>i. keys_of res st (sp @ ''/'' @ i) \<noteq> None \<and>
     (\<forall>r. keys_of r st' = (if r = res then (keys_of res st)(sp @ ''/'' @ i := None) else keys_of r st)))"

definition keeps :: "'a \<Rightarrow> 'a \<Rightarrow> bool" where
  "keeps st st' \<longleftrightarrow> (\<forall>r. dom (keys_of r st') = dom (keys_of r st))"

lemma keeps_view: "view st' = view st \<Longrightarrow> keeps st st'"
  using view_keys [of st' st] by (simp add: keeps_def)

lemma addsI:
  "ec st (sp @ ''/'' @ i) = None \<Longrightarrow> view st' = ((ec st)(sp @ ''/'' @ i \<mapsto> v), fc st, sc st, cc st) \<Longrightarrow> adds EventTypes sp st st'"
  "fc st (sp @ ''/'' @ i) = None \<Longrightarrow> view st' = (ec st, (fc st)(sp @ ''/'' @ i \<mapsto> v), sc st, cc st) \<Longrightarrow> adds Functions sp st st'"
  "sc st (sp @ ''/'' @ i) = None \<Longrightarrow> view st' = (ec st, fc st, (sc st)(sp @ ''/'' @ i \<mapsto> v), cc st) \<Longrightarrow> adds Subscriptions sp st st'"
  "cc st (sp @ ''/'' @ i) = None \<Longrightarrow> view st' = (ec st, fc st, sc st, (cc st)(sp @ ''/'' @ i \<mapsto> v)) \<Longrightarrow> adds CORSes sp st st'"
  unfolding adds_def view_def
  by (rule exI [of _ i], rule exI [of _ v], simp, rule allI, case_tac r; simp)+

lemma removesI:
  "ec st (sp @ ''/'' @ i) = Some y \<Longrightarrow> view st' = ((ec st)(sp @ ''/'' @ i := None), fc st, sc st, cc st) \<Longrightarrow> removes EventTypes sp st st'"
  "fc st (sp @ ''/'' @ i) = Some y \<Longrightarrow> view st' = (ec st, (fc st)(sp @ ''/'' @ i := None), sc st, cc st) \<Longrightarrow> removes Functions sp st st'"
  "sc st (sp @ ''/'' @ i) = Some y \<Longrightarrow> view st' = (ec st, fc st, (sc st)(sp @ ''/'' @ i := None), cc st) \<Longrightarrow> removes Subscriptions sp st st'"
  "cc st (sp @ ''/'' @ i) = Some y \<Longrightarrow> view st' = (ec st, fc st, sc st, (cc st)(sp @ ''/'' @ i := None)) \<Longrightarrow> removes CORSes sp st st'"
  unfolding removes_def view_def
  by (rule exI [of _ i], simp, rule allI, case_tac r; simp)+

lemma keepsI:
  "ec st k = Some y \<Longrightarrow> view st' = ((ec st)(k \<mapsto> v), fc st, sc st, cc st) \<Longrightarrow> keeps st st'"
  "fc st k = Some y \<Longrightarrow> view st' = (ec st, (fc st)(k \<mapsto> v), sc st, cc st) \<Longrightarrow> keeps st st'"
  "sc st k = Some y \<Longrightarrow> view st' = (ec st, fc st, (sc st)(k \<mapsto> v), cc st) \<Longrightarrow> keeps st st'"
  "cc st k = Some y \<Longrightarrow> view st' = (ec st, fc st, sc st, (cc st)(k \<mapsto> v)) \<Longrightarrow> keeps st st'"
  unfolding keeps_def view_def
  by (rule allI, case_tac r; auto)+

lemma written:
  "kv_AtomicPut (EventTypeStore svc) k v None st = (Inr x, st') \<Longrightarrow> ec st k = None \<and> view st' = ((ec st)(k \<mapsto> v), fc st, sc st, cc st)"
  "kv_AtomicPut (FunctionStore svc) k v None st = (Inr x, st') \<Longrightarrow> fc st k = None \<and> view st' = (ec st, (fc st)(k \<mapsto> v), sc st, cc st)"
  "kv_AtomicPut (SubscriptionStore svc) k v None st = (Inr x, st') \<Longrightarrow> sc st k = None \<and> view st' = (ec st, fc st, (sc st)(k \<mapsto> v), cc st)"
  "kv_Put (EventTypeStore svc) k v st = (None, st') \<Longrightarrow> view st' = ((ec st)(k \<mapsto> v), fc st, sc st, cc st)"
  "kv_Put (FunctionStore svc) k v st = (None, st') \<Longrightarrow> view st' = (ec st, (fc st)(k \<mapsto> v), sc st, cc st)"
  "kv_Put (SubscriptionStore svc) k v st = (None, st') \<Longrightarrow> view st' = (ec st, fc st, (sc st)(k \<mapsto> v), cc st)"
  "kv_Put (CORSStore svc) k v st = (None, st') \<Longrightarrow> view st' = (ec st, fc st, sc st, (cc st)(k \<mapsto> v))"
  using E.AtomicPut_ok [of k v st x st'] E.AtomicPut_rest [of k v st "Inr x" st']
    F.AtomicPut_ok [of k v st x st'] F.AtomicPut_rest [of k v st "Inr x" st']
    S.AtomicPut_ok [of k v st x st'] S.AtomicPut_rest [of k v st "Inr x" st']
    E.Put_ok [of k v st st'] E.Put_rest [of k v st None st'] F.Put_ok [of k v st st'] F.Put_rest [of k v st None st']
    S.Put_ok [of k v st st'] S.Put_rest [of k v st None st'] C.Put_ok [of k v st st'] C.Put_rest [of k v st None st']
  by (simp_all add: view_def)

lemma deleted:
  "kv_Delete (EventTypeStore svc) k st = (None, st') \<Longrightarrow> ec st k \<noteq> None \<and> view st' = ((ec st)(k := None), fc st, sc st, cc st)"
  "kv_Delete (FunctionStore svc) k st = (None, st') \<Longrightarrow> fc st k \<noteq> None \<and> view st' = (ec st, (fc st)(k := None), sc st, cc st)"
  "kv_Delete (SubscriptionStore svc) k st = (None, st') \<Longrightarrow> sc st k \<noteq> None \<and> view st' = (ec st, fc st, (sc st)(k := None), cc st)"
  "kv_Delete (CORSStore svc) k st = (None, st') \<Longrightarrow> cc st k \<noteq> None \<and> view st' = (ec st, fc st, sc st, (cc st)(k := None))"
  using E.Delete_ok [of k st st'] E.Delete_rest [of k st None st'] F.Delete_ok [of k st st'] F.Delete_rest [of k st None st']
    S.Delete_ok [of k st st'] S.Delete_rest [of k st None st'] C.Delete_ok [of k st st'] C.Delete_rest [of k st None st']
  by (simp_all add: view_def)

lemma CreateEventType_adds:
  "CreateEventType E svc t0 st = (Inr t, st') \<Longrightarrow> adds EventTypes (default_space (et_Space t0)) st st'"
  unfolding CreateEventType_def
  by (auto simp: EventTypeKey_def dest!: validated_space written split: sum.splits prod.splits option.splits intro: addsI)

lemma CreateFunction_adds:
  "CreateFunction E svc f0 st = (Inr f, st') \<Longrightarrow> adds Functions (default_space (fn_Space f0)) st st'"
  unfolding CreateFunction_def
  by (auto simp: FunctionKey_def dest!: validated_space written split: sum.splits prod.splits option.splits intro: addsI)

lemma CreateSubscription_adds:
  "CreateSubscription pick E svc s0 st = (Inr s, st') \<Longrightarrow> adds Subscriptions (default_space (sub_Space s0)) st st'"
  unfolding CreateSubscription_def Let_def
  by (auto simp: subscriptionPath_def spacePath_def dest!: validated_space_sub written
      split: sum.splits prod.splits option.splits if_splits intro: addsI)

lemma CreateCORS_adds:
  "CreateCORS E svc c0 st = (Inr c, st') \<Longrightarrow> adds CORSes (default_space (cors_Space c0)) st st'"
  unfolding CreateCORS_def Let_def
  by (auto simp: CORSKey_def dest!: validated_space_cors written RC.Get_absent_key
      split: sum.splits prod.splits option.splits intro: addsI)

lemma deletes_remove:
  "DeleteEventType svc sp n st = (None, st') \<Longrightarrow> removes EventTypes sp st st'"
  "DeleteFunction svc sp i st = (None, st') \<Longrightarrow> removes Functions sp st st'"
  "DeleteSubscription svc sp i st = (None, st') \<Longrightarrow> removes Subscriptions sp st st'"
  "DeleteCORS svc sp i st = (None, st') \<Longrightarrow> removes CORSes sp st st'"
  unfolding DeleteEventType_def DeleteFunction_def DeleteSubscription_def DeleteCORS_def
  by (auto simp: key_defs dest!: deleted split: sum.splits prod.splits option.splits if_splits intro: removesI)

lemma creates_fail:
  "CreateEventType E svc t0 st = (Inl e, st') \<Longrightarrow> st' = st" "CreateFunction E svc f0 st = (Inl e, st') \<Longrightarrow> st' = st"
  "CreateSubscription pick E svc s0 st = (Inl e, st') \<Longrightarrow> st' = st" "CreateCORS E svc c0 st = (Inl e, st') \<Longrightarrow> st' = st"
  unfolding CreateEventType_def CreateFunction_def CreateSubscription_def CreateCORS_def Let_def
  by (auto split: sum.splits prod.splits option.splits if_splits)

lemma updates_keep:
  "keeps st (snd (UpdateEventType E svc t0 st))" "keeps st (snd (UpdateFunction E svc f0 st))"
  "keeps st (snd (UpdateCORS E svc c0 st))"
  using UpdateEventType_effect [OF prod.collapse [symmetric], of E t0 st]
    UpdateFunction_effect [OF prod.collapse [symmetric], of E f0 st]
    UpdateCORS_effect [OF prod.collapse [symmetric], of E c0 st]
  by (auto dest!: keeps_view intro: keepsI)

lemma update_subscription_keeps:
  assumes "i = sub_ID s0"
  shows "keeps st (snd (UpdateSubscription E svc i s0 st))"
  using UpdateSubscription_effect [OF prod.collapse [symmetric], of E i s0 st]
proof (elim disjE exE conjE)
  fix s old b assume *: "validateSubscription E s0 = Inr s" "sc st (subscriptionPath (sub_Space s) i) = Some b"
    "view (snd (UpdateSubscription E svc i s0 st)) =
     (ec st, fc st, (sc st)(subscriptionPath (sub_Space s) (sub_ID s) \<mapsto> Doc (subscription_json s)), cc st)"
  then have "sub_ID s = i" using validateSubscription_Inr [OF *(1)] assms by simp
  then show ?thesis using *(2,3) by (intro keepsI(3) [OF *(2)]) simp
qed (rule keeps_view)

text \<open>What a handler does to the keys, by its answer.\<close>

definition changes :: "endpoint \<Rightarrow> api_request \<Rightarrow> handled \<Rightarrow> 'a \<Rightarrow> 'a \<Rightarrow> bool" where
  "changes ep r answer st st' \<longleftrightarrow>
     (case (measured ep, answer) of
        (Some (res, CreateOp), Responds w) \<Rightarrow>
          (if status w = 201 then adds res (default_space (space_of r)) st st' else keeps st st')
      | (Some (res, DeleteOp), Responds w) \<Rightarrow>
          (if status w = 204 then removes res (space_of r) st st' else keeps st st')
      | _ \<Rightarrow> keeps st st')"

lemma keeps_refl [simp]: "keeps st st"
  by (simp add: keeps_def)

lemma status_not_201 [simp]:
  "createEventType_status e \<noteq> 201" "createFunction_status e \<noteq> 201" "createSubscription_status e \<noteq> 201"
  "createCORS_status e \<noteq> 201"
  by (cases e; simp)+

lemma status_not_204 [simp]:
  "deleteEventType_status e \<noteq> 204" "deleteFunction_status e \<noteq> 204" "deleteSubscription_status e \<noteq> 204"
  "deleteCORS_status e \<noteq> 204"
  by (cases e; simp)+

lemma decode_failed_status: "decode_failed v e = Responds w \<Longrightarrow> status w = 400"
  by (auto simp: decode_failed_def split: if_splits)

text \<open>The three shapes of a handler that writes.\<close>

lemma changes_create:
  assumes "measured ep = Some (res, CreateOp)"
    and "(answer, st') = (case op of (Inl e, st1) \<Rightarrow> (api_error (stat e) e, st1) | (Inr y, st1) \<Rightarrow> (created (doc y), st1))"
    and "\<And>e. stat e \<noteq> 201" and "\<And>e st1. op = (Inl e, st1) \<Longrightarrow> st1 = st"
    and "\<And>y st1. op = (Inr y, st1) \<Longrightarrow> adds res (default_space (space_of r)) st st1"
  shows "changes ep r answer st st'"
  using assms by (auto simp: changes_def split: handled.split prod.splits sum.splits)

lemma changes_update:
  assumes "measured ep = Some (res, UpdateOp)"
    and "(answer, st') = (case op of (Inl e, st1) \<Rightarrow> (a e, st1) | (Inr y, st1) \<Rightarrow> (b y, st1))" and "keeps st (snd op)"
  shows "changes ep r answer st st'"
  using assms by (auto simp: changes_def split: handled.split prod.splits sum.splits)

lemma changes_delete:
  assumes "measured ep = Some (res, DeleteOp)"
    and "(answer, st') = (case op of (Some e, st1) \<Rightarrow> (api_error (stat e) e, st1) | (None, st1) \<Rightarrow> (no_content, st1))"
    and "\<And>e. stat e \<noteq> 204" and "\<And>e st1. op = (Some e, st1) \<Longrightarrow> view st1 = view st"
    and "\<And>st1. op = (None, st1) \<Longrightarrow> removes res (space_of r) st st1"
  shows "changes ep r answer st st'"
  using assms by (auto simp: changes_def keeps_view split: handled.split prod.splits option.splits)

lemma changes_refused:
  assumes "measured ep = Some (res, CreateOp) \<or> measured ep = Some (res, UpdateOp)"
  shows "changes ep r (decode_failed v e) st st"
  using assms by (auto simp: changes_def decode_failed_status split: handled.split)

lemma serve_changes_delete:
  "serve metrics pick E svc DeleteEventTypeEP r st = (answer, st') \<Longrightarrow> changes DeleteEventTypeEP r answer st st'"
  "serve metrics pick E svc DeleteFunctionEP r st = (answer, st') \<Longrightarrow> changes DeleteFunctionEP r answer st st'"
  "serve metrics pick E svc DeleteSubscriptionEP r st = (answer, st') \<Longrightarrow> changes DeleteSubscriptionEP r answer st st'"
  "serve metrics pick E svc DeleteCORSEP r st = (answer, st') \<Longrightarrow> changes DeleteCORSEP r answer st st'"
proof -
  note d = changes_delete [where answer = answer and st' = st' and st = st and r = r]
  show "serve metrics pick E svc DeleteEventTypeEP r st = (answer, st') \<Longrightarrow> changes DeleteEventTypeEP r answer st st'"
    by (rule d [where stat = deleteEventType_status and op = "DeleteEventType svc (space_of r) (ByName (ar_Params r) ''name'') st"])
      (simp_all add: deleteEventType_def, erule failed_delete, erule deletes_remove)
  show "serve metrics pick E svc DeleteFunctionEP r st = (answer, st') \<Longrightarrow> changes DeleteFunctionEP r answer st st'"
    by (rule d [where stat = deleteFunction_status and op = "DeleteFunction svc (space_of r) (ByName (ar_Params r) ''id'') st"])
      (simp_all add: deleteFunction_def, erule failed_delete, erule deletes_remove)
  show "serve metrics pick E svc DeleteSubscriptionEP r st = (answer, st') \<Longrightarrow> changes DeleteSubscriptionEP r answer st st'"
    by (rule d [where stat = deleteSubscription_status and op = "DeleteSubscription svc (space_of r) (ByName (ar_Params r) ''id'') st"])
      (simp_all add: deleteSubscription_def, erule failed_delete, erule deletes_remove)
  show "serve metrics pick E svc DeleteCORSEP r st = (answer, st') \<Longrightarrow> changes DeleteCORSEP r answer st st'"
    by (rule d [where stat = deleteCORS_status and op = "DeleteCORS svc (space_of r) (extractCORSID (ar_RawPath r)) st"])
      (simp_all add: deleteCORS_def, erule failed_delete, erule deletes_remove)
qed

lemma serve_changes_create_EventType:
  "serve metrics pick E svc CreateEventTypeEP r st = (answer, st') \<Longrightarrow> changes CreateEventTypeEP r answer st st'"
proof (cases "decode read_event_type (ar_Body r)")
  case (Inr x)
  assume "serve metrics pick E svc CreateEventTypeEP r st = (answer, st')"
  then show ?thesis
    by (intro changes_create [where res = EventTypes and doc = event_type_json and stat = createEventType_status and op = "CreateEventType E svc (x\<lparr>et_Space := space_of r\<rparr>) st"])
      (simp_all add: createEventType_def Inr, erule creates_fail, drule CreateEventType_adds, simp)
qed (auto simp: createEventType_def intro!: changes_refused)

lemma serve_changes_create_Function:
  "serve metrics pick E svc CreateFunctionEP r st = (answer, st') \<Longrightarrow> changes CreateFunctionEP r answer st st'"
proof (cases "decode (read_func E) (ar_Body r)")
  case (Inr x)
  assume "serve metrics pick E svc CreateFunctionEP r st = (answer, st')"
  then show ?thesis
    by (intro changes_create [where res = Functions and doc = func_json and stat = createFunction_status and op = "CreateFunction E svc (x\<lparr>fn_Space := space_of r\<rparr>) st"])
      (simp_all add: createFunction_def Inr, erule creates_fail, drule CreateFunction_adds, simp)
qed (auto simp: createFunction_def intro!: changes_refused)

lemma serve_changes_create_Subscription:
  "serve metrics pick E svc CreateSubscriptionEP r st = (answer, st') \<Longrightarrow> changes CreateSubscriptionEP r answer st st'"
proof (cases "decode read_subscription (ar_Body r)")
  case (Inr x)
  assume "serve metrics pick E svc CreateSubscriptionEP r st = (answer, st')"
  then show ?thesis
    by (intro changes_create [where res = Subscriptions and doc = subscription_json and stat = createSubscription_status and op = "CreateSubscription pick E svc (x\<lparr>sub_Space := space_of r\<rparr>) st"])
      (simp_all add: createSubscription_def Inr, erule creates_fail, drule CreateSubscription_adds, simp)
qed (auto simp: createSubscription_def intro!: changes_refused)

lemma serve_changes_create_CORS:
  "serve metrics pick E svc CreateCORSEP r st = (answer, st') \<Longrightarrow> changes CreateCORSEP r answer st st'"
proof (cases "decode read_cors (ar_Body r)")
  case (Inr x)
  assume "serve metrics pick E svc CreateCORSEP r st = (answer, st')"
  then show ?thesis
    by (intro changes_create [where res = CORSes and doc = cors_json and stat = createCORS_status and op = "CreateCORS E svc (x\<lparr>cors_Space := space_of r\<rparr>) st"])
      (simp_all add: createCORS_def Inr, erule creates_fail, drule CreateCORS_adds, simp)
qed (auto simp: createCORS_def intro!: changes_refused)

lemma update_handlers_keep:
  "keeps st (snd (serve metrics pick E svc UpdateEventTypeEP r st))" "keeps st (snd (serve metrics pick E svc UpdateFunctionEP r st))"
  "keeps st (snd (serve metrics pick E svc UpdateSubscriptionEP r st))" "keeps st (snd (serve metrics pick E svc UpdateCORSEP r st))"
  by (simp_all add: updateEventType_def updateFunction_def updateSubscription_def updateCORS_def state_of_answer updates_keep
      update_subscription_keeps split: sum.split)

lemma serve_changes_update:
  assumes "serve metrics pick E svc ep r st = (answer, st')" and "measured ep = Some (res, UpdateOp)"
  shows "changes ep r answer st st'"
proof -
  have "keeps st (snd (serve metrics pick E svc ep r st))"
    using assms(2) update_handlers_keep by (cases ep) auto
  then show ?thesis using assms by (auto simp: changes_def split: handled.split)
qed

lemma serve_changes:
  assumes "serve metrics pick E svc ep r st = (answer, st')"
  shows "changes ep r answer st st'"
proof (cases "\<exists>q. service_request E ep r = Some q \<or> measured ep \<noteq> None \<and> snd (the (measured ep)) \<in> {CreateOp, UpdateOp, DeleteOp}")
  case True
  then show ?thesis
    using assms serve_changes_delete serve_changes_create_EventType serve_changes_create_Function
      serve_changes_create_Subscription serve_changes_create_CORS serve_changes_update
    by (cases ep) auto
next
  case False
  then have "st' = st" using serve_state [of metrics pick E svc ep r st] assms by simp
  then show ?thesis using False by (cases ep) (auto simp: changes_def split: handled.split)
qed

subsection \<open>Gauges and keys\<close>

lemma refused_body:
  assumes "serve metrics pick E svc ep r st = (Responds w, st')" and "measured ep = Some (res, CreateOp)"
    and "\<not> body_decodes E res (ar_Body r)"
  shows "status w \<noteq> 201"
  using assms
  by (cases ep) (auto simp: createEventType_def createFunction_def createSubscription_def createCORS_def isl_def
      decode_failed_status)

definition finite_keys :: "'a \<Rightarrow> bool" where
  "finite_keys st \<longleftrightarrow> (\<forall>res. finite (dom (keys_of res st)))"

definition number :: "resource \<Rightarrow> string \<Rightarrow> 'a \<Rightarrow> int" where
  "number res sp st = int (in_space sp (keys_of res st))"

lemma adds_number:
  assumes "adds res a st st'" and "finite_keys st" and "CHR ''/'' \<notin> set a" and "CHR ''/'' \<notin> set sp"
  shows "finite_keys st'" and "number r sp st' = number r sp st + (if r = res then same_space a sp else 0)"
proof -
  obtain i v where iv: "keys_of res st (a @ ''/'' @ i) = None"
    "\<And>r. keys_of r st' = (if r = res then (keys_of res st)(a @ ''/'' @ i \<mapsto> v) else keys_of r st)"
    using assms(1) unfolding adds_def by blast
  show "finite_keys st'" using assms(2) iv(2) by (simp add: finite_keys_def)
  show "number r sp st' = number r sp st + (if r = res then same_space a sp else 0)"
    using assms(2) iv in_space_insert [of "keys_of res st" a i sp v] assms(3,4) by (simp add: number_def finite_keys_def)
qed

lemma removes_number:
  assumes "removes res a st st'" and "finite_keys st" and "CHR ''/'' \<notin> set a" and "CHR ''/'' \<notin> set sp"
  shows "finite_keys st'" and "number r sp st' = number r sp st - (if r = res then same_space a sp else 0)"
proof -
  obtain i where i: "keys_of res st (a @ ''/'' @ i) \<noteq> None"
    "\<And>r. keys_of r st' = (if r = res then (keys_of res st)(a @ ''/'' @ i := None) else keys_of r st)"
    using assms(1) unfolding removes_def by blast
  show "finite_keys st'" using assms(2) i(2) by (simp add: finite_keys_def)
  show "number r sp st' = number r sp st - (if r = res then same_space a sp else 0)"
    using assms(2) i in_space_remove [of "keys_of res st" a i sp] assms(3,4) by (simp add: number_def finite_keys_def)
qed

lemma keeps_number:
  assumes "keeps st st'"
  shows "finite_keys st' = finite_keys st" and "number r sp st' = number r sp st"
  using assms by (simp_all add: keeps_def finite_keys_def number_def in_space_def)

lemma report_gauge:
  "am_gauge (report E ep r answer m) res sp = am_gauge m res sp +
     (case (measured ep, answer) of
        (Some (res', CreateOp), Responds w) \<Rightarrow>
          (if body_decodes E res' (ar_Body r) \<and> status w = 201 \<and> res' = res then same_space (default_space (space_of r)) sp else 0)
      | (Some (res', DeleteOp), Responds w) \<Rightarrow> (if status w = 204 \<and> res' = res then - same_space (space_of r) sp else 0)
      | _ \<Rightarrow> 0)"
  by (auto simp: report_def count_request_def add_gauge_def label_def same_space_def split: option.split handled.split operation.split)

lemma serve_number:
  assumes "serve metrics pick E svc ep r st = (answer, st')" and "finite_keys st" and "CHR ''/'' \<notin> set (space_of r)"
    and "CHR ''/'' \<notin> set sp"
  shows "finite_keys st' \<and> number res sp st' - number res sp st = am_gauge (report E ep r answer m) res sp - am_gauge m res sp"
proof -
  have d: "CHR ''/'' \<notin> set (default_space (space_of r))" using assms(3) by (simp add: default_space_def defaultSpace_def)
  note a = adds_number [OF _ assms(2) d assms(4)] and e = removes_number [OF _ assms(2,3,4)]
  show ?thesis
    using serve_changes [OF assms(1)] assms(1,2) refused_body [of metrics pick E ep r st _ st']
    by (auto simp: changes_def report_gauge a e keeps_number split: option.splits handled.splits operation.splits if_splits)
qed

lemma measured_run_number:
  assumes "measured_run metrics pick E svc rs (st, m) = (st', m')" and "finite_keys st"
    and "\<forall>(ep, r) \<in> set rs. CHR ''/'' \<notin> set (space_of r)" and "CHR ''/'' \<notin> set sp"
  shows "number res sp st' - number res sp st = am_gauge m' res sp - am_gauge m res sp"
  using assms(1-3)
proof (induction rs arbitrary: st m)
  case (Cons er rs)
  obtain ep r where er: "er = (ep, r)" by fastforce
  obtain answer st1 where s: "serve metrics pick E svc ep r st = (answer, st1)" by fastforce
  have "finite_keys st1 \<and> number res sp st1 - number res sp st = am_gauge (report E ep r answer m) res sp - am_gauge m res sp"
    using serve_number [OF s Cons.prems(2) _ assms(4)] Cons.prems(3) er by simp
  moreover from this have "number res sp st' - number res sp st1 = am_gauge m' res sp - am_gauge (report E ep r answer m) res sp"
    using Cons.prems er s by (intro Cons.IH) auto
  ultimately show ?case by simp
qed simp

end

subsection \<open>The gauges of a gateway\<close>

fun resource_root :: "resource \<Rightarrow> string" where
  "resource_root EventTypes = eventtypes_root"
| "resource_root Functions = functions_root"
| "resource_root Subscriptions = subscriptions_root"
| "resource_root CORSes = cors_root"

abbreviation entities :: "resource \<Rightarrow> string \<Rightarrow> (string \<Rightarrow> blob option) \<Rightarrow> int" where
  "entities res sp db \<equiv> int (in_space sp (below (resource_root res) db))"

lemma finite_below: "finite (dom m) \<Longrightarrow> finite (dom (below r m))"
proof -
  assume f: "finite (dom m)"
  have "dom (below r m) \<subseteq> (\<lambda>k. drop (length (prefixed_root r)) k) ` dom m"
    by (force simp: below_def image_iff dom_def)
  then show ?thesis using f finite_subset by blast
qed

text \<open>C20: The gauges count: on a database that answers, over any sequence of requests to the API, each
  gauge changes for each space by exactly as much as the number of stored entities of that kind
  in that space. So a gauge is that number if the process started on an empty database and is the
  only one that writes to it.\<close>

theorem gauges_count_entities:
  assumes "reliable_kv_store kv contents rest" and "finite (dom (contents st))"
    and "\<forall>(ep, r) \<in> set rs. CHR ''/'' \<notin> set (space_of r)" and "CHR ''/'' \<notin> set sp"
    and "measured_run metrics pick E (main_service kv) rs (st, m) = (st', m')"
  shows "am_gauge m' res sp - am_gauge m res sp = entities res sp (contents st') - entities res sp (contents st)"
proof -
  note main = main_reliable_config_stores [OF assms(1)]
  note keys = reliable_config_stores.keys_of.simps [OF main]
  have n: "reliable_config_stores.number (\<lambda>st. below eventtypes_root (contents st)) (\<lambda>st. below functions_root (contents st))
      (\<lambda>st. below subscriptions_root (contents st)) (\<lambda>st. below cors_root (contents st)) res sp s = entities res sp (contents s)" for s
    by (cases res) (simp_all add: reliable_config_stores.number_def [OF main] keys)
  have "reliable_config_stores.finite_keys (\<lambda>st. below eventtypes_root (contents st)) (\<lambda>st. below functions_root (contents st))
      (\<lambda>st. below subscriptions_root (contents st)) (\<lambda>st. below cors_root (contents st)) st"
    unfolding reliable_config_stores.finite_keys_def [OF main]
  proof
    fix r
    show "finite (dom (reliable_config_stores.keys_of (\<lambda>st. below eventtypes_root (contents st)) (\<lambda>st. below functions_root (contents st))
      (\<lambda>st. below subscriptions_root (contents st)) (\<lambda>st. below cors_root (contents st)) r st))"
      by (cases r) (simp_all add: keys finite_below assms(2))
  qed
  from reliable_config_stores.measured_run_number [OF main assms(5) this assms(3,4), of res] show ?thesis
    by (simp add: n)
qed

theorem gauges_count_entities_witness:
  "am_gauge (snd (measured_run Aborted (\<lambda>_. 0) plain_env (main_service mem_kv)
       [(CreateFunctionEP, ex_request (Doc (func_json ex_func)))] ([], zero_metrics))) Functions ''default'' =
     entities Functions ''default'' (map_of (fst (measured_run Aborted (\<lambda>_. 0) plain_env (main_service mem_kv)
       [(CreateFunctionEP, ex_request (Doc (func_json ex_func)))] ([], zero_metrics))))"
  using gauges_count_entities [OF mem.reliable_kv_store_axioms, of "[]" "[(CreateFunctionEP, ex_request (Doc (func_json ex_func)))]"
      "''default''" Aborted "\<lambda>_. 0" plain_env zero_metrics _ _ Functions]
  by (cases "measured_run Aborted (\<lambda>_. 0) plain_env (main_service mem_kv)
       [(CreateFunctionEP, ex_request (Doc (func_json ex_func)))] ([], zero_metrics)")
    (simp add: ex_request_def ByName_def zero_metrics_def in_space_def below_def)

end
