(* ===== verification/RouterHazards.thy ===== *)
theory RouterHazards
  imports RouterProps
begin

section \<open>Where the router misbehaves\<close>

text \<open>
  Consequences of the code that its authors will not have meant: the authorization of one space
  reaches the functions of another, an authorizer on a system event type or a forged HTTP event
  ends in a panic, and extensions are lost.
\<close>

subsection \<open>Authorization\<close>

text \<open>What the authorizer of the event's type in a space grants, if it does.\<close>

definition granted :: "router \<Rightarrow> string \<Rightarrow> event \<Rightarrow> http_request \<Rightarrow> router_state \<Rightarrow> authorization option option" where
  "granted R space e r st =
     (case target_EventType (r_target R) space (ev_EventType e) of
        None \<Rightarrow> None
      | Some t \<Rightarrow>
          (case et_AuthorizerID t of
             None \<Rightarrow> None
           | Some a \<Rightarrow>
               (case target_Function (r_target R) space a of
                  None \<Rightarrow> None
                | Some f \<Rightarrow>
                    (case func_Call (r_world R (rs_calls st)) f (authorizer_payload R e r st) of
                       CallReturns bytes None \<Rightarrow>
                         (case read_authorizer_response (r_env R) bytes of Inr (au, None) \<Rightarrow> Some au | _ \<Rightarrow> None)
                     | _ \<Rightarrow> None))))"

text \<open>The extensions hold the map under \<^verbatim>\<open>eventgateway\<close> at address \<open>k\<close>.\<close>

definition own_extensions :: "event \<Rightarrow> heap \<Rightarrow> addr \<Rightarrow> bool" where
  "own_extensions e h k \<longleftrightarrow> k < length (hp_Maps h) \<and>
     (\<exists>x. ev_Extensions e = Some x \<and> fmlookup x ''eventgateway'' = Some (ExtMap k))"

lemma authorize_granted:
  assumes "granted R space e r st = Some au" and "own_extensions e (rs_heap st) k"
  shows "\<exists>cs. authorizeEventType R space e (Some r) st = (Value (None, e), st\<lparr>rs_calls := cs, rs_heap := (rs_heap st)\<lparr>
    hp_Maps := (hp_Maps (rs_heap st))[k := fmupd ''authorization'' (authorization_json au) (hp_Maps (rs_heap st) ! k)]\<rparr>\<rparr>)"
  using assms
  by (auto simp: granted_def own_extensions_def authorizeEventType_def authorizer_payload_def call_target_def bnd_def ret_def
      gets_def set_authorization_def Let_def split: option.splits call_result.splits sum.splits prod.splits)

lemma async_granted:
  assumes "shallow_copier R" and "granted R (as_Space s) e r st = Some au" and "own_extensions e (rs_heap st) k"
    and "rs_backlog st = Some q" and "length q < r_backlogLength R"
  shows "\<exists>st'. (\<forall>ss. async_loop R me path e (Some r) (s # ss) st = async_loop R me path e (Some r) ss st') \<and>
    rs_backlog st' = Some (q @ [work_for me path e s]) \<and> own_extensions e (rs_heap st') k \<and>
    fmlookup (hp_Maps (rs_heap st') ! k) ''authorization'' = Some (authorization_json au)"
proof -
  let ?h = "(rs_heap st)\<lparr>
    hp_Maps := (hp_Maps (rs_heap st))[k := fmupd ''authorization'' (authorization_json au) (hp_Maps (rs_heap st) ! k)]\<rparr>"
  obtain cs where a: "authorizeEventType R (as_Space s) e (Some r) st = (Value (None, e), st\<lparr>rs_calls := cs, rs_heap := ?h\<rparr>)"
    using authorize_granted [OF assms(2,3)] by blast
  let ?st' = "st\<lparr>rs_calls := cs, rs_heap := ?h, rs_backlog := Some (q @ [work_for me path e s])\<rparr>"
  have "async_loop R me path e (Some r) (s # ss) st = async_loop R me path e (Some r) ss ?st'" for ss
    using assms(4,5) by (simp add: bnd_Value [OF copy_shallow [OF assms(1)]] bnd_Value [of "authorizeEventType R (as_Space s) e (Some r)", OF a])
      (simp add: bnd_def enqueueWork_def modify_def work_for_def)
  moreover have "own_extensions e (rs_heap ?st') k"
    and "fmlookup (hp_Maps (rs_heap ?st') ! k) ''authorization'' = Some (authorization_json au)"
    using assms(3) by (auto simp: own_extensions_def)
  ultimately show ?thesis by (intro exI [of _ ?st']) simp
qed

text \<open>C40: The authorization of one space reaches the functions of another: when two async subscribers in
  different spaces both have an authorizer that grants the event, both get the same event
  object, and its authorization is the one that the second space's authorizer gave. The copy
  that the router makes for each subscriber is shallow and shares the map.\<close>

theorem shared_authorization_leaks:
  assumes "shallow_copier R" and "own_extensions e (rs_heap st) k"
    and "rs_backlog st = Some q" and "Suc (length q) < r_backlogLength R"
    and "granted R (as_Space s1) e r st = Some au1"
    and "granted R (as_Space s2) e r (snd (async_loop R me path e (Some r) [s1] st)) = Some au2"
  shows "\<exists>st'. async_loop R me path e (Some r) [s1, s2] st = (Value (), st') \<and>
    rs_backlog st' = Some (q @ [work_for me path e s1, work_for me path e s2]) \<and>
    fmlookup (hp_Maps (rs_heap st') ! k) ''authorization'' = Some (authorization_json au2)"
proof -
  obtain st1 where 1: "\<forall>ss. async_loop R me path e (Some r) (s1 # ss) st = async_loop R me path e (Some r) ss st1"
    "rs_backlog st1 = Some (q @ [work_for me path e s1])" "own_extensions e (rs_heap st1) k"
    using async_granted [OF assms(1,5,2,3), of me path] assms(4) by auto
  have "granted R (as_Space s2) e r st1 = Some au2"
    using assms(6) unfolding 1(1) [rule_format] by (simp add: ret_def)
  then obtain st2 where 2: "\<forall>ss. async_loop R me path e (Some r) (s2 # ss) st1 = async_loop R me path e (Some r) ss st2"
    "rs_backlog st2 = Some ((q @ [work_for me path e s1]) @ [work_for me path e s2])"
    "fmlookup (hp_Maps (rs_heap st2) ! k) ''authorization'' = Some (authorization_json au2)"
    using async_granted [OF assms(1) _ 1(3,2), of s2 r au2 me path] assms(4) by auto
  have "async_loop R me path e (Some r) [s1, s2] st = (Value (), st2)"
    unfolding 1(1) [rule_format] 2(1) [rule_format] by (simp add: ret_def)
  then show ?thesis using 2(2,3) by simp
qed

text \<open>Two spaces whose authorizers name two principals.\<close>

definition principal :: "string \<Rightarrow> json" where
  "principal p = JObj [(''authorization'', JObj [(''principalId'', JStr p)])]"

definition two_spaces :: router where
  "two_spaces = (ex_router ((plain_event_env JNull)\<lparr>ee_parse := (\<lambda>s. Some (principal s))\<rparr>)
     (no_target\<lparr>
        eventTypeCache := (\<lambda>(sp, n). if sp \<in> {''a'', ''b''} \<and> n = ''user.created'' then Some ex_authorized_type else None),
        functionCache := (\<lambda>(sp, n). if n = ''auth'' then Some ex_func else None)\<rparr>) [])
     \<lparr>r_world := (\<lambda>cs. answer_world (if cs = [] then ''A'' else ''B''))\<rparr>"

definition ex_extended :: event where
  "ex_extended = with_extensions (Some (fmap_of_list [(''eventgateway'', ExtMap 0)])) ex_event"

lemma ex_extended_type [simp]: "ev_EventType ex_extended = ''user.created''"
  by (simp add: ex_extended_def ex_event_def with_extensions_def)

lemma two_spaces_simps [simp]:
  "shallow_copier two_spaces" "r_backlogLength two_spaces = 2"
  "sp \<in> {''a'', ''b''} \<Longrightarrow> target_EventType (r_target two_spaces) sp ''user.created'' = Some ex_authorized_type"
  "target_Function (r_target two_spaces) sp ''auth'' = Some ex_func"
  "r_world two_spaces cs = answer_world (if cs = [] then ''A'' else ''B'')"
  by (auto simp: two_spaces_def shallow_copier_def ex_router_def target_EventType_def target_Function_def)

lemma read_principal: "read_authorizer_response (r_env two_spaces) p = Inr (Some \<lparr>au_PrincipalID = p, au_Context = None\<rparr>, None)"
  by (simp add: two_spaces_def read_authorizer_response_def principal_def json_members_def field_values_def json_fields)

lemma granted_two_spaces:
  assumes "sp \<in> {''a'', ''b''}"
  shows "granted two_spaces sp ex_extended r st =
    Some (Some \<lparr>au_PrincipalID = if rs_calls st = [] then ''A'' else ''B'', au_Context = None\<rparr>)"
  using two_spaces_simps(3) [OF assms] by (simp add: granted_def ex_authorized_type_def read_principal)

theorem shared_authorization_leaks_witness:
  "\<exists>st'. async_loop two_spaces ''POST'' ''/'' ex_extended (Some (ex_http [] ''x''))
      [\<lparr>as_Space = ''a'', as_FunctionID = ''f''\<rparr>, \<lparr>as_Space = ''b'', as_FunctionID = ''g''\<rparr>]
      (started\<lparr>rs_heap := \<lparr>hp_Maps = [fmempty], hp_Reqs = []\<rparr>\<rparr>) = (Value (), st') \<and>
    fmlookup (hp_Maps (rs_heap st') ! 0) ''authorization'' =
      Some (authorization_json (Some \<lparr>au_PrincipalID = ''B'', au_Context = None\<rparr>))"
proof -
  let ?st = "started\<lparr>rs_heap := \<lparr>hp_Maps = [fmempty], hp_Reqs = []\<rparr>\<rparr>"
  let ?s = "\<lparr>as_Space = ''a'', as_FunctionID = ''f''\<rparr>"
  have o: "own_extensions ex_extended (rs_heap ?st) 0"
    by (simp add: own_extensions_def ex_extended_def with_extensions_def)
  have g: "granted two_spaces ''a'' ex_extended (ex_http [] ''x'') ?st =
      Some (Some \<lparr>au_PrincipalID = ''A'', au_Context = None\<rparr>)" by (simp add: granted_two_spaces)
  have "rs_calls (snd (async_loop two_spaces ''POST'' ''/'' ex_extended (Some (ex_http [] ''x'')) [?s] ?st)) \<noteq> []"
    using two_spaces_simps(3) [of "''a''"]
    by (simp add: bnd_def copy_event_def shallow_copier_def [THEN iffD1, rule_format, OF two_spaces_simps(1)]
        authorizeEventType_def ex_authorized_type_def call_target_def gets_def ret_def Let_def read_principal
        set_authorization_def ex_extended_def with_extensions_def ex_event_def enqueueWork_def modify_def)
  then show ?thesis
    using shared_authorization_leaks [OF two_spaces_simps(1) o, of "[]" ?s "ex_http [] ''x''" _ "\<lparr>as_Space = ''b'', as_FunctionID = ''g''\<rparr>"] g
    by (force simp: granted_two_spaces)
qed

text \<open>An authorization replaces all extensions of an event that has none of the gateway's: the
  client's own are lost, although the map is there (router.go:349).\<close>

theorem authorization_drops_extensions:
  assumes "granted R space e r st = Some au" and "ev_Extensions e = Some x" and "fmlookup x ''eventgateway'' = None"
  shows "\<exists>st' a. authorizeEventType R space e (Some r) st =
    (Value (None, with_extensions (Some (fmap_of_list [(''eventgateway'', ExtMap a)])) e), st') \<and>
    hp_Maps (rs_heap st') ! a = fmap_of_list [(''authorization'', authorization_json au)]"
  using assms
  by (auto simp: granted_def authorizeEventType_def authorizer_payload_def call_target_def bnd_def ret_def
      gets_def set_authorization_def new_map_def Let_def split: option.splits call_result.splits sum.splits prod.splits)

theorem authorization_drops_extensions_witness:
  "\<exists>st' a. authorizeEventType two_spaces ''a'' (with_extensions (Some (fmap_of_list [(''traceId'', ExtJson (JStr ''7''))])) ex_event)
      (Some (ex_http [] ''x'')) started =
    (Value (None, with_extensions (Some (fmap_of_list [(''eventgateway'', ExtMap a)])) ex_event), st')"
proof -
  let ?e = "with_extensions (Some (fmap_of_list [(''traceId'', ExtJson (JStr ''7''))])) ex_event"
  have "granted two_spaces ''a'' ?e (ex_http [] ''x'') started =
      Some (Some \<lparr>au_PrincipalID = ''A'', au_Context = None\<rparr>)"
    using two_spaces_simps(3) [of "''a''"]
    by (simp add: granted_def ex_authorized_type_def read_principal with_extensions_def ex_event_def)
  from authorization_drops_extensions [OF this] show ?thesis
    by (fastforce simp: with_extensions_def)
qed

subsection \<open>Panics\<close>

text \<open>An authorizer on a system event type brings the gateway down: once some async subscriber of
  \<^verbatim>\<open>eventgateway.function.invoking\<close> is in a space where that type has an authorizer, the first
  ordinary event that a worker processes for the matching path panics, before its function is
  called; system events have no HTTP request to authorize, and \<^verbatim>\<open>NewHTTPRequestData(nil)\<close>
  dereferences it.\<close>

theorem system_event_authorizer_panics:
  assumes "shallow_copier R" and "\<not> IsSystem (be_event b)"
    and "AsyncSubscribers (subscriptionCache (r_target R)) ''POST'' (pr_systemPathFromSpace (r_paths R) (be_space b))
           SystemFunctionInvokingType = s # ss"
    and "target_EventType (r_target R) (as_Space s) SystemFunctionInvokingType = Some t" and "et_AuthorizerID t = Some a"
  shows "fst (processEvent R b st) = Panic \<and> rs_calls (snd (processEvent R b st)) = rs_calls st"
proof -
  obtain ev h where n: "New (r_env R) (r_now R (rs_events st)) (r_uuid R (rs_events st)) SystemFunctionInvokingType mimeJSON
      (SystemFunctionInvokingData (be_space b) (be_functionID b) (be_event b)) (rs_heap st) = (ev, h)" by fastforce
  then have "ev_EventType ev = SystemFunctionInvokingType" by (auto simp: New_def new_map_def)
  then show ?thesis
    using n assms by (simp add: processEvent_def callFunction_def emitSystemFunctionInvoking_def emit_function_event_def
        new_event_def bnd_def handleAsyncSubscriptions_def copy_event_def shallow_copier_def authorizeEventType_def panic_def)
qed

theorem system_event_authorizer_panics_witness:
  "fst (processEvent (ex_router (plain_event_env JNull) ((subscribed SystemFunctionInvokingType [(''default'', ''audit'')])
      \<lparr>eventTypeCache := (\<lambda>_. Some ex_authorized_type)\<rparr>) ''x'')
    \<lparr>be_space = ''default'', be_functionID = ''f'', be_method = ''POST'', be_path = ''/'', be_event = ex_event\<rparr> started) = Panic"
  using system_event_authorizer_panics [OF ex_shallow, of
      "\<lparr>be_space = ''default'', be_functionID = ''f'', be_method = ''POST'', be_path = ''/'', be_event = ex_event\<rparr>"
      "plain_event_env JNull" "(subscribed SystemFunctionInvokingType [(''default'', ''audit'')])
      \<lparr>eventTypeCache := (\<lambda>_. Some ex_authorized_type)\<rparr>" "''x''"]
  by (simp add: IsSystem_def ex_event_def has_prefix_def target_EventType_def ex_authorized_type_def)

text \<open>A CloudEvent that claims the type \<^verbatim>\<open>http.request\<close> makes the handler panic when a sync subscriber is
  there for it: its data is whatever the client sent, not the \<^verbatim>\<open>HTTPRequestData\<close> that the type
  assertion expects, and only the types of system events are refused.\<close>

theorem forged_http_event_panics:
  assumes "no_cors R r" and "\<not> rs_draining st" and "quiet R r"
    and "request_event R r st = Returns (e, h)" and "ev_EventType e = TypeHTTPRequest" and "ev_Data e = Plain d"
    and "SyncSubscriber (r_pick R) (subscriptionCache (r_target R)) (rq_Method r) (request_path R r) (ev_EventType e) = Some s"
    and "unguarded R e (ss_Space s)"
  shows "fst (ServeHTTP R r st) = Aborted"
proof -
  let ?st1 = "st\<lparr>rs_heap := h, rs_events := Suc (rs_events st)\<rparr>"
  have f: "event_from_request R r st = (Value (Inr e), ?st1)"
    by (simp add: event_from_request_cases assms(4))
  obtain st2 where s: "emitSystemEventReceived R (request_path R r) e r ?st1 = (Value None, st2)"
    using quiet_received [OF assms(3)] by blast
  have y: "\<not> IsSystem e" using assms(5) by (simp add: IsSystem_def TypeHTTPRequest_def has_prefix_def)
  have "handleSyncSubscription R e s w r st2 = (Panic, st2)" for w
    by (simp add: handleSyncSubscription_def bnd_Value [OF authorize_unguarded [OF assms(8)]] assms(5,6)) (simp add: panic_def)
  then show ?thesis
    using y by (simp add: ServeHTTP_def serve_without_cors [OF assms(1,2)] event_handler_def
        bnd_Value [of "event_from_request R r", OF f] bnd_Value [of "emitSystemEventReceived R (request_path R r) e r", OF s]
        assms(7) bnd_Panic)
qed

definition forged_members :: members where
  "forged_members = [(''eventType'', JStr ''http.request''), (''cloudEventsVersion'', JStr ''0.1''), (''source'', JStr ''/a''),
     (''eventID'', JStr ''1''), (''data'', JStr ''x'')]"

lemma forged_fields:
  "get_string forged_members ''eventType'' = Inr ''http.request''" "get_string forged_members ''eventTypeVersion'' = Inr ''''"
  "get_string forged_members ''cloudEventsVersion'' = Inr ''0.1''" "get_string forged_members ''source'' = Inr ''/a''"
  "get_string forged_members ''eventID'' = Inr ''1''" "field_values forged_members ''eventTime'' = []"
  "get_string forged_members ''schemaURL'' = Inr ''''" "field_values forged_members ''extensions'' = []"
  "get_string forged_members ''contentType'' = Inr ''''" "field_values forged_members ''data'' = [JStr ''x'']"
  by (simp_all add: forged_members_def get_string_def field_values_def json_fields)

definition forged :: event where
  "forged = Event ''http.request'' '''' ''0.1'' ''/a'' ''1'' None '''' None '''' (Plain (PJson (JStr ''x'')))"

lemma forged_valid:
  "Validate (plain_event_env j) forged = None" "with_data (normalize_data E (ev_Data forged) m) forged = forged"
  "ee_parse (plain_event_env j) ''{...}'' = Some j"
  by (simp_all add: Validate_None plain_event_env_def forged_def with_data_def normalize_data_def normalizePayload_def)

definition answering :: target where
  "answering = no_target\<lparr>subscriptionCache := set_sync ''POST'' ''http.request''
     (set_value NewNode (Some (''default'', ''f''))) newSubscriptionCache\<rparr>"

theorem forged_http_event_panics_witness:
  "fst (ServeHTTP (ex_router (plain_event_env (JObj forged_members)) answering ''x'')
    (ex_http [(''Content-Type'', ''application/cloudevents+json'', [])] ''{...}'') started) = Aborted"
proof -
  let ?R = "ex_router (plain_event_env (JObj forged_members)) answering ''x''"
  let ?r = "ex_http [(''Content-Type'', ''application/cloudevents+json'', [])] ''{...}''"
  have "read_event E (JObj forged_members) h = Inr (forged, h)" for E h
    by (simp add: read_event_def json_members_def forged_fields forged_def load_extensions_def any_payload_def)
  then have "request_event ?R ?r started = Returns (forged, no_heap)"
    by (simp add: request_event_def FromRequest_def ex_http_def Header_Get_def canonical_keys media_types
        mimeCloudEventsJSON_def parseAsCloudEvent_def forged_valid)
  moreover have "SyncSubscriber (r_pick ?R) (subscriptionCache (r_target ?R)) ''POST'' ''/'' ''http.request'' =
      Some \<lparr>ss_Space = ''default'', ss_FunctionID = ''f'', ss_Params = None\<rparr>"
    by (simp add: SyncSubscriber_def answering_def set_sync_def newSubscriptionCache_def inner_def no_target_def
        Resolve_def set_value_def NewNode_def)
  ultimately show ?thesis
    using forged_http_event_panics [OF ex_no_cors, of answering started "plain_event_env (JObj forged_members)" "''x''" ?r
        forged no_heap "PJson (JStr ''x'')" "\<lparr>ss_Space = ''default'', ss_FunctionID = ''f'', ss_Params = None\<rparr>"]
    by (simp add: answering_def no_target_def quiet_def AsyncSubscribers_def set_sync_def newSubscriptionCache_def inner_def
        forged_def TypeHTTPRequest_def unguarded_def target_EventType_def newEventTypeCache_def)
qed

text \<open>An error answer has no content type: the code sets it after the status is written.\<close>

theorem error_answer_without_content_type:
  assumes "rw_Sent w = None" and "rw_Header w = []"
  shows "sent_headers (error_answer code m w) = []"
  using assms by (simp add: error_answer_def sent_headers_def)

theorem error_answer_without_content_type_witness:
  "sent_headers (error_answer 500 ''failed'' new_response) = []"
  using error_answer_without_content_type [of new_response] by (simp add: new_response_def)

end
