(* ===== verification/Plugins.thy ===== *)
theory Plugins
  imports RouterHazards
begin

section \<open>The plugin processes (plugin/reacter.go, manager.go, logger.go)\<close>

text \<open>
  A plugin is a process of its own that the gateway starts and talks to over \<^verbatim>\<open>net/rpc\<close>, whose
  messages are encoded with \<^verbatim>\<open>encoding/gob\<close>: the client and the server of the interface
  \<^verbatim>\<open>Reacter\<close>, the start and the end of the processes, and the adapter of their log.

  The manager of theory Router works on any \<open>plugin\<close>; here are those that it gets from
  \<^verbatim>\<open>NewManager\<close>. External: third-party go-plugin (it starts a process, connects to it and makes
  errors ready for the wire) and the connection, which may fail at any call.
\<close>

subsection \<open>What can be sent\<close>

text \<open>
  Gob sends the value of an interface only if its type was registered; the basic types are from
  the start. The fields of an event that are interfaces are \<^verbatim>\<open>Data\<close>, with what it contains, and
  the error of a failed call. The values of extensions count as sendable: for them refusals are
  among the failures of the connection.
\<close>

datatype go_type =
    GoString | GoNumber | GoBool | GoBytes
  | GoMap
  | GoSlice
  | GoHTTPRequestData
  | GoSystemEventReceivedData
  | GoSystemFunctionInvokingData
  | GoSystemFunctionInvokedData
  | GoSystemFunctionInvocationFailedData
  | GoError

definition registered :: "go_type list" where
  "registered =
     [GoString, GoNumber, GoBool, GoBytes,
      GoMap, GoSystemEventReceivedData, GoSystemFunctionInvokingData, GoSystemFunctionInvokedData,
      GoSystemFunctionInvocationFailedData]"

fun json_types :: "json \<Rightarrow> go_type list" where
  "json_types JNull = []"
| "json_types (JBool b) = [GoBool]"
| "json_types (JNum n) = [GoNumber]"
| "json_types (JStr s) = [GoString]"
| "json_types (JArr js) = GoSlice # concat (map json_types js)"
| "json_types (JObj ms) = GoMap # concat (map (\<lambda>(k, j). json_types j) ms)"

definition payload_types :: "payload \<Rightarrow> go_type list" where
  "payload_types p = (case p of PNil \<Rightarrow> [] | PBytes b \<Rightarrow> [GoBytes] | PJson j \<Rightarrow> json_types j)"

fun event_types :: "event \<Rightarrow> go_type list" and data_types :: "event_data \<Rightarrow> go_type list" where
  "event_types (Event t tv cv s i tm u x ct d) = data_types d"
| "data_types (Plain p) = payload_types p"
| "data_types (HTTPRequestData a) = [GoHTTPRequestData]"
| "data_types (SystemEventReceivedData p e hs) = GoSystemEventReceivedData # event_types e"
| "data_types (SystemFunctionInvokingData sp i e) = GoSystemFunctionInvokingData # event_types e"
| "data_types (SystemFunctionInvokedData sp i e r) = GoSystemFunctionInvokedData # event_types e"
| "data_types (SystemFunctionInvocationFailedData sp i e err) =
     GoSystemFunctionInvocationFailedData # event_types e @ [GoError]"

definition encodable :: "event \<Rightarrow> bool" where
  "encodable e \<longleftrightarrow> set (event_types e) \<subseteq> set registered"

lemma event_types_data [simp]: "event_types e = data_types (ev_Data e)"
  by (cases e) simp

subsection \<open>The RPC client and server (reacter.go)\<close>

text \<open>The interface \<^verbatim>\<open>Reacter\<close>, as a plugin implements it.\<close>

record reacter =
  re_Subscriptions :: "router_state \<Rightarrow> (string \<times> plugin_type) list"
  re_React :: "router_state \<Rightarrow> event \<Rightarrow> string option"

datatype rpc_request = Plugin_Subscriptions | Plugin_React event

text \<open>
  A connection: the plugin at its other end, the failures of calls that have nothing to do with
  types (the process is gone, the connection closed), and go-plugin's \<^verbatim>\<open>NewBasicError\<close>.
\<close>

record rpc_conn =
  rc_Reacter :: reacter
  rc_fault :: "router_state \<Rightarrow> rpc_request \<Rightarrow> string option"
  rc_NewBasicError :: "string option \<Rightarrow> string option"

definition ReacterServer_Subscriptions :: "rpc_conn \<Rightarrow> router_state \<Rightarrow> (string \<times> plugin_type) list" where
  "ReacterServer_Subscriptions c st = re_Subscriptions (rc_Reacter c) st"

definition ReacterServer_React :: "rpc_conn \<Rightarrow> router_state \<Rightarrow> event \<Rightarrow> string option" where
  "ReacterServer_React c st e = rc_NewBasicError c (re_React (rc_Reacter c) st e)"

text \<open>\<^verbatim>\<open>rpc.Client.Call\<close>: the arguments are encoded, sent, and the server answers.\<close>

definition rpc_Call :: "rpc_conn \<Rightarrow> router_state \<Rightarrow> rpc_request \<Rightarrow> 'a \<Rightarrow> (string, 'a) res" where
  "rpc_Call c st req answer =
     (if (case req of Plugin_Subscriptions \<Rightarrow> True | Plugin_React e \<Rightarrow> encodable e)
      then (case rc_fault c st req of Some m \<Rightarrow> Inl m | None \<Rightarrow> Inr answer)
      else Inl ''gob: type not registered for interface'')"

definition ReacterClient_Subscriptions :: "rpc_conn \<Rightarrow> router_state \<Rightarrow> (string \<times> plugin_type) list" where
  "ReacterClient_Subscriptions c st =
     (case rpc_Call c st Plugin_Subscriptions (ReacterServer_Subscriptions c st) of
        Inl _ \<Rightarrow> []
      | Inr subs \<Rightarrow> subs)"

definition ReacterClient_React :: "rpc_conn \<Rightarrow> router_state \<Rightarrow> event \<Rightarrow> string option" where
  "ReacterClient_React c st e =
     (case rpc_Call c st (Plugin_React e) (ReacterServer_React c st e) of
        Inl err \<Rightarrow> Some err
      | Inr err \<Rightarrow> err)"

subsection \<open>The processes (manager.go)\<close>

text \<open>
  go-plugin, as far as the manager uses it: \<^verbatim>\<open>Client\<close> starts the program at a path, \<^verbatim>\<open>Dispense\<close>
  returns the object for the name \<^verbatim>\<open>reacter\<close>, which is the client above or something else.
\<close>

record plugin_host =
  ph_Client :: "string \<Rightarrow> string option"
  ph_Dispense :: "string \<Rightarrow> (string, rpc_conn option) res"

definition rpc_plugin :: "string \<Rightarrow> rpc_conn \<Rightarrow> plugin" where
  "rpc_plugin path c =
     \<lparr>pl_Path = path, pl_Subscriptions = ReacterClient_Subscriptions c, pl_React = ReacterClient_React c\<rparr>"

text \<open>The result comes with the programs that were started: they run on after an error.\<close>

fun NewManager_loop ::
  "plugin_host \<Rightarrow> plugin list \<Rightarrow> string list \<Rightarrow> string list \<Rightarrow> (string, plugin list) res \<times> string list" where
  "NewManager_loop H reacters running [] = (Inr reacters, running)"
| "NewManager_loop H reacters running (path # paths) =
     (case ph_Client H path of
        Some err \<Rightarrow> (Inl err, running)
      | None \<Rightarrow>
          (case ph_Dispense H path of
             Inl err \<Rightarrow> (Inl err, running @ [path])
           | Inr (Some c) \<Rightarrow> NewManager_loop H (reacters @ [rpc_plugin path c]) (running @ [path]) paths
           | Inr None \<Rightarrow> NewManager_loop H reacters (running @ [path]) paths))"

definition NewManager :: "plugin_host \<Rightarrow> string list \<Rightarrow> string list \<Rightarrow> (string, plugin list) res \<times> string list" where
  "NewManager H paths running = NewManager_loop H [] running paths"

text \<open>\<^verbatim>\<open>CleanupClients\<close> kills every managed program.\<close>

definition Kill :: "string list \<Rightarrow> string list" where
  "Kill running = []"

subsection \<open>The log of go-plugin (logger.go)\<close>

text \<open>
  An argument of a log call is a string or has the text that \<^verbatim>\<open>%v\<close> prints. \<^verbatim>\<open>argsToFields\<close> takes
  them in pairs of a name, which must be a string, and a value; anything else panics.
\<close>

datatype log_arg = StringArg string | OtherArg string

definition arg_text :: "log_arg \<Rightarrow> string" where
  "arg_text a = (case a of StringArg s \<Rightarrow> s | OtherArg s \<Rightarrow> s)"

fun argsToFields :: "log_arg list \<Rightarrow> (string \<times> string) list result" where
  "argsToFields [] = Value []"
| "argsToFields (StringArg k # v # as) =
     (case argsToFields as of Value fs \<Rightarrow> Value ((k, arg_text v) # fs) | Panic \<Rightarrow> Panic)"
| "argsToFields _ = Panic"

datatype zap_level = ZapDebug | ZapInfo | ZapWarn | ZapError

text \<open>What the adapter asks zap to do.\<close>

datatype zap_call =
    ZapLog zap_level string "(string \<times> string) list"
  | ZapWith "(string \<times> string) list"
  | ZapNamed string

datatype hclog_level = Trace | Debug | Info | Warn | Error

definition zap_of :: "hclog_level \<Rightarrow> zap_level option" where
  "zap_of l =
     (case l of Trace \<Rightarrow> None | Debug \<Rightarrow> Some ZapDebug | Info \<Rightarrow> Some ZapInfo | Warn \<Rightarrow> Some ZapWarn
      | Error \<Rightarrow> Some ZapError)"

definition Hclog_log :: "hclog_level \<Rightarrow> string \<Rightarrow> log_arg list \<Rightarrow> zap_call list result" where
  "Hclog_log l msg as =
     (case zap_of l of
        None \<Rightarrow> Value []
      | Some z \<Rightarrow> (case argsToFields as of Value fs \<Rightarrow> Value [ZapLog z msg fs] | Panic \<Rightarrow> Panic))"

text \<open>The tests for a level all answer no.\<close>

definition Hclog_Is :: "hclog_level \<Rightarrow> bool" where
  "Hclog_Is l = False"

definition Hclog_With :: "log_arg list \<Rightarrow> zap_call list result" where
  "Hclog_With as = (case argsToFields as of Value fs \<Rightarrow> Value [ZapWith fs] | Panic \<Rightarrow> Panic)"

definition Hclog_Named :: "string \<Rightarrow> zap_call list" where
  "Hclog_Named n = [ZapNamed n]"

text \<open>The arguments are pairs whose first part is a string, exactly then a call returns.\<close>

fun well_formed_args :: "log_arg list \<Rightarrow> bool" where
  "well_formed_args [] = True"
| "well_formed_args [a] = False"
| "well_formed_args (k # v # as) = ((case k of StringArg s \<Rightarrow> True | OtherArg s \<Rightarrow> False) \<and> well_formed_args as)"

lemma argsToFields_panics: "argsToFields as = Panic \<longleftrightarrow> \<not> well_formed_args as"
proof (induction as rule: well_formed_args.induct)
  case (2 a)
  show ?case by (cases a) simp_all
next
  case (3 k v as)
  then show ?case by (cases k) (auto split: result.split)
qed simp

lemma hclog_returns: "Hclog_log l msg as = Panic \<longleftrightarrow> l \<noteq> Trace \<and> \<not> well_formed_args as"
  using argsToFields_panics [of as] by (cases l) (auto simp: Hclog_log_def zap_of_def split: result.split)

subsection \<open>A plugin behind a connection\<close>

text \<open>A working connection, and one to a process that is gone.\<close>

definition connected :: "rpc_conn \<Rightarrow> bool" where
  "connected c \<longleftrightarrow> rc_fault c = (\<lambda>_ _. None) \<and> rc_NewBasicError c = (\<lambda>err. err)"

definition disconnected :: "rpc_conn \<Rightarrow> bool" where
  "disconnected c \<longleftrightarrow> (\<forall>st req. rc_fault c st req \<noteq> None)"

text \<open>The plugin in the gateway's own process.\<close>

definition local_plugin :: "string \<Rightarrow> reacter \<Rightarrow> plugin" where
  "local_plugin path r = \<lparr>pl_Path = path, pl_Subscriptions = re_Subscriptions r, pl_React = re_React r\<rparr>"

lemma connected_Subscriptions [simp]: "connected c \<Longrightarrow> ReacterClient_Subscriptions c = re_Subscriptions (rc_Reacter c)"
  by (auto simp: ReacterClient_Subscriptions_def rpc_Call_def connected_def ReacterServer_Subscriptions_def)

lemma connected_React [simp]:
  "connected c \<Longrightarrow> encodable e \<Longrightarrow> ReacterClient_React c st e = re_React (rc_Reacter c) st e"
  by (auto simp: ReacterClient_React_def rpc_Call_def connected_def ReacterServer_React_def)

lemma connected_refuses [simp]: "\<not> encodable e \<Longrightarrow> ReacterClient_React c st e \<noteq> None"
  by (simp add: ReacterClient_React_def rpc_Call_def)

lemma disconnected_Subscriptions [simp]:
  assumes "disconnected c"
  shows "ReacterClient_Subscriptions c st = []"
proof -
  obtain m where "rc_fault c st Plugin_Subscriptions = Some m" using assms unfolding disconnected_def by blast
  then show ?thesis by (simp add: ReacterClient_Subscriptions_def rpc_Call_def)
qed

lemma rpc_plugin_simps [simp]:
  "pl_Path (rpc_plugin p c) = p" "pl_Subscriptions (rpc_plugin p c) = ReacterClient_Subscriptions c"
  "pl_React (rpc_plugin p c) = ReacterClient_React c"
  by (simp_all add: rpc_plugin_def)

lemma local_plugin_simps [simp]:
  "pl_Path (local_plugin p r) = p" "pl_Subscriptions (local_plugin p r) = re_Subscriptions r"
  "pl_React (local_plugin p r) = re_React r"
  by (simp_all add: local_plugin_def)

lemma plugin_loop_cong:
  assumes "pl_Path p = pl_Path q" and "\<And>st. pl_React p st e = pl_React q st e"
  shows "plugin_loop p e subs st = plugin_loop q e subs st"
  using assms by (induction subs arbitrary: st) (auto simp: Let_def split: option.split)

lemma React_append:
  "React (ps @ qs) e = bnd (React ps e) (\<lambda>err. case err of Some m \<Rightarrow> ret (Some m) | None \<Rightarrow> React qs e)"
  by (induction ps) (auto simp: bnd_def ret_def gets_def fun_eq_iff split: option.split result.split prod.split)

text \<open>C18: The RPC client and server are transparent: with working connections, and an event whose data
  can be sent, the manager does with the plugins behind the connections exactly what it would do
  with the same plugins in its own process, whatever they subscribe to and answer.\<close>

theorem plugins_behave_as_local:
  assumes "\<forall>(path, c) \<in> set cs. connected c" and "encodable e"
  shows "React (map (\<lambda>(path, c). rpc_plugin path c) cs) e st = React (map (\<lambda>(path, c). local_plugin path (rc_Reacter c)) cs) e st"
  using assms(1)
proof (induction cs arbitrary: st)
  case (Cons x cs)
  obtain path c where x: "x = (path, c)" by fastforce
  have "plugin_loop (rpc_plugin path c) e subs st = plugin_loop (local_plugin path (rc_Reacter c)) e subs st" for subs st
    using Cons.prems assms(2) by (intro plugin_loop_cong) (auto simp: x)
  then show ?case
    using Cons by (auto simp: x bnd_def gets_def ret_def split: result.split option.split prod.split)
qed simp

text \<open>A plugin whose connection is gone is skipped without a trace, its sync subscriptions included:
  the error of the call that asks for its subscriptions is dropped, so the events that it
  is there to stop go through.\<close>

theorem dead_plugin_is_skipped:
  assumes "disconnected c"
  shows "React (ps @ rpc_plugin path c # qs) e st = React (ps @ qs) e st"
proof -
  have "React (rpc_plugin path c # qs) e = React qs e"
    using assms by (auto simp: bnd_def gets_def ret_def fun_eq_iff)
  then show ?thesis by (simp only: React_append)
qed

text \<open>
  The manager has the plugins of the paths that give a client, in the order of the flags. When one
  of them fails it returns an error, and the programs started before it run on: \<^verbatim>\<open>main\<close> ends with
  \<^verbatim>\<open>log.Fatal\<close> there and does not reach \<^verbatim>\<open>Kill\<close>.
\<close>

lemma NewManager_loop_result:
  "case NewManager_loop H ps running paths of
     (Inr qs, running') \<Rightarrow> running' = running @ paths \<and>
       qs = ps @ concat (map (\<lambda>p. case ph_Dispense H p of Inr (Some c) \<Rightarrow> [rpc_plugin p c] | _ \<Rightarrow> []) paths)
   | (Inl err, running') \<Rightarrow> \<exists>n < length paths.
       (ph_Client H (paths ! n) = Some err \<and> running' = running @ take n paths \<or>
        ph_Client H (paths ! n) = None \<and> ph_Dispense H (paths ! n) = Inl err \<and> running' = running @ take (Suc n) paths)"
proof (induction H ps running paths rule: NewManager_loop.induct)
  case (2 H reacters running path paths)
  have lift: "\<exists>n < length (path # paths). P n" if "\<exists>n < length paths. P (Suc n)" for P
    using that by auto
  show ?case
    using 2 by (auto split: option.splits sum.splits prod.splits intro!: lift) (auto intro: exI [of _ 0])
qed simp

text \<open>The gateway tells about an event before it looks for its subscribers.\<close>

definition received_unheard :: "router \<Rightarrow> http_request \<Rightarrow> bool" where
  "received_unheard R r \<longleftrightarrow>
     (case pr_systemPathFromURL (r_paths R) (rq_Host r) (request_path R r) of
        None \<Rightarrow> False
      | Some p \<Rightarrow> AsyncSubscribers (subscriptionCache (r_target R)) ''POST'' p SystemEventReceivedType = [])"

lemma emit_received:
  assumes "received_unheard R r"
  shows "\<exists>s h. emitSystemEventReceived R (request_path R r) e r st =
      React (r_plugins R) s (st\<lparr>rs_heap := h, rs_events := Suc (rs_events st)\<rparr>) \<and>
    ev_EventType s = SystemEventReceivedType \<and>
    ev_Data s = SystemEventReceivedData (request_path R r) e (FlattenHeader (rq_Header r))"
proof -
  obtain e1 h1 where n: "New (r_env R) (r_now R (rs_events st)) (r_uuid R (rs_events st)) SystemEventReceivedType mimeJSON
      (SystemEventReceivedData (request_path R r) e (FlattenHeader (rq_Header r))) (rs_heap st) = (e1, h1)" by fastforce
  then have "ev_EventType e1 = SystemEventReceivedType"
    "ev_Data e1 = SystemEventReceivedData (request_path R r) e (FlattenHeader (rq_Header r))"
    by (auto simp: New_def new_map_def normalize_data_def)
  then show ?thesis
    using n assms by (auto simp: received_unheard_def emitSystemEventReceived_def new_event_def bnd_def
        handleAsyncSubscriptions_def ret_def split: option.splits)
qed

lemma http_data_not_encodable:
  "ev_Data e = HTTPRequestData a \<Longrightarrow> ev_Data s = SystemEventReceivedData p e hs \<Longrightarrow> \<not> encodable s"
  by (simp add: encodable_def registered_def)

text \<open>C39: A plugin with a sync subscription to received events, like the example plugin of the repository,
  stops every plain HTTP request when it is the only plugin and no CORS configuration and no subscriber
  to received events is in its way, although the connection works and whatever the plugin would answer: \<^verbatim>\<open>HTTPRequestData\<close> is not among the types that \<^verbatim>\<open>init\<close> registers, so the event cannot be
  sent and the client's error counts as the plugin's. The sender gets an empty 200; no function
  is called and nothing is queued.\<close>

theorem http_requests_stopped_by_sync_plugin:
  assumes "no_cors R r" and "\<not> rs_draining st" and "received_unheard R r"
    and "request_event R r st = Returns (e, h)" and "\<not> IsSystem e" and "ev_Data e = HTTPRequestData a"
    and "r_plugins R = [rpc_plugin path c]" and "connected c"
    and "re_Subscriptions (rc_Reacter c) = (\<lambda>_. [(SystemEventReceivedType, SyncPlugin)])"
  shows "\<exists>ev st'. ServeHTTP R r st = (Responds new_response, st') \<and>
    rs_calls st' = rs_calls st @ [PluginCall path ev] \<and> rs_backlog st' = rs_backlog st \<and> rs_dropped st' = rs_dropped st"
proof -
  let ?st1 = "st\<lparr>rs_heap := h, rs_events := Suc (rs_events st)\<rparr>"
  have f: "event_from_request R r st = (Value (Inr e), ?st1)"
    by (simp add: event_from_request_cases assms(4))
  obtain s h2 where s: "emitSystemEventReceived R (request_path R r) e r ?st1 =
      React (r_plugins R) s (?st1\<lparr>rs_heap := h2, rs_events := Suc (rs_events ?st1)\<rparr>)"
    "ev_EventType s = SystemEventReceivedType"
    "ev_Data s = SystemEventReceivedData (request_path R r) e (FlattenHeader (rq_Header r))"
    using emit_received [OF assms(3)] by blast
  let ?st2 = "?st1\<lparr>rs_heap := h2, rs_events := Suc (rs_events ?st1)\<rparr>"
  obtain m where m: "ReacterClient_React c ?st2 s = Some m"
    using connected_refuses [OF http_data_not_encodable [OF assms(6) s(3)]] by blast
  have "React (r_plugins R) s ?st2 = (Value (Some m), ?st2\<lparr>rs_calls := rs_calls ?st2 @ [PluginCall path s]\<rparr>)"
    using assms(7-9) s(2) m by (simp add: bnd_def gets_def ret_def Let_def)
  then have "event_handler R (request_path R r) r new_response st =
      (Value new_response, ?st2\<lparr>rs_calls := rs_calls ?st2 @ [PluginCall path s]\<rparr>)"
    using assms(5) s(1) by (simp add: event_handler_def bnd_def f ret_def)
  then show ?thesis by (auto simp: ServeHTTP_def serve_without_cors [OF assms(1,2)])
qed

subsection \<open>Examples\<close>

definition ex_conn :: rpc_conn where
  "ex_conn =
     \<lparr>rc_Reacter = \<lparr>re_Subscriptions = (\<lambda>_. [(SystemEventReceivedType, SyncPlugin)]), re_React = (\<lambda>_ _. None)\<rparr>,
      rc_fault = (\<lambda>_ _. None), rc_NewBasicError = (\<lambda>err. err)\<rparr>"

lemma ex_connected [simp]: "connected ex_conn"
  by (simp add: connected_def ex_conn_def)

lemma ex_conn_Subscriptions [simp]: "re_Subscriptions (rc_Reacter ex_conn) = (\<lambda>_. [(SystemEventReceivedType, SyncPlugin)])"
  by (simp add: ex_conn_def)

definition ex_system_event :: event where
  "ex_system_event =
     Event SystemEventReceivedType '''' ''0.1'' ''s'' ''id'' None '''' None mimeJSON
       (SystemEventReceivedData ''/'' ex_event fmempty)"

theorem plugins_behave_as_local_witness:
  "React [rpc_plugin ''p'' ex_conn] ex_system_event started = React [local_plugin ''p'' (rc_Reacter ex_conn)] ex_system_event started"
proof -
  have "encodable ex_system_event"
    by (simp add: encodable_def ex_system_event_def ex_event_def payload_types_def registered_def)
  then show ?thesis using plugins_behave_as_local [of "[(''p'', ex_conn)]" ex_system_event started] by simp
qed

theorem dead_plugin_is_skipped_witness:
  "React [rpc_plugin ''p'' (ex_conn\<lparr>rc_fault := \<lambda>_ _. Some ''connection is shut down''\<rparr>)] ex_system_event started =
   React [] ex_system_event started"
  using dead_plugin_is_skipped [of "ex_conn\<lparr>rc_fault := \<lambda>_ _. Some ''connection is shut down''\<rparr>" "[]"]
  by (simp add: disconnected_def)

theorem http_requests_stopped_by_sync_plugin_witness:
  "\<exists>st'. ServeHTTP ((ex_router (plain_event_env JNull) no_target ''x'')\<lparr>r_plugins := [rpc_plugin ''p'' ex_conn]\<rparr>)
      (ex_http [] ''x'') started = (Responds new_response, st') \<and> rs_backlog st' = Some []"
proof -
  let ?R = "(ex_router (plain_event_env JNull) no_target ''x'')\<lparr>r_plugins := [rpc_plugin ''p'' ex_conn]\<rparr>"
  let ?r = "ex_http [] ''x''"
  obtain a h1 where q: "new_req (NewHTTPRequestData (plain_event_env JNull) ?r (PBytes ''x'')) no_heap = (a, h1)" by fastforce
  obtain e h where f: "New (plain_event_env JNull) ''now'' ''id'' TypeHTTPRequest mimeJSON (HTTPRequestData a) h1 = (e, h)"
    by fastforce
  then have e: "\<not> IsSystem e" "ev_Data e = HTTPRequestData a"
    by (auto simp: New_def new_map_def IsSystem_def has_prefix_def TypeHTTPRequest_def normalize_data_def)
  have c: "no_cors ?R ?r"
    by (simp add: no_cors_def target_CORS_def no_target_def newCORSCache_def)
  have u: "received_unheard ?R ?r"
    by (simp add: received_unheard_def default_paths_def)
  have "request_event ?R ?r started = Returns (e, h)"
    using f q by (simp add: request_event_def FromRequest_def ex_http_def Header_Get_def canonical_keys media_types
        mimeCloudEventsJSON_def mimeJSON_def isCloudEventsBinaryContentMode_def isLegacyMode_def Let_def ex_router_def)
  then show ?thesis
    using http_requests_stopped_by_sync_plugin [OF c _ u _ e, of started h "''p''" ex_conn] by auto
qed

end
