(* ===== verification/Workers.thy ===== *)
theory Workers
  imports RouterHazards
begin

section \<open>The workers (router.go: StartWorkers, loop, enqueueWork, Drain)\<close>

text \<open>
  The goroutines around the backlog as a step relation: the workers in the phases of \<^verbatim>\<open>loop\<close>,
  the requests in flight, the channel that \<^verbatim>\<open>Drain\<close> closes and the wait group. A step is one
  channel operation, so steps of workers and requests interleave freely. What processing an event
  enqueues is a list that is offered to the backlog one event at a time; \<open>emits\<close> says which lists
  the code can produce. Ghost fields record which events were accepted, taken and processed.
  A panic in a worker ends the process; runs are considered up to there. The channel has room
  for at least one event (an unbuffered one would hand events straight to a waiting worker).
\<close>

subsection \<open>State and steps\<close>

text \<open>
  A worker is before the first \<^verbatim>\<open>select\<close> (\<open>Top\<close>), in the second (\<open>Waiting\<close>), in the third after it saw
  that \<^verbatim>\<open>drain\<close> is closed (\<open>Recheck\<close>), processing an event with the events it will still enqueue,
  or it has returned.
\<close>

datatype 'b phase = Top | Waiting | Recheck | Processing 'b "'b list" | Exited

record 'b pool =
  p_queue :: "'b list"
  p_drain :: bool
  p_workers :: "'b phase list"
  p_wait :: int
  p_active :: bool
  p_requests :: "'b list list"
  p_accepted :: "'b list"
  p_taken :: "'b list"
  p_processed :: "'b list"

definition start_pool :: "nat \<Rightarrow> 'b pool" where
  "start_pool n =
     \<lparr>p_queue = [], p_drain = False, p_workers = replicate n Top, p_wait = int n, p_active = True, p_requests = [],
      p_accepted = [], p_taken = [], p_processed = []\<rparr>"

text \<open>The send of \<^verbatim>\<open>enqueueWork\<close> with its default branch.\<close>

definition offer :: "nat \<Rightarrow> 'b \<Rightarrow> 'b pool \<Rightarrow> 'b pool" where
  "offer cap b s =
     (if length (p_queue s) < cap then s\<lparr>p_queue := p_queue s @ [b], p_accepted := p_accepted s @ [b]\<rparr> else s)"

definition set_worker :: "nat \<Rightarrow> 'b phase \<Rightarrow> 'b pool \<Rightarrow> 'b pool" where
  "set_worker i w s = s\<lparr>p_workers := (p_workers s)[i := w]\<rparr>"

definition worker :: "'b pool \<Rightarrow> nat \<Rightarrow> 'b phase \<Rightarrow> bool" where
  "worker s i w \<longleftrightarrow> i < length (p_workers s) \<and> p_workers s ! i = w"

text \<open>The two ends of \<^verbatim>\<open>Drain\<close>, around the wait for the workers.\<close>

definition close_channel :: "'b pool \<Rightarrow> 'b pool" where
  "close_channel s = s\<lparr>p_drain := True\<rparr>"

definition deactivate :: "'b pool \<Rightarrow> 'b pool" where
  "deactivate s = s\<lparr>p_active := False\<rparr>"

inductive pool_step :: "('b \<Rightarrow> 'b list \<Rightarrow> bool) \<Rightarrow> nat \<Rightarrow> 'b pool \<Rightarrow> 'b pool \<Rightarrow> bool"
  for emits :: "'b \<Rightarrow> 'b list \<Rightarrow> bool" and cap :: nat where
  take_work: "worker s i w \<Longrightarrow> w \<in> {Top, Waiting, Recheck} \<Longrightarrow> p_queue s = b # q \<Longrightarrow> emits b xs \<Longrightarrow>
    pool_step emits cap s (set_worker i (Processing b xs) (s\<lparr>p_queue := q, p_taken := p_taken s @ [b]\<rparr>))"
| no_work: "worker s i Top \<Longrightarrow> p_queue s = [] \<Longrightarrow> pool_step emits cap s (set_worker i Waiting s)"
| see_drain: "worker s i Waiting \<Longrightarrow> p_drain s \<Longrightarrow> pool_step emits cap s (set_worker i Recheck s)"
| leave: "worker s i Recheck \<Longrightarrow> p_queue s = [] \<Longrightarrow>
    pool_step emits cap s (set_worker i Exited (s\<lparr>p_wait := p_wait s - 1\<rparr>))"
| emit: "worker s i (Processing b (x # xs)) \<Longrightarrow> pool_step emits cap s (offer cap x (set_worker i (Processing b xs) s))"
| finish: "worker s i (Processing b []) \<Longrightarrow>
    pool_step emits cap s (set_worker i Top (s\<lparr>p_processed := p_processed s @ [b]\<rparr>))"
| request: "\<not> p_drain s \<Longrightarrow> pool_step emits cap s (s\<lparr>p_requests := p_requests s @ [xs]\<rparr>)"
| enqueue: "j < length (p_requests s) \<Longrightarrow> p_requests s ! j = x # xs \<Longrightarrow>
    pool_step emits cap s (offer cap x (s\<lparr>p_requests := (p_requests s)[j := xs]\<rparr>))"
| close_drain: "\<not> p_drain s \<Longrightarrow> pool_step emits cap s (close_channel s)"
| drained: "p_drain s \<Longrightarrow> p_wait s = 0 \<Longrightarrow> p_active s \<Longrightarrow> pool_step emits cap s (deactivate s)"

text \<open>What processing \<open>b\<close> can enqueue, given room: in some state, with some length of the backlog.\<close>

definition emits :: "router \<Rightarrow> backlog_event \<Rightarrow> backlog_event list \<Rightarrow> bool" where
  "emits R b xs \<longleftrightarrow> (\<exists>st q n. rs_backlog st = Some q \<and>
     rs_backlog (snd (processEvent (R\<lparr>r_backlogLength := n\<rparr>) b st)) = Some (q @ xs))"

lemmas drain_steps [simp] = close_channel_def deactivate_def

inductive_cases pool_stepE: "pool_step E cap s t"

subsection \<open>Safety\<close>

text \<open>A quantity of the worker phases when one of them changes.\<close>

definition total :: "('b phase \<Rightarrow> 'a) \<Rightarrow> 'b pool \<Rightarrow> 'a::comm_monoid_add" where
  "total f s = (\<Sum>w \<leftarrow> p_workers s. f w)"

lemma sum_list_change:
  fixes f :: "'c \<Rightarrow> 'a::comm_monoid_add"
  shows "i < length ws \<Longrightarrow> (\<Sum>w \<leftarrow> ws[i := w']. f w) + f (ws ! i) = (\<Sum>w \<leftarrow> ws. f w) + f w'"
proof (induction ws arbitrary: i)
  case (Cons a ws)
  then show ?case by (cases i) (simp_all add: ac_simps)
qed simp

lemma total_set: "worker s i w \<Longrightarrow> total f (set_worker i w' s) + f w = total f s + f w'"
  unfolding total_def worker_def set_worker_def using sum_list_change [of i "p_workers s" f w'] by auto

lemma pool_fields [simp]:
  "p_queue (set_worker i w s) = p_queue s" "p_drain (set_worker i w s) = p_drain s"
  "p_wait (set_worker i w s) = p_wait s" "p_active (set_worker i w s) = p_active s"
  "p_requests (set_worker i w s) = p_requests s" "p_accepted (set_worker i w s) = p_accepted s"
  "p_taken (set_worker i w s) = p_taken s" "p_processed (set_worker i w s) = p_processed s"
  "p_workers (set_worker i w s) = (p_workers s)[i := w]"
  "p_drain (offer cap b s) = p_drain s" "p_workers (offer cap b s) = p_workers s" "p_wait (offer cap b s) = p_wait s"
  "p_active (offer cap b s) = p_active s" "p_requests (offer cap b s) = p_requests s"
  "p_taken (offer cap b s) = p_taken s" "p_processed (offer cap b s) = p_processed s"
  by (simp_all add: set_worker_def offer_def)

lemma total_fields [simp]:
  "total f (s\<lparr>p_queue := q\<rparr>) = total f s" "total f (s\<lparr>p_taken := q\<rparr>) = total f s" "total f (s\<lparr>p_wait := n\<rparr>) = total f s"
  "total f (s\<lparr>p_processed := q\<rparr>) = total f s" "total f (s\<lparr>p_requests := r\<rparr>) = total f s" "total f (s\<lparr>p_drain := d\<rparr>) = total f s"
  "total f (s\<lparr>p_active := a\<rparr>) = total f s" "total f (offer cap b s) = total f s"
  by (simp_all add: total_def)

lemma worker_fields [simp]:
  "worker (s\<lparr>p_queue := q\<rparr>) = worker s" "worker (s\<lparr>p_taken := q\<rparr>) = worker s" "worker (s\<lparr>p_wait := n\<rparr>) = worker s"
  "worker (s\<lparr>p_processed := q\<rparr>) = worker s"
  by (simp_all add: worker_def fun_eq_iff)

definition busy :: "'b phase \<Rightarrow> 'b multiset" where
  "busy w = (case w of Processing b _ \<Rightarrow> {#b#} | _ \<Rightarrow> {#})"

definition alive :: "'b phase \<Rightarrow> int" where
  "alive w = (if w = Exited then 0 else 1)"

definition pool_ok :: "nat \<Rightarrow> 'b pool \<Rightarrow> bool" where
  "pool_ok cap s \<longleftrightarrow>
     p_accepted s = p_taken s @ p_queue s \<and> mset (p_taken s) = mset (p_processed s) + total busy s \<and>
     length (p_queue s) \<le> cap \<and> p_wait s = total alive s"

lemma pool_ok_start: "pool_ok cap (start_pool n)"
proof -
  have "sum_list (replicate n {#}) = ({#} :: 'b multiset)" for n by (induction n) simp_all
  then show ?thesis
    by (simp add: pool_ok_def start_pool_def total_def busy_def alive_def sum_list_replicate)
qed

lemma pool_ok_offer: "pool_ok cap s \<Longrightarrow> pool_ok cap (offer cap b s)"
  by (auto simp: pool_ok_def offer_def total_def)

lemma pool_ok_set:
  assumes "worker s i w" and "busy w' = busy w" and "alive w' = alive w"
  shows "pool_ok cap (set_worker i w' s) = pool_ok cap s"
  using total_set [OF assms(1), of busy w'] total_set [OF assms(1), of alive w'] assms(2,3) by (simp add: pool_ok_def)

lemma pool_ok_step:
  assumes "pool_step E cap s t" and "pool_ok cap s"
  shows "pool_ok cap t"
  using assms(1)
proof cases
  case (take_work i w b q xs)
  then show ?thesis
    using assms(2) total_set [of s i w busy "Processing b xs"] total_set [of s i w alive "Processing b xs"]
    by (auto simp: pool_ok_def busy_def alive_def set_worker_def total_def)
next
  case (no_work i)
  then show ?thesis using assms(2) pool_ok_set [of s i Top Waiting] by (simp add: busy_def alive_def)
next
  case (see_drain i)
  then show ?thesis using assms(2) pool_ok_set [of s i Waiting Recheck] by (simp add: busy_def alive_def)
next
  case (leave i)
  then show ?thesis
    using assms(2) total_set [of s i Recheck busy Exited] total_set [of s i Recheck alive Exited]
    by (auto simp: pool_ok_def busy_def alive_def set_worker_def total_def)
next
  case (emit i b x xs)
  then show ?thesis
    using assms(2) pool_ok_set [of s i "Processing b (x # xs)" "Processing b xs"]
    by (simp add: pool_ok_offer busy_def alive_def)
next
  case (finish i b)
  then show ?thesis
    using assms(2) total_set [of s i "Processing b []" busy Top] total_set [of s i "Processing b []" alive Top]
    by (auto simp: pool_ok_def busy_def alive_def set_worker_def total_def)
next
  case (enqueue j x xs)
  have "pool_ok cap (s\<lparr>p_requests := (p_requests s)[j := xs]\<rparr>)" using assms(2) by (simp add: pool_ok_def)
  then show ?thesis using enqueue by (simp add: pool_ok_offer)
qed (use assms(2) in \<open>simp_all add: pool_ok_def\<close>)

abbreviation pool_steps :: "('b \<Rightarrow> 'b list \<Rightarrow> bool) \<Rightarrow> nat \<Rightarrow> 'b pool \<Rightarrow> 'b pool \<Rightarrow> bool" where
  "pool_steps E cap \<equiv> (pool_step E cap)\<^sup>*\<^sup>*"

lemma pool_ok_steps: "pool_steps E cap s t \<Longrightarrow> pool_ok cap s \<Longrightarrow> pool_ok cap t"
  by (induction rule: rtranclp_induct) (auto dest: pool_ok_step)

text \<open>C11: Workers take accepted events in their order and lose none: at every moment the accepted events
  are those taken, followed by the backlog; what was taken was processed, once, or is in some
  worker's hands; the backlog is within its length; and the wait group counts the workers that
  have not returned.\<close>

theorem workers_lose_nothing:
  assumes "pool_steps (emits R) cap (start_pool n) s"
  shows "p_accepted s = p_taken s @ p_queue s \<and> mset (p_taken s) = mset (p_processed s) + total busy s \<and>
    length (p_queue s) \<le> cap \<and> p_wait s = int (length (filter (\<lambda>w. w \<noteq> Exited) (p_workers s)))"
proof -
  have "(\<Sum>w \<leftarrow> ws. alive w) = int (length (filter (\<lambda>w. w \<noteq> Exited) ws))" for ws :: "backlog_event phase list"
    by (induction ws) (auto simp: alive_def)
  then have "total alive s = int (length (filter (\<lambda>w. w \<noteq> Exited) (p_workers s)))"
    by (simp add: total_def)
  then show ?thesis
    using pool_ok_steps [OF assms pool_ok_start] by (simp add: pool_ok_def)
qed

subsection \<open>Liveness\<close>

text \<open>
  Why draining ends: first the events that are not final get fewer; once they stay the same,
  the effort that is left gets less. Final events may be enqueued by processing an event that
  is not final, in any number.
\<close>

definition pending :: "('b \<Rightarrow> nat) \<Rightarrow> 'b phase \<Rightarrow> nat" where
  "pending g w = (case w of Processing b xs \<Rightarrow> (\<Sum>x \<leftarrow> xs. g x) | _ \<Rightarrow> 0)"

definition requested :: "('b \<Rightarrow> nat) \<Rightarrow> 'b pool \<Rightarrow> nat" where
  "requested g s = (\<Sum>r \<leftarrow> p_requests s. \<Sum>x \<leftarrow> r. g x)"

definition user_work :: "('b \<Rightarrow> bool) \<Rightarrow> 'b pool \<Rightarrow> nat" where
  "user_work final s = (let g = (\<lambda>b. if final b then 0 else 1) in
     (\<Sum>b \<leftarrow> p_queue s. g b) + total (pending g) s + requested g s)"

definition phase_effort :: "'b phase \<Rightarrow> nat" where
  "phase_effort w = (case w of Exited \<Rightarrow> 0 | Recheck \<Rightarrow> 1 | Waiting \<Rightarrow> 2 | Top \<Rightarrow> 3 | Processing b xs \<Rightarrow> 4 + 6 * length xs)"

definition effort :: "'b pool \<Rightarrow> nat" where
  "effort s = 5 * length (p_queue s) + total phase_effort s + requested (\<lambda>_. 6) s + (if p_active s then 1 else 0)"

lemma requested_fields [simp]:
  "requested g (set_worker i w s) = requested g s" "requested g (offer cap b s) = requested g s"
  "requested g (s\<lparr>p_queue := q\<rparr>) = requested g s" "requested g (s\<lparr>p_taken := q\<rparr>) = requested g s"
  "requested g (s\<lparr>p_wait := m\<rparr>) = requested g s" "requested g (s\<lparr>p_processed := q\<rparr>) = requested g s"
  "requested g (s\<lparr>p_active := a\<rparr>) = requested g s"
  by (simp_all add: requested_def set_worker_def offer_def)

lemma requested_change:
  "j < length (p_requests s) \<Longrightarrow> p_requests s ! j = x # xs \<Longrightarrow>
   requested g (s\<lparr>p_requests := (p_requests s)[j := xs]\<rparr>) + g x = requested g s"
  using sum_list_change [of j "p_requests s" "\<lambda>r. \<Sum>x \<leftarrow> r. g x" xs] by (simp add: requested_def)

lemma offer_queue: "p_queue (offer cap b s) = p_queue s @ (if length (p_queue s) < cap then [b] else [])"
  by (simp add: offer_def)

locale worker_pool =
  fixes E :: "'b \<Rightarrow> 'b list \<Rightarrow> bool" and final :: "'b \<Rightarrow> bool"
  assumes E_final: "E b xs \<Longrightarrow> x \<in> set xs \<Longrightarrow> final x"
    and final_E: "final b \<Longrightarrow> E b xs \<Longrightarrow> xs = []"
    and E_total: "\<exists>xs. E b xs"
begin

abbreviation "weight s \<equiv> (user_work final s, effort s)"

lemma E_no_user_work: "E b xs \<Longrightarrow> (\<Sum>x \<leftarrow> xs. if final x then 0 else 1) = (0::nat)"
  using E_final by (induction xs) (auto dest: E_final)

lemma step_weight:
  assumes "pool_step E cap s t" and "p_drain s"
  shows "(weight t, weight s) \<in> less_than <*lex*> less_than"
  using assms(1)
proof cases
  case (take_work i w b q xs)
  let ?g = "\<lambda>b. if final b then 0 else (1::nat)"
  let ?t = "s\<lparr>p_queue := q, p_taken := p_taken s @ [b]\<rparr>"
  have "(\<Sum>x \<leftarrow> xs. ?g x) = 0" using take_work(5) by (rule E_no_user_work)
  then have "total (pending ?g) t = total (pending ?g) s"
    using take_work total_set [of ?t i w "pending ?g" "Processing b xs"] by (auto simp: pending_def)
  moreover have "total phase_effort t + phase_effort w = total phase_effort s + 4 + 6 * length xs"
    using take_work total_set [of ?t i w phase_effort "Processing b xs"] by (simp add: phase_effort_def)
  moreover have "final b \<Longrightarrow> xs = []" using take_work(5) by (rule final_E [rotated])
  moreover have "1 \<le> phase_effort w" using take_work(3) by (auto simp: phase_effort_def)
  ultimately show ?thesis
    using take_work by (auto simp: user_work_def effort_def Let_def)
next
  case (emit i b x xs)
  let ?g = "\<lambda>b. if final b then 0 else (1::nat)"
  have "total (pending ?g) t + ?g x = total (pending ?g) s"
    using emit total_set [of s i "Processing b (x # xs)" "pending ?g" "Processing b xs"] by (simp add: pending_def)
  moreover have "total phase_effort t + 6 = total phase_effort s"
    using emit total_set [of s i "Processing b (x # xs)" phase_effort "Processing b xs"] by (simp add: phase_effort_def)
  ultimately show ?thesis
    using emit by (auto simp: user_work_def effort_def Let_def offer_queue)
next
  case (enqueue j x xs)
  let ?g = "\<lambda>b. if final b then 0 else (1::nat)"
  show ?thesis
    using enqueue requested_change [OF enqueue(2,3), of ?g] requested_change [OF enqueue(2,3), of "\<lambda>_. 6"]
    by (auto simp: user_work_def effort_def Let_def offer_queue)
next
  case (no_work i)
  then show ?thesis
    using total_set [of s i Top phase_effort Waiting] total_set [of s i Top "pending g" Waiting for g]
    by (simp add: user_work_def effort_def Let_def phase_effort_def pending_def)
next
  case (see_drain i)
  then show ?thesis
    using total_set [of s i Waiting phase_effort Recheck] total_set [of s i Waiting "pending g" Recheck for g]
    by (simp add: user_work_def effort_def Let_def phase_effort_def pending_def)
next
  case (leave i)
  then show ?thesis
    using total_set [of "s\<lparr>p_wait := p_wait s - 1\<rparr>" i Recheck phase_effort Exited]
      total_set [of "s\<lparr>p_wait := p_wait s - 1\<rparr>" i Recheck "pending g" Exited for g]
    by (simp add: user_work_def effort_def Let_def phase_effort_def pending_def)
next
  case (finish i b)
  then show ?thesis
    using total_set [of "s\<lparr>p_processed := p_processed s @ [b]\<rparr>" i "Processing b []" phase_effort Top]
      total_set [of "s\<lparr>p_processed := p_processed s @ [b]\<rparr>" i "Processing b []" "pending g" Top for g]
    by (simp add: user_work_def effort_def Let_def phase_effort_def pending_def)
qed (use assms(2) in \<open>simp_all add: user_work_def effort_def Let_def\<close>)

lemma step_drain: "pool_step E cap s t \<Longrightarrow> p_drain s \<Longrightarrow> p_drain t"
  by (auto elim: pool_stepE)

text \<open>No run goes on for ever once the router drains.\<close>

lemma no_infinite_run:
  assumes "p_drain (f 0)" and "\<And>i. pool_step E cap (f i) (f (Suc i))"
  shows False
proof -
  have d: "p_drain (f i)" for i
    by (induction i) (use assms step_drain in auto)
  have "wf (less_than <*lex*> less_than)" by auto
  moreover have "(weight (f (Suc i)), weight (f i)) \<in> less_than <*lex*> less_than" for i
    using step_weight assms(2) d by blast
  ultimately show False
    unfolding wf_iff_no_infinite_down_chain by (auto dest: spec [where x = "\<lambda>i. weight (f i)"])
qed

text \<open>Where a draining router stops, every worker has returned and no request has work to enqueue.\<close>

lemma stuck:
  assumes "p_drain s" and "\<And>t. \<not> pool_step E cap s t"
  shows "set (p_workers s) \<subseteq> {Exited}" and "\<forall>r \<in> set (p_requests s). r = []"
proof -
  show "set (p_workers s) \<subseteq> {Exited}"
  proof
    fix w
    assume "w \<in> set (p_workers s)"
    then obtain i where i: "worker s i w" by (auto simp: worker_def in_set_conv_nth)
    have q: "p_queue s = []" if "w \<in> {Top, Waiting, Recheck}"
    proof (rule ccontr)
      assume "p_queue s \<noteq> []"
      then obtain b q where "p_queue s = b # q" by (cases "p_queue s") auto
      then show False using take_work [OF i that] E_total assms(2) by metis
    qed
    show "w \<in> {Exited}"
    proof (cases w)
      case Top
      then show ?thesis using no_work [of s i] i q assms(2) by blast
    next
      case Waiting
      then show ?thesis using see_drain [of s i] i assms by blast
    next
      case Recheck
      then show ?thesis using leave [of s i] i q assms(2) by blast
    next
      case (Processing b xs)
      show ?thesis
      proof (cases xs)
        case Nil
        then show ?thesis using finish [of s i b] i Processing assms(2) by blast
      next
        case (Cons x ys)
        then show ?thesis using emit [of s i b x ys] i Processing assms(2) by blast
      qed
    qed simp
  qed
  show "\<forall>r \<in> set (p_requests s). r = []"
  proof
    fix r
    assume "r \<in> set (p_requests s)"
    then obtain j where "j < length (p_requests s)" "p_requests s ! j = r" by (auto simp: in_set_conv_nth)
    then show "r = []"
      using assms(2) enqueue [of j s] by (metis list.exhaust)
  qed
qed

end

subsection \<open>The workers of the router\<close>

lemma appends_steps:
  assumes "steps (appends R P) m" and "rs_backlog st = Some q" and "rs_backlog (snd (m st)) = Some (q @ xs)"
  shows "\<forall>x \<in> set xs. P (be_event x)"
  using assms unfolding steps_def appends_def by (fastforce split: option.splits)

lemma shallow_length: "(shallow R)\<lparr>r_backlogLength := n\<rparr> = shallow (R\<lparr>r_backlogLength := n\<rparr>)"
  by (simp add: shallow_def)

lemma processEvent_system:
  "IsSystem (be_event b) \<Longrightarrow> steps (appends (shallow R) (\<lambda>_. False)) (processEvent (shallow R) b)"
  unfolding processEvent_def
  by (intro backlog.steps_bnd backlog.steps_ret nothing.steps_callFunction_system)

interpretation router_workers: worker_pool "emits (shallow R)" "\<lambda>b. IsSystem (be_event b)" for R
proof
  fix b xs x
  show "emits (shallow R) b xs \<Longrightarrow> x \<in> set xs \<Longrightarrow> IsSystem (be_event x)"
    unfolding emits_def shallow_length using appends_steps [OF system_only.steps_processEvent] by blast
  show "IsSystem (be_event b) \<Longrightarrow> emits (shallow R) b xs \<Longrightarrow> xs = []"
    unfolding emits_def shallow_length using appends_steps [OF processEvent_system, of b] by fastforce
  have "appends (shallow R) IsSystem started (snd (processEvent (shallow R) b started))"
    using system_only.steps_processEvent by (simp add: steps_def)
  then show "\<exists>xs. emits (shallow R) b xs"
    unfolding emits_def by (intro exI [of _ "the (rs_backlog (snd (processEvent (shallow R) b started)))"] exI [of _ started]
        exI [of _ "[]"] exI [of _ "r_backlogLength R"]) (auto simp: appends_def shallow_def)
qed

definition final_state :: "('b \<Rightarrow> 'b list \<Rightarrow> bool) \<Rightarrow> nat \<Rightarrow> 'b pool \<Rightarrow> bool" where
  "final_state E cap t \<longleftrightarrow> (\<nexists>u. pool_step E cap t u)"

lemma all_exited: "set (p_workers t) \<subseteq> {Exited} \<Longrightarrow> total f t = (\<Sum>w \<leftarrow> replicate (length (p_workers t)) Exited. f w)"
  unfolding total_def by (metis empty_iff insert_iff replicate_eqI subset_iff)

lemma total_exited:
  assumes "set (p_workers t) \<subseteq> {Exited}"
  shows "total alive t = 0" and "total busy t = {#}"
proof -
  have "(\<Sum>w \<leftarrow> ws. alive w) = 0 \<and> (\<Sum>w \<leftarrow> ws. busy w) = {#}" if "set ws \<subseteq> {Exited}" for ws :: "'b phase list"
    using that by (induction ws) (auto simp: alive_def busy_def)
  then show "total alive t = 0" and "total busy t = {#}" using assms by (auto simp: total_def)
qed

lemma drain_returns_at:
  assumes "shallow_copier R" and "pool_steps (emits R) cap (start_pool n) s" and "p_drain s"
    and t: "pool_steps (emits R) cap s t" and f: "final_state (emits R) cap t"
  shows "set (p_workers t) \<subseteq> {Exited} \<and> p_wait t = 0 \<and> \<not> p_active t \<and> (\<forall>r \<in> set (p_requests t). r = [])"
proof -
  have R: "shallow R = R" by (rule shallow_id [OF assms(1)])
  have d: "p_drain t"
    using t assms(3) by (induction rule: rtranclp_induct) (auto dest: router_workers.step_drain [of R, unfolded R])
  have w: "set (p_workers t) \<subseteq> {Exited}" "\<forall>r \<in> set (p_requests t). r = []"
    using router_workers.stuck [of t R cap, unfolded R] d f by (auto simp: final_state_def)
  have "pool_ok cap t"
    using pool_ok_steps [OF rtranclp_trans [OF assms(2) t] pool_ok_start] .
  then have "p_wait t = 0" using total_exited [OF w(1)] by (simp add: pool_ok_def)
  moreover from this have "\<not> p_active t" using d f drained by (auto simp: final_state_def)
  ultimately show ?thesis using w by blast
qed

text \<open>C10: \<^verbatim>\<open>Drain\<close> returns: once the channel is closed there is no endless run, however workers and requests
  interleave, and where a run stops every worker has returned, the wait group is down to zero,
  \<^verbatim>\<open>Drain\<close> has made the router inactive and no request has anything left to enqueue.\<close>

theorem drain_returns:
  assumes "shallow_copier R" and "pool_steps (emits R) cap (start_pool n) s" and "p_drain s"
  shows "(\<nexists>f. f 0 = s \<and> (\<forall>i. pool_step (emits R) cap (f i) (f (Suc i)))) \<and>
    (\<forall>t. pool_steps (emits R) cap s t \<longrightarrow> final_state (emits R) cap t \<longrightarrow>
       set (p_workers t) \<subseteq> {Exited} \<and> p_wait t = 0 \<and> \<not> p_active t \<and> (\<forall>r \<in> set (p_requests t). r = []))"
  using router_workers.no_infinite_run [of _ R cap, unfolded shallow_id [OF assms(1)]] assms(3)
    drain_returns_at [OF assms] by blast

subsection \<open>Nothing is lost when no request is in flight\<close>

text \<open>Before draining no worker leaves.\<close>

lemma worker_mem: "worker s i w \<Longrightarrow> w \<in> set (p_workers s)"
  by (auto simp: worker_def)

lemma working_step:
  assumes "pool_step E cap s t" and "p_drain s \<or> set (p_workers s) \<inter> {Recheck, Exited} = {}"
  shows "p_drain t \<or> set (p_workers t) \<inter> {Recheck, Exited} = {}"
proof -
  have u: "set (ws[i := w]) \<inter> {Recheck, Exited} = {}"
    if "set ws \<inter> {Recheck, Exited} = {}" "w \<notin> {Recheck, Exited}" for ws :: "'a phase list" and i w
    using that set_update_subset_insert [of ws i w] by auto
  show ?thesis
    using assms(1)
  proof cases
    case (leave i)
    then show ?thesis using assms(2) worker_mem [of s i Recheck] by auto
  qed (use assms(2) u in auto)
qed

lemma length_step: "pool_step E cap s t \<Longrightarrow> length (p_workers t) = length (p_workers s)"
  by (auto elim!: pool_stepE)

definition covered :: "'b pool \<Rightarrow> bool" where
  "covered s \<longleftrightarrow> p_drain s \<and> (\<forall>r \<in> set (p_requests s). r = []) \<and>
     (p_queue s = [] \<or> (\<exists>w \<in> set (p_workers s). w \<noteq> Exited))"

lemma covered_step:
  assumes "pool_step E cap s t" and "covered s"
  shows "covered t"
proof -
  have u: "\<exists>w \<in> set (ws[i := w']). w \<noteq> Exited" if "i < length ws" "w' \<noteq> Exited" for ws :: "'a phase list" and i w'
    using that set_update_memI by metis
  show ?thesis
    using assms(1)
  proof cases
    case (enqueue j x xs)
    then have "x # xs \<in> set (p_requests s)" by (metis nth_mem)
    then show ?thesis using assms(2) by (auto simp: covered_def)
  qed (use assms(2) u in \<open>auto simp: covered_def worker_def offer_queue dest: nth_mem\<close>)
qed

lemma covered_steps: "pool_steps E cap s t \<Longrightarrow> covered s \<Longrightarrow> covered t"
  by (induction rule: rtranclp_induct) (auto dest: covered_step)

lemma working_steps:
  "pool_steps E cap (start_pool n) s \<Longrightarrow>
   (p_drain s \<or> set (p_workers s) \<inter> {Recheck, Exited} = {}) \<and> length (p_workers s) = n"
proof (induction rule: rtranclp_induct)
  case base
  show ?case by (auto simp: start_pool_def)
next
  case (step s t)
  then show ?case using working_step [OF step(2)] length_step [OF step(2)] by simp
qed

text \<open>C4: No accepted event is lost when \<^verbatim>\<open>Drain\<close> is called while no request is in flight: then every
  accepted event, with those that processing enqueued in the meantime, has been processed
  exactly once when the last worker has returned.\<close>

theorem drain_processes_all:
  assumes "shallow_copier R" and "0 < n" and "pool_steps (emits R) cap (start_pool n) s" and "\<not> p_drain s"
    and "\<forall>r \<in> set (p_requests s). r = []"
    and "pool_steps (emits R) cap (close_channel s) t" and "final_state (emits R) cap t"
  shows "p_queue t = [] \<and> mset (p_processed t) = mset (p_accepted t)"
proof -
  have c: "pool_step (emits R) cap s (close_channel s)" using assms(4) by (rule close_drain)
  have start: "pool_steps (emits R) cap (start_pool n) (close_channel s)"
    using assms(3) c by (rule rtranclp.rtrancl_into_rtrancl)
  then have exited: "set (p_workers t) \<subseteq> {Exited}"
    using drain_returns_at [OF assms(1) start _ assms(6,7)] by simp
  have "set (p_workers s) \<noteq> {}" "set (p_workers s) \<inter> {Recheck, Exited} = {}"
    using working_steps [OF assms(3)] assms(2,4) by auto
  then have "covered (close_channel s)"
    using assms(5) by (cases "p_workers s") (auto simp: covered_def)
  then have "covered t" using assms(6) by (rule covered_steps [rotated])
  then have q: "p_queue t = []" using exited by (auto simp: covered_def)
  have "pool_ok cap t"
    by (rule pool_ok_steps [OF rtranclp_trans [OF start assms(6)] pool_ok_start])
  then show ?thesis
    using q total_exited [OF exited] by (simp add: pool_ok_def)
qed

subsection \<open>Example runs\<close>

definition ex_work :: backlog_event where
  "ex_work = \<lparr>be_space = ''default'', be_functionID = ''f'', be_method = ''POST'', be_path = ''/'', be_event = ex_event\<rparr>"

abbreviation "workers_router \<equiv> ex_router (plain_event_env JNull) no_target ''x''"

lemma ex_emits: "emits workers_router ex_work []"
proof -
  have u: "function_events_unheard (workers_router\<lparr>r_backlogLength := 2\<rparr>) ''default''" by (simp add: function_events_unheard_def)
  obtain ev h where e: "emit_function_event (workers_router\<lparr>r_backlogLength := 2\<rparr>) ''default'' SystemFunctionInvokingType
      (SystemFunctionInvokingData ''default'' ''f'' ex_event) started = (Value ev, started\<lparr>rs_heap := h, rs_events := Suc (rs_events started)\<rparr>)"
    using emit_unheard [OF u] by blast
  have "target_Function no_target ''default'' ''f'' = None"
    by (simp add: target_Function_def no_target_def newFunctionCache_def)
  then have "rs_backlog (snd (processEvent (workers_router\<lparr>r_backlogLength := 2\<rparr>) ex_work started)) = Some []"
    using e by (simp add: processEvent_def callFunction_def emitSystemFunctionInvoking_def ex_work_def IsSystem_def ex_event_def
        has_prefix_def bnd_def ret_def)
  then show ?thesis unfolding emits_def by (intro exI [of _ started] exI [of _ "[]"] exI [of _ 2]) simp
qed

text \<open>One worker; the event of one request has been accepted.\<close>

definition ex_pool :: "bool \<Rightarrow> backlog_event phase \<Rightarrow> bool \<Rightarrow> backlog_event list \<Rightarrow> backlog_event list \<Rightarrow> backlog_event list \<Rightarrow> backlog_event pool" where
  "ex_pool d w act q taken processed =
     \<lparr>p_queue = q, p_drain = d, p_workers = [w], p_wait = alive w, p_active = act, p_requests = [[]],
      p_accepted = [ex_work], p_taken = taken, p_processed = processed\<rparr>"

lemma steps_trans [trans]:
  "pool_step E cap a b \<Longrightarrow> pool_step E cap b c \<Longrightarrow> pool_steps E cap a c"
  "pool_steps E cap a b \<Longrightarrow> pool_step E cap b c \<Longrightarrow> pool_steps E cap a c"
  by (meson converse_rtranclp_into_rtranclp r_into_rtranclp) (rule rtranclp.rtrancl_into_rtrancl)

lemma ex_accepted: "pool_steps (emits R) 2 (start_pool 1) (ex_pool False Top True [ex_work] [] [])"
proof -
  have "pool_step (emits R) 2 (start_pool 1) ((start_pool 1)\<lparr>p_requests := p_requests (start_pool 1) @ [[ex_work]]\<rparr>)"
    by (rule request) (simp add: start_pool_def)
  also have "pool_step (emits R) 2 \<dots> (offer 2 ex_work (((start_pool 1)\<lparr>p_requests := [[ex_work]]\<rparr>)\<lparr>p_requests := [[ex_work]] [0 := []]\<rparr>))"
    using enqueue [of 0 "(start_pool 1)\<lparr>p_requests := [[ex_work]]\<rparr>" ex_work "[]" "emits R" 2] by (simp add: start_pool_def)
  finally show ?thesis by (simp add: start_pool_def ex_pool_def offer_def alive_def)
qed

theorem workers_lose_nothing_witness:
  "p_accepted (ex_pool False Top True [ex_work] [] []) = p_taken (ex_pool False Top True [ex_work] [] []) @ [ex_work]"
  using workers_lose_nothing [OF ex_accepted] by (simp add: ex_pool_def)

theorem drain_returns_witness:
  "\<nexists>f. f 0 = close_channel (start_pool 1) \<and> (\<forall>i. pool_step (emits workers_router) 2 (f i) (f (Suc i)))"
proof -
  have "pool_steps (emits workers_router) 2 (start_pool 1) (close_channel (start_pool 1))"
    using close_drain [of "start_pool 1" "emits workers_router" 2] by (simp add: start_pool_def r_into_rtranclp del: drain_steps)
  from drain_returns [OF ex_shallow this] show ?thesis by simp
qed

lemma ex_final: "final_state E 2 (ex_pool True Exited False q taken processed)"
  by (auto simp: final_state_def ex_pool_def worker_def elim!: pool_stepE)

lemma ex_drained: "pool_steps (emits workers_router) 2 (ex_pool True Top True [ex_work] [] []) (ex_pool True Exited False [] [ex_work] [ex_work])"
proof -
  let ?E = "emits workers_router"
  have "pool_step ?E 2 (ex_pool True Top True [ex_work] [] []) (ex_pool True (Processing ex_work []) True [] [ex_work] [])"
    using take_work [of "ex_pool True Top True [ex_work] [] []" 0 Top ex_work "[]" ?E "[]" 2] ex_emits
    by (simp add: ex_pool_def worker_def set_worker_def alive_def)
  also have "pool_step ?E 2 \<dots> (ex_pool True Top True [] [ex_work] [ex_work])"
    using finish [of "ex_pool True (Processing ex_work []) True [] [ex_work] []" 0 ex_work ?E 2]
    by (simp add: ex_pool_def worker_def set_worker_def alive_def)
  also have "pool_step ?E 2 \<dots> (ex_pool True Waiting True [] [ex_work] [ex_work])"
    using no_work [of "ex_pool True Top True [] [ex_work] [ex_work]" 0 ?E 2]
    by (simp add: ex_pool_def worker_def set_worker_def alive_def)
  also have "pool_step ?E 2 \<dots> (ex_pool True Recheck True [] [ex_work] [ex_work])"
    using see_drain [of "ex_pool True Waiting True [] [ex_work] [ex_work]" 0 ?E 2]
    by (simp add: ex_pool_def worker_def set_worker_def alive_def)
  also have "pool_step ?E 2 \<dots> (ex_pool True Exited True [] [ex_work] [ex_work])"
    using leave [of "ex_pool True Recheck True [] [ex_work] [ex_work]" 0 ?E 2]
    by (simp add: ex_pool_def worker_def set_worker_def alive_def)
  also have "pool_step ?E 2 \<dots> (ex_pool True Exited False [] [ex_work] [ex_work])"
    using drained [of "ex_pool True Exited True [] [ex_work] [ex_work]" ?E 2] by (simp add: ex_pool_def alive_def)
  finally show ?thesis .
qed

theorem drain_processes_all_witness:
  "p_queue (ex_pool True Exited False [] [ex_work] [ex_work]) = [] \<and>
   mset (p_processed (ex_pool True Exited False [] [ex_work] [ex_work])) = {#ex_work#}"
  using drain_processes_all [OF ex_shallow _ ex_accepted _ _ _ ex_final, of "plain_event_env JNull" no_target "''x''"] ex_drained
  by (simp add: ex_pool_def)

text \<open>An accepted event can be lost at shutdown: \<^verbatim>\<open>Drain\<close> waits for the workers but not for requests
  that were let in before the channel was closed. Such a request can enqueue its event, and be
  answered 202, after the last worker has returned and \<^verbatim>\<open>Drain\<close> is over; nobody processes it.\<close>

theorem work_lost_after_drain:
  "\<exists>t. pool_steps (emits R) (Suc cap) (start_pool 1) t \<and> final_state (emits R) (Suc cap) t \<and> \<not> p_active t \<and>
    p_accepted t = [b] \<and> p_processed t = [] \<and> p_queue t = [b]"
proof -
  let ?s = "\<lambda>d w act rs. \<lparr>p_queue = [], p_drain = d, p_workers = [w], p_wait = alive w, p_active = act, p_requests = rs,
      p_accepted = [], p_taken = [], p_processed = []\<rparr> :: backlog_event pool"
  let ?t = "\<lparr>p_queue = [b], p_drain = True, p_workers = [Exited], p_wait = 0, p_active = False, p_requests = [[]],
      p_accepted = [b], p_taken = [], p_processed = []\<rparr>"
  let ?E = "emits R" and ?cap = "Suc cap"
  have "pool_step ?E ?cap (start_pool 1) (?s False Top True [[b]])"
    using request [of "start_pool 1" ?E ?cap "[b]"] by (simp add: start_pool_def alive_def)
  also have "pool_step ?E ?cap \<dots> (?s False Waiting True [[b]])"
    using no_work [of "?s False Top True [[b]]" 0 ?E ?cap] by (simp add: worker_def set_worker_def alive_def)
  also have "pool_step ?E ?cap \<dots> (?s True Waiting True [[b]])"
    using close_drain [of "?s False Waiting True [[b]]" ?E ?cap] by simp
  also have "pool_step ?E ?cap \<dots> (?s True Recheck True [[b]])"
    using see_drain [of "?s True Waiting True [[b]]" 0 ?E ?cap] by (simp add: worker_def set_worker_def alive_def)
  also have "pool_step ?E ?cap \<dots> (?s True Exited True [[b]])"
    using leave [of "?s True Recheck True [[b]]" 0 ?E ?cap] by (simp add: worker_def set_worker_def alive_def)
  also have "pool_step ?E ?cap \<dots> (?s True Exited False [[b]])"
    using drained [of "?s True Exited True [[b]]" ?E ?cap] by (simp add: alive_def)
  also have "pool_step ?E ?cap \<dots> ?t"
    using enqueue [of 0 "?s True Exited False [[b]]" b "[]" ?E ?cap] by (simp add: offer_def alive_def)
  finally have "pool_steps ?E ?cap (start_pool 1) ?t" .
  moreover have "final_state ?E ?cap ?t"
    by (auto simp: final_state_def worker_def elim!: pool_stepE)
  ultimately show ?thesis by (intro exI [of _ ?t]) simp
qed

end
