(* ===== verification/Process.thy ===== *)
theory Process
  imports Workers
begin

section \<open>The process (cmd/event-gateway/main.go, httpapi/server.go, internal/sync, internal/embedded)\<close>

text \<open>
  How the process starts its parts, and how it comes down: the guard that all parts share, the two
  HTTP servers, the embedded etcd of the development mode, and \<^verbatim>\<open>main\<close>, which waits for all of
  them and then drains the router. A step is one operation on the guard or one return of a
  server; the goroutines interleave freely. When a server fails is up to net/http and when etcd
  fails to etcd: such steps may happen at any time or never. Whether a call of a nil logger
  panics is a parameter, since zap is not part of the sources.
\<close>

subsection \<open>ShutdownGuard (internal/sync/shutdownguard.go)\<close>

record shutdown_guard =
  sg_count :: int
  sg_shutting :: bool

definition NewShutdownGuard :: shutdown_guard where
  "NewShutdownGuard = \<lparr>sg_count = 0, sg_shutting = False\<rparr>"

definition Add :: "int \<Rightarrow> shutdown_guard \<Rightarrow> shutdown_guard" where
  "Add n g = g\<lparr>sg_count := sg_count g + n\<rparr>"

definition Done :: "shutdown_guard \<Rightarrow> shutdown_guard" where
  "Done g = Add (- 1) g"

definition InitiateShutdown :: "shutdown_guard \<Rightarrow> shutdown_guard" where
  "InitiateShutdown g = (if sg_shutting g then g else g\<lparr>sg_shutting := True\<rparr>)"

definition ShutdownAndDone :: "shutdown_guard \<Rightarrow> shutdown_guard" where
  "ShutdownAndDone g = Done (InitiateShutdown g)"

subsection \<open>Servers (httpapi/server.go, config.go, events.go)\<close>

datatype logger = Logger

record server_config =
  cf_Log :: "logger option"
  cf_TLSCrt :: string
  cf_TLSKey :: string
  cf_Port :: nat

record http_server =
  hs_Port :: nat
  hs_ReadTimeout :: nat
  hs_WriteTimeout :: nat
  hs_TLS :: bool

definition uses_tls :: "server_config \<Rightarrow> bool" where
  "uses_tls c \<longleftrightarrow> cf_TLSCrt c \<noteq> [] \<and> cf_TLSKey c \<noteq> []"

definition StartEventsAPI :: "server_config \<Rightarrow> http_server" where
  "StartEventsAPI c = \<lparr>hs_Port = cf_Port c, hs_ReadTimeout = 60, hs_WriteTimeout = 540, hs_TLS = uses_tls c\<rparr>"

definition StartConfigAPI :: "server_config \<Rightarrow> http_server" where
  "StartConfigAPI c = \<lparr>hs_Port = cf_Port c, hs_ReadTimeout = 3, hs_WriteTimeout = 3, hs_TLS = uses_tls c\<rparr>"

text \<open>What \<^verbatim>\<open>Listen\<close> allows a TLS connection to be; without a certificate and a key it serves plain HTTP.\<close>

record tls_config =
  tc_MinVersion :: string
  tc_CurvePreferences :: "string list"
  tc_PreferServerCipherSuites :: bool
  tc_CipherSuites :: "string list"

definition tlsConf :: tls_config where
  "tlsConf = \<lparr>tc_MinVersion = ''VersionTLS12'', tc_CurvePreferences = [''CurveP521'', ''CurveP384'', ''CurveP256''],
     tc_PreferServerCipherSuites = True,
     tc_CipherSuites = [''TLS_ECDHE_RSA_WITH_AES_256_GCM_SHA384'', ''TLS_ECDHE_RSA_WITH_AES_256_CBC_SHA'',
       ''TLS_RSA_WITH_AES_256_GCM_SHA384'', ''TLS_RSA_WITH_AES_256_CBC_SHA'']\<rparr>"

definition Listen_TLSConfig :: "server_config \<Rightarrow> tls_config option" where
  "Listen_TLSConfig c = (if uses_tls c then Some tlsConf else None)"

text \<open>Where \<^verbatim>\<open>Listen\<close> and the goroutine around it stand.\<close>

datatype server_phase = NotStarted | Serving | Returned | Logged | Initiated | Gone

text \<open>The embedded etcd: running, failed with its goroutine in \<^verbatim>\<open>Wait\<close>, or stopped.\<close>

datatype etcd_phase = NoEtcd | Running | Failed | Stopped

subsection \<open>main\<close>

text \<open>The options of \<^verbatim>\<open>main\<close> that matter here, and the configurations of the servers it makes of them.\<close>

record options =
  op_dev :: bool
  op_configPort :: nat
  op_configTLSCrt :: string
  op_configTLSKey :: string
  op_eventsPort :: nat
  op_eventsTLSCrt :: string
  op_eventsTLSKey :: string

definition events_config :: "options \<Rightarrow> server_config" where
  "events_config p = \<lparr>cf_Log = None, cf_TLSCrt = op_eventsTLSCrt p, cf_TLSKey = op_eventsTLSKey p, cf_Port = op_eventsPort p\<rparr>"

definition config_config :: "options \<Rightarrow> server_config" where
  "config_config p = \<lparr>cf_Log = None, cf_TLSCrt = op_configTLSCrt p, cf_TLSKey = op_configTLSKey p, cf_Port = op_configPort p\<rparr>"

datatype main_phase = Beginning | StartsEvents | StartsConfig | Waits | Drains | Ends

datatype api = EventsAPI | ConfigAPI

record process =
  ps_guard :: shutdown_guard
  ps_main :: main_phase
  ps_server :: "api \<Rightarrow> server_phase"
  ps_etcd :: etcd_phase
  ps_crashed :: bool

definition start_process :: process where
  "start_process = \<lparr>ps_guard = NewShutdownGuard, ps_main = Beginning, ps_server = (\<lambda>_. NotStarted), ps_etcd = NoEtcd,
     ps_crashed = False\<rparr>"

definition config_of :: "options \<Rightarrow> api \<Rightarrow> server_config" where
  "config_of p a = (case a of EventsAPI \<Rightarrow> events_config p | ConfigAPI \<Rightarrow> config_config p)"

definition move :: "api \<Rightarrow> server_phase \<Rightarrow> process \<Rightarrow> process" where
  "move a x s = s\<lparr>ps_server := (ps_server s)(a := x)\<rparr>"

definition on_guard :: "(shutdown_guard \<Rightarrow> shutdown_guard) \<Rightarrow> process \<Rightarrow> process" where
  "on_guard f s = s\<lparr>ps_guard := f (ps_guard s)\<rparr>"

text \<open>
  A panic in any goroutine ends the process, and so does \<^verbatim>\<open>log.Fatal\<close> when there is no KV client or
  a plugin does not load (\<open>setup_fails\<close>). A start of etcd that fails panics after waiting for
  nobody. A server that is told to shut down returns, also when it did not listen yet.
\<close>

inductive process_step :: "(logger option \<Rightarrow> bool) \<Rightarrow> options \<Rightarrow> process \<Rightarrow> process \<Rightarrow> bool"
  for log_panics :: "logger option \<Rightarrow> bool" and p :: options where
  without_etcd: "\<not> ps_crashed s \<Longrightarrow> ps_main s = Beginning \<Longrightarrow> \<not> op_dev p \<Longrightarrow>
    process_step log_panics p s (s\<lparr>ps_main := StartsEvents\<rparr>)"
| etcd_ready: "\<not> ps_crashed s \<Longrightarrow> ps_main s = Beginning \<Longrightarrow> op_dev p \<Longrightarrow>
    process_step log_panics p s (on_guard (Add 1) (s\<lparr>ps_main := StartsEvents, ps_etcd := Running\<rparr>))"
| etcd_start_fails: "\<not> ps_crashed s \<Longrightarrow> ps_main s = Beginning \<Longrightarrow> op_dev p \<Longrightarrow>
    process_step log_panics p s (on_guard InitiateShutdown (s\<lparr>ps_crashed := True\<rparr>))"
| setup_fails: "\<not> ps_crashed s \<Longrightarrow> ps_main s = StartsEvents \<Longrightarrow> process_step log_panics p s (s\<lparr>ps_crashed := True\<rparr>)"
| start_events: "\<not> ps_crashed s \<Longrightarrow> ps_main s = StartsEvents \<Longrightarrow>
    process_step log_panics p s (move EventsAPI Serving (on_guard (Add 1) (s\<lparr>ps_main := StartsConfig\<rparr>)))"
| start_config: "\<not> ps_crashed s \<Longrightarrow> ps_main s = StartsConfig \<Longrightarrow>
    process_step log_panics p s (move ConfigAPI Serving (on_guard (Add 1) (s\<lparr>ps_main := Waits\<rparr>)))"
| serve_fails: "\<not> ps_crashed s \<Longrightarrow> ps_server s a = Serving \<Longrightarrow> process_step log_panics p s (move a Returned s)"
| serve_shut_down: "\<not> ps_crashed s \<Longrightarrow> ps_server s a = Serving \<Longrightarrow> sg_shutting (ps_guard s) \<Longrightarrow>
    process_step log_panics p s (move a Returned s)"
| log_error: "\<not> ps_crashed s \<Longrightarrow> ps_server s a = Returned \<Longrightarrow> \<not> log_panics (cf_Log (config_of p a)) \<Longrightarrow>
    process_step log_panics p s (move a Logged s)"
| log_error_panics: "\<not> ps_crashed s \<Longrightarrow> ps_server s a = Returned \<Longrightarrow> log_panics (cf_Log (config_of p a)) \<Longrightarrow>
    process_step log_panics p s (s\<lparr>ps_crashed := True\<rparr>)"
| initiate: "\<not> ps_crashed s \<Longrightarrow> ps_server s a = Logged \<Longrightarrow>
    process_step log_panics p s (move a Initiated (on_guard InitiateShutdown s))"
| server_done: "\<not> ps_crashed s \<Longrightarrow> ps_server s a = Initiated \<Longrightarrow> process_step log_panics p s (move a Gone (on_guard Done s))"
| etcd_stops: "\<not> ps_crashed s \<Longrightarrow> ps_etcd s = Running \<Longrightarrow> sg_shutting (ps_guard s) \<Longrightarrow>
    process_step log_panics p s (on_guard Done (s\<lparr>ps_etcd := Stopped\<rparr>))"
| etcd_fails: "\<not> ps_crashed s \<Longrightarrow> ps_etcd s = Running \<Longrightarrow>
    process_step log_panics p s (on_guard ShutdownAndDone (s\<lparr>ps_etcd := Failed\<rparr>))"
| etcd_panics: "\<not> ps_crashed s \<Longrightarrow> ps_etcd s = Failed \<Longrightarrow> sg_count (ps_guard s) = 0 \<Longrightarrow>
    process_step log_panics p s (s\<lparr>ps_crashed := True\<rparr>)"
| wait_returns: "\<not> ps_crashed s \<Longrightarrow> ps_main s = Waits \<Longrightarrow> sg_count (ps_guard s) = 0 \<Longrightarrow>
    process_step log_panics p s (s\<lparr>ps_main := Drains\<rparr>)"
| drain_is_over: "\<not> ps_crashed s \<Longrightarrow> ps_main s = Drains \<Longrightarrow> process_step log_panics p s (s\<lparr>ps_main := Ends\<rparr>)"


abbreviation process_steps :: "(logger option \<Rightarrow> bool) \<Rightarrow> options \<Rightarrow> process \<Rightarrow> process \<Rightarrow> bool" where
  "process_steps lp p \<equiv> (process_step lp p)\<^sup>*\<^sup>*"

subsection \<open>The guard counts the running parts\<close>

definition running :: "server_phase \<Rightarrow> int" where
  "running x = (if x \<in> {NotStarted, Gone} then 0 else 1)"

definition process_ok :: "process \<Rightarrow> bool" where
  "process_ok s \<longleftrightarrow>
     sg_count (ps_guard s) = (if ps_etcd s = Running then 1 else 0) +
       running (ps_server s EventsAPI) + running (ps_server s ConfigAPI) \<and>
     (ps_main s \<in> {Beginning, StartsEvents} \<longleftrightarrow> ps_server s EventsAPI = NotStarted) \<and>
     (ps_main s \<in> {Beginning, StartsEvents, StartsConfig} \<longleftrightarrow> ps_server s ConfigAPI = NotStarted) \<and>
     (ps_main s = Beginning \<longrightarrow> ps_etcd s = NoEtcd) \<and>
     (ps_main s \<in> {Drains, Ends} \<longrightarrow> sg_count (ps_guard s) = 0)"

lemma guard_simps [simp]:
  "sg_count (Add n g) = sg_count g + n" "sg_count (Done g) = sg_count g - 1" "sg_count (InitiateShutdown g) = sg_count g"
  "sg_count (ShutdownAndDone g) = sg_count g - 1" "sg_shutting (InitiateShutdown g)" "sg_shutting (ShutdownAndDone g)"
  "sg_shutting (Add n g) = sg_shutting g" "sg_shutting (Done g) = sg_shutting g"
  by (simp_all add: Add_def Done_def InitiateShutdown_def ShutdownAndDone_def)

lemma process_simps [simp]:
  "ps_guard (move a x s) = ps_guard s" "ps_main (move a x s) = ps_main s" "ps_etcd (move a x s) = ps_etcd s"
  "ps_crashed (move a x s) = ps_crashed s" "ps_server (move a x s) b = (if b = a then x else ps_server s b)"
  "ps_guard (on_guard f s) = f (ps_guard s)" "ps_main (on_guard f s) = ps_main s" "ps_etcd (on_guard f s) = ps_etcd s"
  "ps_crashed (on_guard f s) = ps_crashed s" "ps_server (on_guard f s) = ps_server s"
  by (simp_all add: move_def on_guard_def)

text \<open>Once \<^verbatim>\<open>main\<close> drains, nothing runs any more.\<close>

lemma nothing_runs:
  assumes "process_ok s" and "ps_main s \<in> {Drains, Ends}"
  shows "ps_etcd s \<noteq> Running" and "running (ps_server s a) = 0"
proof -
  have nn: "0 \<le> running z" for z by (simp add: running_def)
  have z: "(if ps_etcd s = Running then 1 else 0) + running (ps_server s EventsAPI) + running (ps_server s ConfigAPI) = 0"
    using assms unfolding process_ok_def by (metis (no_types))
  show "ps_etcd s \<noteq> Running"
    using z nn [of "ps_server s EventsAPI"] nn [of "ps_server s ConfigAPI"] by (auto split: if_splits)
  show "running (ps_server s a) = 0"
    using z nn [of "ps_server s EventsAPI"] nn [of "ps_server s ConfigAPI"] by (cases a) (simp_all split: if_splits)
qed

text \<open>A server moves from one phase to another while the guard's counter changes with it.\<close>

lemma process_ok_move:
  assumes "process_ok s" and "ps_server s a = y" and "y \<noteq> NotStarted" and "x \<noteq> NotStarted"
    and "ps_main t = ps_main s" and "ps_etcd t = ps_etcd s"
    and "\<And>b. ps_server t b = (if b = a then x else ps_server s b)"
    and "sg_count (ps_guard t) = sg_count (ps_guard s) + running x - running y" and "running y = 1"
  shows "process_ok t"
proof -
  have m: "ps_main s \<notin> {Drains, Ends}"
    using nothing_runs(2) [OF assms(1), of a] assms(2,9) by auto
  show ?thesis
    using assms(1-8) m by (cases a) (auto simp: process_ok_def)
qed

lemma process_ok_crashed [simp]: "process_ok (s\<lparr>ps_crashed := c\<rparr>) = process_ok s"
  by (simp add: process_ok_def)

lemma process_ok_step:
  assumes "process_step lp p s t" and "process_ok s"
  shows "process_ok t"
  using assms(1)
proof cases
  case (serve_fails a)
  then show ?thesis using process_ok_move [OF assms(2), of a Serving Returned t] by (simp add: running_def)
next
  case (serve_shut_down a)
  then show ?thesis using process_ok_move [OF assms(2), of a Serving Returned t] by (simp add: running_def)
next
  case (log_error a)
  then show ?thesis using process_ok_move [OF assms(2), of a Returned Logged t] by (simp add: running_def)
next
  case (initiate a)
  then show ?thesis using process_ok_move [OF assms(2), of a Logged Initiated t] by (simp add: running_def)
next
  case (server_done a)
  then show ?thesis using process_ok_move [OF assms(2), of a Initiated Gone t] by (simp add: running_def)
next
  case etcd_stops
  moreover have "ps_main s \<notin> {Drains, Ends}" using nothing_runs(1) [OF assms(2)] etcd_stops by blast
  ultimately show ?thesis using assms(2) by (auto simp: process_ok_def)
next
  case etcd_fails
  moreover have "ps_main s \<notin> {Drains, Ends}" using nothing_runs(1) [OF assms(2)] etcd_fails by blast
  ultimately show ?thesis using assms(2) by (auto simp: process_ok_def)
next
  case start_events
  then show ?thesis using assms(2) by (simp add: process_ok_def running_def)
next
  case start_config
  then show ?thesis using assms(2) by (simp add: process_ok_def running_def)
next
  case (log_error_panics a)
  then show ?thesis using assms(2) by simp
next
  case etcd_panics
  then show ?thesis using assms(2) by simp
qed (use assms(2) in \<open>simp_all add: process_ok_def\<close>)

lemma process_ok_steps: "process_steps lp p start_process s \<Longrightarrow> process_ok s"
proof (induction rule: rtranclp_induct)
  case base
  show ?case by (simp add: process_ok_def start_process_def NewShutdownGuard_def running_def)
qed (rule process_ok_step)

subsection \<open>Coming down\<close>













text \<open>With a logger that is missing, no server gets past the call of it.\<close>

definition unlogged :: "process \<Rightarrow> bool" where
  "unlogged s \<longleftrightarrow> (\<forall>a. ps_server s a \<in> {NotStarted, Serving, Returned})"

lemma unlogged_step:
  assumes "process_step lp p s t" and "lp None" and "unlogged s"
  shows "unlogged t"
proof -
  have n: "cf_Log (config_of p a) = None" for a
    by (cases a) (simp_all add: config_of_def events_config_def config_config_def)
  have u: "ps_server s a \<notin> {Logged, Initiated, Gone}" for a
    using assms(3) unfolding unlogged_def by (auto dest: spec [where x = a])
  show ?thesis
    using assms(1)
  proof cases
    case (initiate a)
    then show ?thesis using u [of a] by simp
  next
    case (server_done a)
    then show ?thesis using u [of a] by simp
  qed (use assms(2,3) n in \<open>auto simp: unlogged_def\<close>)
qed

text \<open>C12: The router is never drained: \<^verbatim>\<open>main\<close> starts both servers without a logger, and a server that stops
  for whatever reason logs that first; when a call of the nil logger panics, as it does in zap,
  the process dies there, before the shutdown is initiated, and no run of \<^verbatim>\<open>main\<close> gets to
  \<^verbatim>\<open>Drain\<close>. What is left in the backlog is lost.\<close>

theorem main_never_drains:
  assumes "process_steps log_panics p start_process s" and "log_panics None"
  shows "ps_main s \<notin> {Drains, Ends}"
proof
  assume d: "ps_main s \<in> {Drains, Ends}"
  have "unlogged s"
    using assms(1)
  proof (induction rule: rtranclp_induct)
    case base
    show ?case by (simp add: unlogged_def start_process_def)
  next
    case (step s t)
    then show ?case using unlogged_step assms(2) by blast
  qed
  moreover have ok: "process_ok s" using assms(1) by (rule process_ok_steps)
  moreover have "ps_server s EventsAPI \<noteq> NotStarted" using ok d by (auto simp: process_ok_def)
  ultimately have "running (ps_server s EventsAPI) = 1" by (auto simp: unlogged_def running_def)
  then show False using nothing_runs(2) [OF ok d, of EventsAPI] by simp
qed

definition ex_options :: options where
  "ex_options = \<lparr>op_dev = False, op_configPort = 4001, op_configTLSCrt = [], op_configTLSKey = [], op_eventsPort = 4000,
     op_eventsTLSCrt = [], op_eventsTLSKey = []\<rparr>"

definition ex_process :: "main_phase \<Rightarrow> int \<Rightarrow> server_phase \<Rightarrow> server_phase \<Rightarrow> bool \<Rightarrow> process" where
  "ex_process m n e c crashed = \<lparr>ps_guard = \<lparr>sg_count = n, sg_shutting = False\<rparr>, ps_main = m,
     ps_server = (\<lambda>a. case a of EventsAPI \<Rightarrow> e | ConfigAPI \<Rightarrow> c), ps_etcd = NoEtcd, ps_crashed = crashed\<rparr>"

lemma ex_process_eq:
  "move EventsAPI x (ex_process m n e c cr) = ex_process m n x c cr" "move ConfigAPI x (ex_process m n e c cr) = ex_process m n e x cr"
  "on_guard (Add k) (ex_process m n e c cr) = ex_process m (n + k) e c cr"
  "(ex_process m n e c cr)\<lparr>ps_main := m'\<rparr> = ex_process m' n e c cr" "(ex_process m n e c cr)\<lparr>ps_crashed := cr'\<rparr> = ex_process m n e c cr'"
  "ps_main (ex_process m n e c cr) = m" "ps_crashed (ex_process m n e c cr) = cr" "ps_server (ex_process m n e c cr) EventsAPI = e"
  "start_process = ex_process Beginning 0 NotStarted NotStarted False"
  by (auto simp: ex_process_def move_def on_guard_def Add_def start_process_def NewShutdownGuard_def fun_eq_iff split: api.split)

text \<open>The port of the events API is taken: its server fails and the process dies.\<close>

lemma ex_crash: "process_steps (\<lambda>l. l = None) ex_options start_process (ex_process Waits 2 Returned Serving True)"
proof -
  let ?lp = "\<lambda>l :: logger option. l = None"
  have "process_step ?lp ex_options start_process (ex_process StartsEvents 0 NotStarted NotStarted False)"
    using without_etcd [of start_process ex_options ?lp] by (simp add: ex_process_eq ex_options_def)
  moreover have "process_step ?lp ex_options (ex_process StartsEvents 0 NotStarted NotStarted False)
      (ex_process StartsConfig 1 Serving NotStarted False)"
    using start_events [of "ex_process StartsEvents 0 NotStarted NotStarted False" ?lp ex_options] by (simp add: ex_process_eq)
  moreover have "process_step ?lp ex_options (ex_process StartsConfig 1 Serving NotStarted False) (ex_process Waits 2 Serving Serving False)"
    using start_config [of "ex_process StartsConfig 1 Serving NotStarted False" ?lp ex_options] by (simp add: ex_process_eq)
  moreover have "process_step ?lp ex_options (ex_process Waits 2 Serving Serving False) (ex_process Waits 2 Returned Serving False)"
    using serve_fails [of "ex_process Waits 2 Serving Serving False" EventsAPI ?lp ex_options] by (simp add: ex_process_eq)
  moreover have "process_step ?lp ex_options (ex_process Waits 2 Returned Serving False) (ex_process Waits 2 Returned Serving True)"
    using log_error_panics [of "ex_process Waits 2 Returned Serving False" EventsAPI ?lp ex_options]
    by (simp add: ex_process_eq config_of_def events_config_def)
  ultimately show ?thesis
    by (meson converse_rtranclp_into_rtranclp r_into_rtranclp)
qed






theorem main_never_drains_witness:
  "ps_crashed (ex_process Waits 2 Returned Serving True) \<and> ps_main (ex_process Waits 2 Returned Serving True) \<notin> {Drains, Ends}"
  using main_never_drains [OF ex_crash] by (simp add: ex_process_eq)

end
