(* ===== verification/Startup.thy ===== *)
theory Startup
  imports Plugins Process
begin

section \<open>Setting up and tearing down (cmd/event-gateway/main.go)\<close>

text \<open>
  What \<^verbatim>\<open>main\<close> does with its flags before the servers run, and after they have stopped: the
  configuration of the logger, the embedded etcd, the client of the store, the plugins and the
  router. The servers themselves are in theory Process. Building the logger, etcd, the client and
  the plugins is third-party code, so whether it fails is a parameter; \<^verbatim>\<open>log.Fatal\<close> ends the process
  at once.
\<close>

subsection \<open>Flags\<close>

text \<open>The flag \<^verbatim>\<open>plugin\<close> may be given several times.\<close>

type_synonym paths = "string list"

definition paths_String :: "paths \<Rightarrow> string" where
  "paths_String p = join_with '','' p"

definition paths_Set :: "string \<Rightarrow> paths \<Rightarrow> paths" where
  "paths_Set value p = p @ [value]"

record main_flags =
  mf_version :: bool
  mf_logLevel :: string
  mf_logFormat :: string
  mf_dbHosts :: string
  mf_dev :: bool
  mf_embedPeerAddr :: string
  mf_embedCliAddr :: string
  mf_embedDataDir :: string
  mf_configPort :: nat
  mf_configTLSCrt :: string
  mf_configTLSKey :: string
  mf_eventsPort :: nat
  mf_eventsTLSCrt :: string
  mf_eventsTLSKey :: string
  mf_workers :: nat
  mf_workersBacklog :: nat
  mf_plugins :: paths

definition default_flags :: main_flags where
  "default_flags = \<lparr>mf_version = False, mf_logLevel = ''info'', mf_logFormat = [], mf_dbHosts = ''127.0.0.1:2379'',
     mf_dev = False, mf_embedPeerAddr = ''http://127.0.0.1:2380'', mf_embedCliAddr = ''http://127.0.0.1:2379'',
     mf_embedDataDir = ''default.etcd'', mf_configPort = 4001, mf_configTLSCrt = [], mf_configTLSKey = [],
     mf_eventsPort = 4000, mf_eventsTLSCrt = [], mf_eventsTLSKey = [], mf_workers = 100, mf_workersBacklog = 200,
     mf_plugins = []\<rparr>"

text \<open>The options that theory Process is about.\<close>

definition main_options :: "main_flags \<Rightarrow> options" where
  "main_options f = \<lparr>op_dev = mf_dev f, op_configPort = mf_configPort f, op_configTLSCrt = mf_configTLSCrt f,
     op_configTLSKey = mf_configTLSKey f, op_eventsPort = mf_eventsPort f, op_eventsTLSCrt = mf_eventsTLSCrt f,
     op_eventsTLSKey = mf_eventsTLSKey f\<rparr>"

subsection \<open>The logger\<close>

definition consoleEncoding :: string where "consoleEncoding = ''console''"
definition jsonEncoding :: string where "jsonEncoding = ''json''"

datatype encoder_config = ZeroEncoderConfig | ProductionEncoderConfig | DevelopmentEncoderConfig

record zap_config =
  zc_Level :: string
  zc_Development :: bool
  zc_Sampling :: "(nat \<times> nat) option"
  zc_Encoding :: string
  zc_EncoderConfig :: encoder_config
  zc_OutputPaths :: "string list"
  zc_ErrorOutputPaths :: "string list"
  zc_DisableCaller :: bool
  zc_DisableStacktrace :: bool

definition logger_config :: "bool \<Rightarrow> string \<Rightarrow> string \<Rightarrow> zap_config" where
  "logger_config dev level format =
     (let c0 = \<lparr>zc_Level = level, zc_Development = False, zc_Sampling = Some (100, 100), zc_Encoding = ''json'',
                zc_EncoderConfig = ZeroEncoderConfig, zc_OutputPaths = [''stderr''], zc_ErrorOutputPaths = [''stderr''],
                zc_DisableCaller = False, zc_DisableStacktrace = False\<rparr>;
          c1 = (if dev then c0\<lparr>zc_Sampling := None, zc_Encoding := consoleEncoding\<rparr> else c0);
          c2 = (if format \<noteq> [] then
                  (if format = ''text'' then c1\<lparr>zc_Encoding := consoleEncoding\<rparr>
                   else if format = jsonEncoding then c1\<lparr>zc_Encoding := jsonEncoding\<rparr>
                   else c1\<lparr>zc_Encoding := []\<rparr>)
                else c1);
          c3 = (if zc_Encoding c2 = jsonEncoding then c2\<lparr>zc_EncoderConfig := ProductionEncoderConfig\<rparr> else c2);
          c4 = (if zc_Encoding c3 = consoleEncoding then c3\<lparr>zc_EncoderConfig := DevelopmentEncoderConfig\<rparr> else c3) in
      c4\<lparr>zc_DisableCaller := True, zc_DisableStacktrace := True\<rparr>)"

text \<open>The format decides over the mode, the mode over the sampling; every encoding that can be
  chosen has its encoder, and an unknown format has neither.\<close>

lemma logger_config_exact:
  "zc_Encoding (logger_config dev level format) =
     (if format = ''text'' \<or> format = [] \<and> dev then ''console''
      else if format = ''json'' \<or> format = [] then ''json'' else [])"
  "zc_Sampling (logger_config dev level format) = (if dev then None else Some (100, 100))"
  "zc_EncoderConfig (logger_config dev level format) = ZeroEncoderConfig \<longleftrightarrow> zc_Encoding (logger_config dev level format) = []"
  "zc_Level (logger_config dev level format) = level"
  by (simp_all add: logger_config_def Let_def consoleEncoding_def jsonEncoding_def)

subsection \<open>The embedded etcd (internal/embedded/embedded.go)\<close>

text \<open>
  The configuration that is made of the flags, over what \<^verbatim>\<open>NewConfig\<close> gives; the parsed addresses \<open>'u\<close>
  are handed to etcd unread.
\<close>

record 'u etcd_config =
  ec_ACUrls :: "'u list"
  ec_APUrls :: "'u list"
  ec_LCUrls :: "'u list"
  ec_LPUrls :: "'u list"
  ec_InitialCluster :: string
  ec_Dir :: string

text \<open>What happens outside: parsing an address, finding etcd's logger, starting, and whether it is ready within a minute.\<close>

record 'u etcd_world =
  ew_Parse :: "string \<Rightarrow> (string, 'u) res"
  ew_GetRepoLogger :: "string option"
  ew_StartEtcd :: "'u etcd_config \<Rightarrow> string option"
  ew_Ready :: "'u etcd_config \<Rightarrow> bool"

definition etcd_config_of :: "string \<Rightarrow> string \<Rightarrow> 'u \<Rightarrow> 'u \<Rightarrow> 'u etcd_config" where
  "etcd_config_of dataDir peerAddr clientURL peerURL =
     \<lparr>ec_ACUrls = [clientURL], ec_APUrls = [peerURL], ec_LCUrls = [clientURL], ec_LPUrls = [peerURL],
      ec_InitialCluster = ''default='' @ peerAddr, ec_Dir = dataDir\<rparr>"

datatype embed_end = EtcdRuns | EtcdPanics string | WaitsForOthers

text \<open>\<^verbatim>\<open>ShutdownAndWait\<close> before a panic: the panic comes only when the guard counts nobody.\<close>

definition ShutdownAndWait :: "string \<Rightarrow> shutdown_guard \<Rightarrow> embed_end \<times> shutdown_guard" where
  "ShutdownAndWait err g = (if sg_count g = 0 then EtcdPanics err else WaitsForOthers, InitiateShutdown g)"

text \<open>A panic in \<^verbatim>\<open>parse\<close> shuts nothing down.\<close>

definition EmbedEtcd :: "'u etcd_world \<Rightarrow> string \<Rightarrow> string \<Rightarrow> string \<Rightarrow> shutdown_guard \<Rightarrow> embed_end \<times> shutdown_guard" where
  "EmbedEtcd W dataDir peerAddr cliAddr g =
     (case ew_Parse W cliAddr of
        Inl err \<Rightarrow> (EtcdPanics err, g)
      | Inr clientURL \<Rightarrow>
          (case ew_Parse W peerAddr of
             Inl err \<Rightarrow> (EtcdPanics err, g)
           | Inr peerURL \<Rightarrow>
               (case ew_GetRepoLogger W of
                  Some err \<Rightarrow> ShutdownAndWait err g
                | None \<Rightarrow>
                    (let cfg = etcd_config_of dataDir peerAddr clientURL peerURL in
                     (case ew_StartEtcd W cfg of
                        Some err \<Rightarrow> ShutdownAndWait err g
                      | None \<Rightarrow>
                          (if ew_Ready W cfg then (EtcdRuns, Add 1 g)
                           else ShutdownAndWait ''Embedded etcd took too long to start!'' g))))))"

text \<open>What it does to the guard of \<^verbatim>\<open>main\<close>: etcd runs and is counted, or it panics, as the steps of theory Process have it.\<close>

lemma EmbedEtcd_steps:
  assumes "op_dev p"
  shows "EmbedEtcd W dir peer cli NewShutdownGuard = (EtcdRuns, g) \<Longrightarrow>
      process_step lp p start_process (start_process\<lparr>ps_main := StartsEvents, ps_etcd := Running, ps_guard := g\<rparr>)"
    and "EmbedEtcd W dir peer cli NewShutdownGuard = (EtcdPanics err, g) \<Longrightarrow>
      \<exists>g'. process_step lp p start_process (start_process\<lparr>ps_crashed := True, ps_guard := g'\<rparr>)"
    and "fst (EmbedEtcd W dir peer cli NewShutdownGuard) \<noteq> WaitsForOthers"
proof -
  have b: "\<not> ps_crashed start_process" "ps_main start_process = Beginning" "ps_guard start_process = NewShutdownGuard"
    by (simp_all add: start_process_def)
  have "g = Add 1 NewShutdownGuard" if "EmbedEtcd W dir peer cli NewShutdownGuard = (EtcdRuns, g)"
    using that by (auto simp: EmbedEtcd_def ShutdownAndWait_def Let_def split: sum.splits option.splits if_splits)
  moreover have "on_guard (Add 1) (start_process\<lparr>ps_main := StartsEvents, ps_etcd := Running\<rparr>) =
      start_process\<lparr>ps_main := StartsEvents, ps_etcd := Running, ps_guard := Add 1 NewShutdownGuard\<rparr>"
    by (simp add: on_guard_def b)
  ultimately show "process_step lp p start_process (start_process\<lparr>ps_main := StartsEvents, ps_etcd := Running, ps_guard := g\<rparr>)"
    if "EmbedEtcd W dir peer cli NewShutdownGuard = (EtcdRuns, g)"
    using etcd_ready [OF b(1,2) assms, of lp] that by simp
  show "\<exists>g'. process_step lp p start_process (start_process\<lparr>ps_crashed := True, ps_guard := g'\<rparr>)"
    using etcd_start_fails [OF b(1,2) assms, of lp] unfolding on_guard_def by auto
  show "fst (EmbedEtcd W dir peer cli NewShutdownGuard) \<noteq> WaitsForOthers"
    by (simp add: EmbedEtcd_def ShutdownAndWait_def NewShutdownGuard_def Let_def split: sum.split option.split)
qed

subsection \<open>Setting up\<close>

text \<open>The third-party steps of \<^verbatim>\<open>main\<close>: each returns an error or none.\<close>

record 'u main_world =
  mw_Build :: "zap_config \<Rightarrow> string option"
  mw_etcd :: "'u etcd_world"
  mw_NewStore :: "string list \<Rightarrow> string option"
  mw_plugins :: plugin_host

datatype main_exit = PrintedVersion | LoggerPanic string | EtcdFailed embed_end | Fatal string

text \<open>
  The plugin programs that run are the second result, the guard the third. \<^verbatim>\<open>main\<close> goes on only with
  an embedded etcd that runs.
\<close>

definition start_etcd :: "'u main_world \<Rightarrow> main_flags \<Rightarrow> embed_end \<times> shutdown_guard" where
  "start_etcd W f =
     (if mf_dev f then EmbedEtcd (mw_etcd W) (mf_embedDataDir f) (mf_embedPeerAddr f) (mf_embedCliAddr f) NewShutdownGuard
      else (EtcdRuns, NewShutdownGuard))"

definition main_setup :: "'u main_world \<Rightarrow> main_flags \<Rightarrow> (main_exit, plugin list) res \<times> string list \<times> shutdown_guard" where
  "main_setup W f =
     (if mf_version f then (Inl PrintedVersion, [], NewShutdownGuard)
      else
        (case mw_Build W (logger_config (mf_dev f) (mf_logLevel f) (mf_logFormat f)) of
           Some err \<Rightarrow> (Inl (LoggerPanic err), [], NewShutdownGuard)
         | None \<Rightarrow>
             (case start_etcd W f of
                (EtcdRuns, g) \<Rightarrow>
                  (case mw_NewStore W (split_on (CHR '','') (mf_dbHosts f)) of
                     Some err \<Rightarrow> (Inl (Fatal err), [], g)
                   | None \<Rightarrow>
                       (case NewManager (mw_plugins W) (mf_plugins f) [] of
                          (Inl err, procs) \<Rightarrow> (Inl (Fatal err), procs, g)
                        | (Inr plugins, procs) \<Rightarrow> (Inr plugins, procs, g)))
              | (failed, g) \<Rightarrow> (Inl (EtcdFailed failed), [], g))))"

text \<open>
  The router that \<^verbatim>\<open>main\<close> makes of the plugins: \<open>R\<close> is the world outside, \<open>answers\<close> what the store answers to the
  watchers. It starts with an empty backlog.
\<close>

definition main_target :: "router \<Rightarrow> env \<Rightarrow> (string \<Rightarrow> attempt list) \<Rightarrow> target outcome" where
  "main_target R E answers = NewTarget (r_pick R) E ''/serverless-event-gateway'' answers"

definition main_router :: "router \<Rightarrow> main_flags \<Rightarrow> target \<Rightarrow> plugin list \<Rightarrow> router \<times> router_state" where
  "main_router R f tc plugins =
     (R\<lparr>r_target := tc, r_plugins := plugins, r_workersNumber := mf_workers f, r_backlogLength := mf_workersBacklog f\<rparr>,
      StartWorkers NewRouter)"

text \<open>The directories that the caches watch are those that the services write to.\<close>

lemma main_directories:
  "NewTarget_paths ''/serverless-event-gateway'' =
     map (outcome.Done \<circ> prefixed_root) [eventtypes_root, functions_root, subscriptions_root, cors_root]"
  by (simp add: NewTarget_paths_def NewWatcher_def has_prefix_def has_suffix_def prefixed_root_def root_defs)

text \<open>The protocol that the message of the development mode names is the one that is served.\<close>

definition api_proto :: "server_config \<Rightarrow> string" where
  "api_proto c = (if cf_TLSCrt c \<noteq> [] \<and> cf_TLSKey c \<noteq> [] then ''https'' else ''http'')"

lemma api_proto_served:
  "api_proto (events_config p) = ''https'' \<longleftrightarrow> hs_TLS (StartEventsAPI (events_config p))"
  "api_proto (config_config p) = ''https'' \<longleftrightarrow> hs_TLS (StartConfigAPI (config_config p))"
  by (simp_all add: api_proto_def StartEventsAPI_def StartConfigAPI_def uses_tls_def)

text \<open>After the servers: the router drains (theory Workers), then the plugins are killed.\<close>

definition main_teardown :: "router_state \<times> string list \<Rightarrow> router_state \<times> string list" where
  "main_teardown s = (case s of (st, procs) \<Rightarrow> (Drain_end (Drain_close st), Kill procs))"

lemma main_teardown_kills: "snd (main_teardown s) = []" "rs_draining (fst (main_teardown s))" "\<not> rs_active (fst (main_teardown s))"
  by (cases s; simp add: main_teardown_def Kill_def Drain_close_def Drain_end_def)+

text \<open>A plugin that fails to load ends the process while the plugins before it run on.\<close>

lemma failed_setup_leaves_plugins:
  assumes "\<not> mf_version f" and "mw_Build W (logger_config (mf_dev f) (mf_logLevel f) (mf_logFormat f)) = None"
    and "start_etcd W f = (EtcdRuns, g)"
    and "mw_NewStore W (split_on (CHR '','') (mf_dbHosts f)) = None" and "mf_plugins f = [good, bad]"
    and "ph_Client (mw_plugins W) good = None" and "ph_Dispense (mw_plugins W) good = Inr (Some c)"
    and "ph_Client (mw_plugins W) bad = Some err"
  shows "main_setup W f = (Inl (Fatal err), [good], g)"
  using assms by (simp add: main_setup_def NewManager_def)

text \<open>When the setup succeeds, the guard counts etcd or nobody, no shutdown has begun, and all plugin programs run.\<close>

lemma main_setup_guard:
  assumes "main_setup W f = (Inr plugins, procs, g)"
  shows "sg_count g = (if mf_dev f then 1 else 0)" and "\<not> sg_shutting g" and "procs = mf_plugins f"
proof -
  have e: "start_etcd W f = (EtcdRuns, g)" and m: "NewManager (mw_plugins W) (mf_plugins f) [] = (Inr plugins, procs)"
    using assms by (auto simp: main_setup_def split: if_splits option.splits prod.splits embed_end.splits sum.splits)
  have "g = (if mf_dev f then Add 1 NewShutdownGuard else NewShutdownGuard)"
    using e
    by (auto simp: start_etcd_def EmbedEtcd_def ShutdownAndWait_def Let_def split: if_splits sum.splits option.splits)
  then show "sg_count g = (if mf_dev f then 1 else 0)" "\<not> sg_shutting g" by (simp_all add: NewShutdownGuard_def)
  show "procs = mf_plugins f"
    using m NewManager_loop_result [where H = "mw_plugins W" and ps = "[]" and running = "[]" and paths = "mf_plugins f"] by (simp add: NewManager_def)
qed

end
