(* ===== verification/Observing.thy ===== *)
theory Observing
  imports Router
begin

section \<open>Watching the router (router/wait.go, metrics.go)\<close>

text \<open>
  The functions that wait until a cache has something, and the times for which events wait in
  the backlog.
\<close>

subsection \<open>Waiting for a cache (wait.go)\<close>

text \<open>
  The goroutine looks at the caches, sleeps and looks again until it finds something, and then
  closes its channel: \<open>caches n\<close> is what the n-th look sees, the result the number of the look
  after which the channel is closed. Without such a look it goes on for ever: \<open>None\<close>.
\<close>

partial_function (option) poll :: "(nat \<Rightarrow> bool) \<Rightarrow> nat \<Rightarrow> nat option" where
  "poll found n = (if found n then Some n else poll found (Suc n))"

definition WaitForFunction :: "(nat \<Rightarrow> target) \<Rightarrow> string \<Rightarrow> string \<Rightarrow> nat option" where
  "WaitForFunction caches space i = poll (\<lambda>n. target_Function (caches n) space i \<noteq> None) 0"

definition WaitForAsyncSubscriber :: "(nat \<Rightarrow> target) \<Rightarrow> string \<Rightarrow> string \<Rightarrow> string \<Rightarrow> nat option" where
  "WaitForAsyncSubscriber caches me path t =
     poll (\<lambda>n. length (AsyncSubscribers (subscriptionCache (caches n)) me path t) > 0) 0"

definition WaitForSyncSubscriber ::
  "(nat \<Rightarrow> nat) \<Rightarrow> (nat \<Rightarrow> target) \<Rightarrow> string \<Rightarrow> string \<Rightarrow> string \<Rightarrow> nat option" where
  "WaitForSyncSubscriber pick caches me path t =
     poll (\<lambda>n. SyncSubscriber pick (subscriptionCache (caches n)) me path t \<noteq> None) 0"

definition WaitForEventType :: "(nat \<Rightarrow> target) \<Rightarrow> string \<Rightarrow> string \<Rightarrow> nat option" where
  "WaitForEventType caches space name = poll (\<lambda>n. target_EventType (caches n) space name \<noteq> None) 0"

text \<open>The loop ends exactly when some look finds something, and then at the first one.\<close>

lemma poll_finds:
  assumes "found (n + k)"
  shows "\<exists>m. poll found n = Some m \<and> n \<le> m \<and> found m \<and> (\<forall>j. n \<le> j \<and> j < m \<longrightarrow> \<not> found j)"
  using assms
proof (induction k arbitrary: n)
  case 0
  then show ?case by (auto simp: poll.simps)
next
  case (Suc k)
  show ?case
  proof (cases "found n")
    case True
    then show ?thesis by (auto simp: poll.simps)
  next
    case False
    obtain m where m: "poll found (Suc n) = Some m" "Suc n \<le> m" "found m" "\<forall>j. Suc n \<le> j \<and> j < m \<longrightarrow> \<not> found j"
      using Suc.IH [of "Suc n"] Suc.prems by auto
    have "\<not> found j" if "n \<le> j" "j < m" for j using that False m(4) by (cases "j = n") auto
    then show ?thesis using m False by (intro exI [of _ m]) (simp add: poll.simps [of found n])
  qed
qed

lemma poll_result: "poll found n = Some m \<Longrightarrow> found m"
  by (induction rule: poll.raw_induct [rotated, consumes 1]) (auto split: if_splits)

lemma poll_exact: "(\<exists>m. poll found 0 = Some m) \<longleftrightarrow> (\<exists>k. found k)"
  using poll_finds [of found 0] poll_result by (metis add_0)

text \<open>A cache that gets an entry and keeps it is noticed.\<close>

lemma wait_for_function_returns:
  "(\<exists>m. WaitForFunction caches sp i = Some m) \<longleftrightarrow> (\<exists>k. target_Function (caches k) sp i \<noteq> None)"
  by (simp only: WaitForFunction_def poll_exact)

subsection \<open>Times in the backlog (metrics.go)\<close>

text \<open>
  When an event was put into the backlog first, by its identifier, and the durations that were
  observed; time is a number. A step of the router that concerns them is an \<^verbatim>\<open>enqueueWork\<close> (which
  records the event before it knows whether there is room) or a \<^verbatim>\<open>processEvent\<close>.
\<close>

record queue_times =
  receivedEvents :: "string \<rightharpoonup> nat"
  observed :: "nat list"

definition reportEventInTheQueue :: "nat \<Rightarrow> string \<Rightarrow> queue_times \<Rightarrow> queue_times" where
  "reportEventInTheQueue now i q =
     (if receivedEvents q i = None then q\<lparr>receivedEvents := (receivedEvents q)(i \<mapsto> now)\<rparr> else q)"

definition reportEventOutOfQueue :: "nat \<Rightarrow> string \<Rightarrow> queue_times \<Rightarrow> queue_times" where
  "reportEventOutOfQueue now i q =
     (case receivedEvents q i of
        None \<Rightarrow> q
      | Some start \<Rightarrow> q\<lparr>receivedEvents := (receivedEvents q)(i := None), observed := observed q @ [now - start]\<rparr>)"

datatype queue_step = Enqueue nat string | Process nat string

fun report_step :: "queue_step \<Rightarrow> queue_times \<Rightarrow> queue_times" where
  "report_step (Enqueue now i) q = reportEventInTheQueue now i q"
| "report_step (Process now i) q = reportEventOutOfQueue now i q"

fun step_event :: "queue_step \<Rightarrow> string" where
  "step_event (Enqueue now i) = i"
| "step_event (Process now i) = i"

definition report_all :: "queue_step list \<Rightarrow> queue_times" where
  "report_all steps = fold report_step steps \<lparr>receivedEvents = Map.empty, observed = []\<rparr>"

text \<open>An entry stays exactly until the event is processed: one that was dropped keeps it for ever.\<close>

lemma entry_stays:
  "receivedEvents (report_all steps) i \<noteq> None \<longleftrightarrow>
   (\<exists>xs now ys. steps = xs @ Enqueue now i # ys \<and> (\<forall>t. Process t i \<notin> set ys))"
proof (induction steps rule: rev_induct)
  case Nil
  then show ?case by (simp add: report_all_def)
next
  case (snoc x steps)
  have r: "report_all (steps @ [x]) = report_step x (report_all steps)" by (simp add: report_all_def)
  let ?R = "\<exists>xs now ys. steps @ [x] = xs @ Enqueue now i # ys \<and> (\<forall>t. Process t i \<notin> set ys)"
  have R: "?R \<longleftrightarrow> (\<exists>now. x = Enqueue now i) \<or> (\<forall>t. x \<noteq> Process t i) \<and>
      (\<exists>xs now ys. steps = xs @ Enqueue now i # ys \<and> (\<forall>t. Process t i \<notin> set ys))" (is "_ \<longleftrightarrow> ?A \<or> ?B")
  proof
    assume ?R
    then obtain xs now ys where *: "steps @ [x] = xs @ Enqueue now i # ys" "\<forall>t. Process t i \<notin> set ys" by blast
    show "?A \<or> ?B"
    proof (cases ys rule: rev_cases)
      case Nil
      then show ?thesis using * by simp
    next
      case (snoc zs z)
      then have "x = z" "steps = xs @ Enqueue now i # zs" using * by simp_all
      then show ?thesis using * snoc by auto
    qed
  next
    assume "?A \<or> ?B"
    then show ?R
    proof
      assume ?A
      then show ?thesis by (auto intro: exI [of _ steps] exI [of _ "[]"])
    next
      assume ?B
      then obtain xs now ys where "steps = xs @ Enqueue now i # ys" "\<forall>t. Process t i \<notin> set ys" "\<forall>t. x \<noteq> Process t i" by blast
      then show ?thesis by (intro exI [of _ xs] exI [of _ now] exI [of _ "ys @ [x]"]) auto
    qed
  qed
  show ?case
    unfolding R r using snoc
    by (cases x) (auto simp: reportEventInTheQueue_def reportEventOutOfQueue_def split: option.split)
qed

end
