(* ===== verification/Meters.thy ===== *)
theory Meters
  imports RouterHazards Observing
begin

section \<open>The metrics of the router (router/metrics.go and their updates in router.go)\<close>

text \<open>
  Theory Router leaves the metrics out. Here its steps are given once more with every update of a
  metric at its place: a metered step acts on the state of the router and on the metrics. Erasing
  the metrics gives the steps of theory Router back, so the two models agree; what the metrics show is proved for every run of requests and worker turns.
  A counter is the multiset of the labels it was increased for. Time is a number that passes between
  the requests and turns.
\<close>

subsection \<open>The metrics\<close>

definition customEventType :: string where
  "customEventType = ''custom''"

text \<open>The labels are the space and the type.\<close>

record meters =
  metricEventsReceived :: "(string \<times> string) multiset"
  metricEventsProcessed :: "(string \<times> string) multiset"
  metricEventsDropped :: "(string \<times> string) multiset"
  metricBacklog :: int
  me_queue :: queue_times
  me_clock :: nat

definition no_meters :: meters where
  "no_meters = \<lparr>metricEventsReceived = {#}, metricEventsProcessed = {#}, metricEventsDropped = {#}, metricBacklog = 0,
     me_queue = \<lparr>receivedEvents = Map.empty, observed = []\<rparr>, me_clock = 0\<rparr>"

definition received :: "string \<Rightarrow> string \<Rightarrow> meters \<Rightarrow> meters" where
  "received space t m = m\<lparr>metricEventsReceived := add_mset (space, t) (metricEventsReceived m)\<rparr>"

definition processed :: "string \<Rightarrow> string \<Rightarrow> meters \<Rightarrow> meters" where
  "processed space t m = m\<lparr>metricEventsProcessed := add_mset (space, t) (metricEventsProcessed m)\<rparr>"

definition dropped :: "string \<Rightarrow> string \<Rightarrow> meters \<Rightarrow> meters" where
  "dropped space t m = m\<lparr>metricEventsDropped := add_mset (space, t) (metricEventsDropped m)\<rparr>"

definition backlog_add :: "int \<Rightarrow> meters \<Rightarrow> meters" where
  "backlog_add n m = m\<lparr>metricBacklog := metricBacklog m + n\<rparr>"

definition in_queue :: "string \<Rightarrow> meters \<Rightarrow> meters" where
  "in_queue i m = m\<lparr>me_queue := reportEventInTheQueue (me_clock m) i (me_queue m)\<rparr>"

definition out_of_queue :: "string \<Rightarrow> meters \<Rightarrow> meters" where
  "out_of_queue i m = m\<lparr>me_queue := reportEventOutOfQueue (me_clock m) i (me_queue m)\<rparr>"

lemmas meter_defs = received_def processed_def dropped_def backlog_add_def in_queue_def out_of_queue_def

subsection \<open>Metered steps\<close>

type_synonym 'a metered = "router_state \<times> meters \<Rightarrow> 'a result \<times> (router_state \<times> meters)"

definition mlift :: "'a act \<Rightarrow> 'a metered" where
  "mlift a = (\<lambda>(st, m). case a st of (r, st') \<Rightarrow> (r, (st', m)))"

definition mbnd :: "'a metered \<Rightarrow> ('a \<Rightarrow> 'b metered) \<Rightarrow> 'b metered" where
  "mbnd a f = (\<lambda>s. case a s of (Value x, s') \<Rightarrow> f x s' | (Panic, s') \<Rightarrow> (Panic, s'))"

definition count :: "(meters \<Rightarrow> meters) \<Rightarrow> unit metered" where
  "count f = (\<lambda>(st, m). (Value (), (st, f m)))"

abbreviation "mret x \<equiv> mlift (ret x)"

definition has_room :: "router \<Rightarrow> router_state \<Rightarrow> bool" where
  "has_room R st = (case rs_backlog st of None \<Rightarrow> False | Some q \<Rightarrow> length q < r_backlogLength R)"

text \<open>The time is taken before the \<^verbatim>\<open>select\<close>; a dropped event counts for no space.\<close>

definition m_enqueueWork :: "router \<Rightarrow> backlog_event \<Rightarrow> unit metered" where
  "m_enqueueWork R b =
     mbnd (count (in_queue (ev_EventID (be_event b)))) (\<lambda>_.
     mbnd (mlift (gets (has_room R))) (\<lambda>room.
     mbnd (mlift (enqueueWork R b)) (\<lambda>_.
     count (if room then backlog_add 1 else dropped [] customEventType))))"

fun m_async_loop :: "router \<Rightarrow> string \<Rightarrow> string \<Rightarrow> event \<Rightarrow> http_request option \<Rightarrow> async_subscriber list \<Rightarrow> unit metered" where
  "m_async_loop R me path e r [] = mret ()"
| "m_async_loop R me path e r (s # ss) =
     mbnd (count (received (as_Space s) customEventType)) (\<lambda>_.
     mbnd (mlift (copy_event R e)) (\<lambda>subEvent.
     mbnd (mlift (authorizeEventType R (as_Space s) subEvent r)) (\<lambda>(err, subEvent').
     mbnd (if err = None
          then m_enqueueWork R \<lparr>be_space = as_Space s, be_functionID = as_FunctionID s, be_method = me,
                 be_path = path, be_event = subEvent'\<rparr>
          else mret ()) (\<lambda>_.
     m_async_loop R me path e r ss))))"

definition m_handleAsyncSubscriptions :: "router \<Rightarrow> string \<Rightarrow> string \<Rightarrow> event \<Rightarrow> http_request option \<Rightarrow> unit metered" where
  "m_handleAsyncSubscriptions R me path e r =
     m_async_loop R me path e r (AsyncSubscribers (subscriptionCache (r_target R)) me path (ev_EventType e))"

definition m_emitSystemEventReceived :: "router \<Rightarrow> string \<Rightarrow> event \<Rightarrow> http_request \<Rightarrow> string option metered" where
  "m_emitSystemEventReceived R path e r =
     mbnd (mlift (new_event R SystemEventReceivedType mimeJSON
            (SystemEventReceivedData path e (FlattenHeader (rq_Header r))))) (\<lambda>system.
     (case pr_systemPathFromURL (r_paths R) (rq_Host r) path of
        None \<Rightarrow> mlift panic
      | Some p \<Rightarrow>
          mbnd (m_handleAsyncSubscriptions R ''POST'' p system None) (\<lambda>_. mlift (React (r_plugins R) system))))"

text \<open>The three events of a function count under their own type, before the plugins hear of them.\<close>

definition m_emit_function_event :: "router \<Rightarrow> string \<Rightarrow> string \<Rightarrow> event_data \<Rightarrow> event metered" where
  "m_emit_function_event R space t d =
     mbnd (mlift (new_event R t mimeJSON d)) (\<lambda>system.
     mbnd (m_handleAsyncSubscriptions R ''POST'' (pr_systemPathFromSpace (r_paths R) space) system None) (\<lambda>_.
     mbnd (count (received space t)) (\<lambda>_.
     mret system)))"

definition m_emitSystemFunctionInvoking :: "router \<Rightarrow> string \<Rightarrow> string \<Rightarrow> event \<Rightarrow> string option metered" where
  "m_emitSystemFunctionInvoking R space i e =
     (if IsSystem e then mret None
      else mbnd (m_emit_function_event R space SystemFunctionInvokingType (SystemFunctionInvokingData space i e))
             (\<lambda>system. mlift (React (r_plugins R) system)))"

definition m_emitSystemFunctionInvoked :: "router \<Rightarrow> string \<Rightarrow> string \<Rightarrow> event \<Rightarrow> string \<Rightarrow> string option metered" where
  "m_emitSystemFunctionInvoked R space i e result =
     (if IsSystem e then mret None
      else mbnd (m_emit_function_event R space SystemFunctionInvokedType (SystemFunctionInvokedData space i e result))
             (\<lambda>system. mlift (React (r_plugins R) system)))"

definition m_emitSystemFunctionInvocationFailed :: "router \<Rightarrow> string \<Rightarrow> string \<Rightarrow> event \<Rightarrow> call_error \<Rightarrow> unit metered" where
  "m_emitSystemFunctionInvocationFailed R space i e err =
     (if IsSystem e then mret ()
      else mbnd (m_emit_function_event R space SystemFunctionInvocationFailedType
                   (SystemFunctionInvocationFailedData space i e err)) (\<lambda>_. mret ()))"

definition m_callFunction :: "router \<Rightarrow> string \<Rightarrow> string \<Rightarrow> event \<Rightarrow> (router_error, string) res metered" where
  "m_callFunction R space i e =
     mbnd (m_emitSystemFunctionInvoking R space i e) (\<lambda>stopped.
     (case stopped of
        Some m \<Rightarrow> mret (Inl (PluginError m))
      | None \<Rightarrow>
          (case target_Function (r_target R) space i of
             None \<Rightarrow> mret (Inl UnableToLookUp)
           | Some _ \<Rightarrow>
               mbnd (mlift (gets (\<lambda>st. ee_text (r_env R) (event_json (r_env R) (rs_heap st) e)))) (\<lambda>payload.
               mbnd (mlift (call_target R space i payload)) (\<lambda>result.
               (case result of
                  Inl (CallError err) \<Rightarrow>
                    mbnd (m_emitSystemFunctionInvocationFailed R space i e err) (\<lambda>_. mret result)
                | Inl _ \<Rightarrow> mret result
                | Inr _ \<Rightarrow> mbnd (m_emitSystemFunctionInvoked R space i e payload) (\<lambda>_. mret result)))))))"

definition m_httpRequestHandler :: "router \<Rightarrow> string \<Rightarrow> string \<Rightarrow> event \<Rightarrow> response_writer \<Rightarrow> response_writer metered" where
  "m_httpRequestHandler R space i e w = mbnd (m_callFunction R space i e) (\<lambda>resp. mret (write_response R w resp))"

text \<open>
  Received counts before the authorization, with the type the client gave; processed counts after
  the answer, also after an answer that reports a failure.
\<close>

definition m_handleSyncSubscription ::
  "router \<Rightarrow> event \<Rightarrow> sync_subscriber \<Rightarrow> response_writer \<Rightarrow> http_request \<Rightarrow> response_writer metered" where
  "m_handleSyncSubscription R e0 s w r =
     mbnd (count (received (ss_Space s) (ev_EventType e0))) (\<lambda>_.
     mbnd (mlift (authorizeEventType R (ss_Space s) e0 (Some r))) (\<lambda>(err, e).
     (case err of
        Some _ \<Rightarrow> mret (WriteHeader 403 w)
      | None \<Rightarrow>
          mbnd (if ev_EventType e = TypeHTTPRequest then
                 (case ev_Data e of
                    HTTPRequestData a \<Rightarrow>
                      mlift (modify (\<lambda>st. st\<lparr>rs_heap := (rs_heap st)\<lparr>hp_Reqs :=
                        (hp_Reqs (rs_heap st))[a := (hp_Reqs (rs_heap st) ! a)\<lparr>hd_Params := ss_Params s\<rparr>]\<rparr>\<rparr>))
                  | _ \<Rightarrow> mlift panic)
               else mret ()) (\<lambda>_.
          mbnd (m_httpRequestHandler R (ss_Space s) (ss_FunctionID s) e w) (\<lambda>w'.
          mbnd (count (processed (ss_Space s) (ev_EventType e))) (\<lambda>_.
          mret w'))))))"

definition m_event_handler :: "router \<Rightarrow> string \<Rightarrow> http_request \<Rightarrow> response_writer \<Rightarrow> response_writer metered" where
  "m_event_handler R path r w =
     mbnd (mlift (event_from_request R r)) (\<lambda>ev.
     (case ev of
        Inl m \<Rightarrow> mret (error_answer 400 m w)
      | Inr e \<Rightarrow>
          (if IsSystem e then mret (WriteHeader 400 w)
           else
             mbnd (m_emitSystemEventReceived R path e r) (\<lambda>stopped.
             (case stopped of
                Some _ \<Rightarrow> mret w
              | None \<Rightarrow>
                  (let sub = SyncSubscriber (r_pick R) (subscriptionCache (r_target R)) (rq_Method r) path (ev_EventType e) in
                   mbnd (case sub of None \<Rightarrow> mret w | Some s \<Rightarrow> m_handleSyncSubscription R e s w r) (\<lambda>w1.
                   mbnd (m_handleAsyncSubscriptions R (rq_Method r) path e (Some r)) (\<lambda>_.
                   mret (if sub = None then WriteHeader 202 w1 else w1)))))))))"

definition m_serve_request :: "router \<Rightarrow> http_request \<Rightarrow> response_writer metered" where
  "m_serve_request R r =
     mbnd (mlift (gets isDraining)) (\<lambda>draining.
     (if draining then mret (error_answer 503 ''Service Unavailable'' new_response)
      else
        (let path = pr_extractPath (r_paths R) (rq_Host r) (rq_EscapedPath r) in
         (case target_CORS (r_pick R) (corsCache (r_target R)) (requested_method r) path of
            None \<Rightarrow> m_event_handler R path r new_response
          | Some c \<Rightarrow>
              (case r_cors R (cors_options_of c) r new_response of
                 (w, next) \<Rightarrow> if next then m_event_handler R path r w else mret w)))))"

definition m_ServeHTTP :: "router \<Rightarrow> http_request \<Rightarrow> router_state \<times> meters \<Rightarrow> handled \<times> (router_state \<times> meters)" where
  "m_ServeHTTP R r s = (case m_serve_request R r s of (Value w, s') \<Rightarrow> (Responds w, s') | (Panic, s') \<Rightarrow> (Aborted, s'))"

subsection \<open>Workers, and runs\<close>

definition m_processEvent :: "router \<Rightarrow> backlog_event \<Rightarrow> unit metered" where
  "m_processEvent R b =
     mbnd (count (out_of_queue (ev_EventID (be_event b)))) (\<lambda>_.
     mbnd (m_callFunction R (be_space b) (be_functionID b) (be_event b)) (\<lambda>_.
     count (processed (be_space b) customEventType)))"

text \<open>A turn of a worker's loop that finds an event; without one it waits.\<close>

definition m_turn :: "router \<Rightarrow> unit metered" where
  "m_turn R = (\<lambda>(st, me).
     case rs_backlog st of
       Some (b # q) \<Rightarrow> mbnd (count (backlog_add (- 1))) (\<lambda>_. m_processEvent R b) (st\<lparr>rs_backlog := Some q\<rparr>, me)
     | _ \<Rightarrow> (Value (), (st, me)))"

text \<open>
  A run: requests and turns, one after the other, and time that passes. The server recovers a panic
  in a request; one in a worker ends the process and with it the run.
\<close>

datatype action = Request http_request | Turn | Tick nat

fun run_actions :: "router \<Rightarrow> action list \<Rightarrow> router_state \<times> meters \<Rightarrow> router_state \<times> meters" where
  "run_actions R [] s = s"
| "run_actions R (Request r # as) s = run_actions R as (snd (m_ServeHTTP R r s))"
| "run_actions R (Turn # as) s = (case m_turn R s of (Value _, s') \<Rightarrow> run_actions R as s' | (Panic, s') \<Rightarrow> s')"
| "run_actions R (Tick n # as) (st, me) = run_actions R as (st, me\<lparr>me_clock := me_clock me + n\<rparr>)"

subsection \<open>Erasing the metrics\<close>

text \<open>A metered step erases to a step of the router when it does the same to the state, whatever the metrics are.\<close>

definition erases :: "'a metered \<Rightarrow> 'a act \<Rightarrow> bool" where
  "erases m a \<longleftrightarrow> (\<forall>st me. map_prod id fst (m (st, me)) = a st)"

named_theorems erasing

lemma erases_lift [erasing]: "erases (mlift a) a"
  by (simp add: erases_def mlift_def split: prod.split)

lemma erases_bnd [erasing]:
  assumes "erases m a" and "\<And>x. erases (f x) (g x)"
  shows "erases (mbnd m f) (bnd a g)"
  unfolding erases_def
proof (intro allI)
  fix st me
  obtain r st' me' where m: "m (st, me) = (r, (st', me'))" by (metis prod.collapse)
  then have "a st = (r, st')" using assms(1) unfolding erases_def by (metis fst_conv id_apply map_prod_simp)
  then show "map_prod id fst (mbnd m f (st, me)) = bnd a g st"
    using m assms(2) by (cases r) (simp_all add: mbnd_def bnd_def erases_def)
qed

lemma erases_count: "erases m a \<Longrightarrow> erases (mbnd (count h) (\<lambda>_. m)) a"
  by (simp add: erases_def mbnd_def count_def)

lemma erases_count_last: "erases (count h) (ret ())"
  by (simp add: erases_def count_def ret_def)

lemma bnd_ret: "bnd a ret = a"
  by (auto simp: bnd_def ret_def fun_eq_iff split: prod.split result.split)

lemma mret_mbnd [simp]: "mbnd (mret x) f = f x" "mbnd (mlift panic) f = mlift panic"
  by (auto simp: mbnd_def mlift_def ret_def panic_def)

lemma erases_before: "erases m a \<Longrightarrow> (\<And>x. erases (f x) (ret x)) \<Longrightarrow> erases (mbnd m f) a"
  using erases_bnd [of m a f ret] by (simp add: bnd_ret)

lemma erases_gets: "(\<And>x. erases (f x) a) \<Longrightarrow> erases (mbnd (mlift (gets h)) f) a"
  by (simp add: erases_def mbnd_def mlift_def gets_def)

lemma erases_enqueueWork [erasing]: "erases (m_enqueueWork R b) (enqueueWork R b)"
  unfolding m_enqueueWork_def
  by (intro erases_count erases_gets erases_before erases_lift) (simp add: erases_count_last)

lemma erases_async_loop [erasing]: "erases (m_async_loop R me path e r ss) (async_loop R me path e r ss)"
  by (induction ss) (auto intro!: erasing erases_count split: prod.split)

lemma erases_handleAsync [erasing]: "erases (m_handleAsyncSubscriptions R me path e r) (handleAsyncSubscriptions R me path e r)"
  unfolding m_handleAsyncSubscriptions_def handleAsyncSubscriptions_def by (rule erasing)

lemma erases_received [erasing]: "erases (m_emitSystemEventReceived R path e r) (emitSystemEventReceived R path e r)"
  unfolding m_emitSystemEventReceived_def emitSystemEventReceived_def by (auto intro!: erasing split: option.split)

lemma erases_function_event [erasing]: "erases (m_emit_function_event R sp t d) (emit_function_event R sp t d)"
  unfolding m_emit_function_event_def emit_function_event_def by (intro erasing erases_count)

lemma erases_function_events [erasing]:
  "erases (m_emitSystemFunctionInvoking R sp i e) (emitSystemFunctionInvoking R sp i e)"
  "erases (m_emitSystemFunctionInvoked R sp i e result) (emitSystemFunctionInvoked R sp i e result)"
  "erases (m_emitSystemFunctionInvocationFailed R sp i e err) (emitSystemFunctionInvocationFailed R sp i e err)"
  unfolding m_emitSystemFunctionInvoking_def emitSystemFunctionInvoking_def m_emitSystemFunctionInvoked_def
    emitSystemFunctionInvoked_def m_emitSystemFunctionInvocationFailed_def emitSystemFunctionInvocationFailed_def
  by (auto intro!: erasing)

lemma erases_callFunction [erasing]: "erases (m_callFunction R sp i e) (callFunction R sp i e)"
  unfolding m_callFunction_def callFunction_def
  by (auto intro!: erasing split: option.split sum.split router_error.split)

lemma erases_requestHandler [erasing]: "erases (m_httpRequestHandler R sp i e w) (httpRequestHandler R sp i e w)"
  unfolding m_httpRequestHandler_def httpRequestHandler_def by (intro erasing)

lemma erases_handleSync [erasing]: "erases (m_handleSyncSubscription R e s w r) (handleSyncSubscription R e s w r)"
  unfolding m_handleSyncSubscription_def handleSyncSubscription_def
  by (auto intro!: erases_count erasing intro: erases_before split: prod.split option.split event_data.split)

lemma erases_event_handler [erasing]: "erases (m_event_handler R path r w) (event_handler R path r w)"
  unfolding m_event_handler_def event_handler_def
  by (auto intro!: erasing split: sum.split option.split simp: Let_def)

lemma erases_serve_request: "erases (m_serve_request R r) (serve_request R r)"
  unfolding m_serve_request_def serve_request_def
  by (auto intro!: erasing split: option.split prod.split simp: Let_def)

lemma erases_processEvent: "erases (m_processEvent R b) (processEvent R b)"
  unfolding m_processEvent_def processEvent_def
  by (intro erases_count erasing erases_count_last)

text \<open>Without its metrics the router of this theory is the router of theory Router, so what is proved of the
  one holds of the other.\<close>

lemma metrics_change_nothing:
  "map_prod id fst (m_ServeHTTP R r (st, me)) = ServeHTTP R r st \<and>
   map_prod id fst (m_processEvent R b (st, me)) = processEvent R b st"
proof -
  obtain v st' me' where m: "m_serve_request R r (st, me) = (v, (st', me'))" by (metis prod.collapse)
  moreover have "serve_request R r st = map_prod id fst (m_serve_request R r (st, me))"
    using erases_serve_request by (simp add: erases_def)
  ultimately have "map_prod id fst (m_ServeHTTP R r (st, me)) = ServeHTTP R r st"
    by (cases v) (simp_all add: m_ServeHTTP_def ServeHTTP_def)
  then show ?thesis using erases_processEvent by (simp add: erases_def)
qed

subsection \<open>Quantities that never decrease\<close>

text \<open>
  What the metrics show is proved by quantities of a state and its metrics. A step grows a quantity by at least
  \<open>k\<close>, also when it ends in a panic; \<open>k\<close> may be negative. The locale \<open>meter_quantity\<close> lists what a quantity
  has to do at the few places where metrics are updated, with the weight \<open>c\<close> of a custom event, and
  proves that requests and calls of functions never make it smaller; \<open>turn_quantity\<close> does it for
  turns and whole runs.
\<close>

type_synonym quantity = "router_state \<times> meters \<Rightarrow> int"

definition grows :: "quantity \<Rightarrow> int \<Rightarrow> 'a metered \<Rightarrow> bool" where
  "grows q k m \<longleftrightarrow> (\<forall>s. q s + k \<le> q (snd (m s)))"

lemma grows_bnd:
  assumes "grows q k m" and "\<And>x. grows q j (f x)" and "j \<le> 0"
  shows "grows q (k + j) (mbnd m f)"
  unfolding grows_def
proof
  fix s
  obtain r s' where m: "m s = (r, s')" by (cases "m s")
  then have "q s + k \<le> q s'" using assms(1) unfolding grows_def by (metis snd_conv)
  moreover have "q s' + j \<le> q (snd (f x s'))" for x using assms(2) unfolding grows_def by blast
  ultimately show "q s + (k + j) \<le> q (snd (mbnd m f s))"
    using assms(3) by (cases r) (auto simp: mbnd_def m intro: order_trans [of _ "q s' + j"])
qed

lemma grows_bnd_0: "grows q 0 m \<Longrightarrow> (\<And>x. grows q 0 (f x)) \<Longrightarrow> grows q 0 (mbnd m f)"
  using grows_bnd [of q 0 m 0 f] by simp

lemma grows_after: "grows q 0 m \<Longrightarrow> (\<And>x. grows q (- k) (f x)) \<Longrightarrow> 0 \<le> k \<Longrightarrow> grows q (- k) (mbnd m f)"
  using grows_bnd [of q 0 m "- k" f] by simp

lemma grows_earn: "grows q k m \<Longrightarrow> (\<And>x. grows q (- k) (f x)) \<Longrightarrow> 0 \<le> k \<Longrightarrow> grows q 0 (mbnd m f)"
  using grows_bnd [of q k m "- k" f] by simp

lemma grows_less: "grows q k m \<Longrightarrow> j \<le> k \<Longrightarrow> grows q j m"
  unfolding grows_def by (meson add_left_mono order_trans)

text \<open>What most steps of the router leave alone.\<close>

definition still :: "router_state \<Rightarrow> router_state \<Rightarrow> bool" where
  "still st st' \<longleftrightarrow> rs_backlog st' = rs_backlog st \<and> rs_dropped st' = rs_dropped st"

lemma still_frame: "copies_types R \<Longrightarrow> router_frame still R (\<lambda>_. False)"
  by unfold_locales (auto simp: still_def)

definition custom :: "int \<Rightarrow> string \<Rightarrow> int" where
  "custom c t = (if t = customEventType then c else 0)"

locale meter_quantity =
  fixes R :: router and q :: quantity and c :: int
  assumes copies: "copies_types R" and weight: "0 \<le> c"
    and unmoved: "still st st' \<Longrightarrow> q (st', me) = q (st, me)"
    and gets_received: "q (st, me) + custom c t \<le> q (st, received sp t me)"
    and gets_processed: "q (st, me) - custom c t \<le> q (st, processed sp t me)"
    and enqueues: "grows q (- c) (m_enqueueWork R b)"
begin

sublocale plain: router_frame still R "\<lambda>_. False"
  by (rule still_frame [OF copies])

lemma grows_lift:
  assumes "steps still a"
  shows "grows q 0 (mlift a)"
proof -
  have "q (st, me) \<le> q (snd (mlift a (st, me)))" for st me
  proof -
    obtain r st' where a: "a st = (r, st')" by fastforce
    then have "still st st'" using assms unfolding steps_def by (metis snd_conv)
    then show ?thesis using unmoved by (simp add: mlift_def a)
  qed
  then show ?thesis by (simp add: grows_def split_paired_All)
qed

lemmas lifted = grows_lift [OF plain.steps_call] grows_lift [OF plain.steps_new] grows_lift [OF plain.steps_copy]
  grows_lift [OF plain.steps_authorize] grows_lift [OF plain.steps_React] grows_lift [OF plain.steps_ret]
  grows_lift [OF plain.steps_panic] grows_lift [OF plain.steps_gets]

lemma grows_received: "grows q (custom c t) (count (received sp t))"
  by (auto simp: grows_def count_def intro: gets_received)

lemma grows_processed: "grows q (- custom c t) (count (processed sp t))"
  using gets_processed by (auto simp: grows_def count_def)

lemma custom_range: "0 \<le> custom c t" "custom c t \<le> c"
  using weight by (simp_all add: custom_def)

lemma grows_async_loop: "grows q 0 (m_async_loop R me path e r ss)"
proof (induction ss)
  case Nil
  then show ?case by (simp add: lifted)
next
  case (Cons s ss)
  have step: "grows q (- c) (mbnd (if err = None then m_enqueueWork R b else mret ()) (\<lambda>_. m_async_loop R me path e r ss))"
    for err :: "router_error option" and b
    using grows_bnd [OF enqueues Cons] grows_less [OF Cons, of "- c"] weight by (cases err) simp_all
  show ?case
    unfolding m_async_loop.simps
    by (rule grows_earn [OF grows_received], rule grows_after [OF lifted(3)], rule grows_after [OF lifted(4)])
      (simp_all add: custom_def split_beta weight step)
qed

lemma grows_handleAsync: "grows q 0 (m_handleAsyncSubscriptions R me path e r)"
  unfolding m_handleAsyncSubscriptions_def by (rule grows_async_loop)

lemma grows_emitted: "grows q 0 (m_emitSystemEventReceived R path e r)"
  unfolding m_emitSystemEventReceived_def
  by (auto intro!: grows_bnd_0 lifted grows_handleAsync split: option.split)

lemma grows_function_event: "grows q 0 (m_emit_function_event R sp t d)"
  unfolding m_emit_function_event_def
  by (intro grows_bnd_0 lifted grows_handleAsync grows_less [OF grows_received] custom_range(1))

lemma grows_callFunction: "grows q 0 (m_callFunction R sp i e)"
  unfolding m_callFunction_def m_emitSystemFunctionInvoking_def m_emitSystemFunctionInvoked_def
    m_emitSystemFunctionInvocationFailed_def
  by (auto intro!: grows_bnd_0 lifted grows_function_event split: option.split sum.split router_error.split simp del: mret_mbnd)

lemma grows_requestHandler: "grows q 0 (m_httpRequestHandler R sp i e w)"
  unfolding m_httpRequestHandler_def by (intro grows_bnd_0 grows_callFunction lifted)

lemma grows_modify: "grows q 0 (mlift (modify (\<lambda>st. st\<lparr>rs_heap := f st\<rparr>)))"
  by (rule grows_lift) (simp add: steps_def modify_def still_def)

text \<open>Received and processed count under the same type: authorization keeps it.\<close>

lemma grows_handleSync: "grows q 0 (m_handleSyncSubscription R e s w r)"
proof -
  let ?k = "custom c (ev_EventType e)"
  have answer: "grows q (- custom c t) (mbnd (m_httpRequestHandler R sp i e' w) (\<lambda>w'.
      mbnd (count (processed sp t)) (\<lambda>_. mret w')))" for sp i e' t
  proof (rule grows_after [OF grows_requestHandler])
    show "grows q (- custom c t) (mbnd (count (processed sp t)) (\<lambda>_. mret w'))" for w'
      using grows_bnd [OF grows_processed [of t sp], of 0 "\<lambda>_. mret w'"] lifted(6) [of w'] by simp
  qed (rule custom_range)
  have authorized: "grows q (- ?k) (mbnd (mlift (authorizeEventType R sp e rq)) f)"
    if "\<And>err e'. ev_EventType e' = ev_EventType e \<Longrightarrow> grows q (- ?k) (f (err, e'))" for sp rq f
  proof -
    have "q (st, me) - ?k \<le> q (snd (mbnd (mlift (authorizeEventType R sp e rq)) f (st, me)))" for st me
    proof -
      obtain v st' where a: "authorizeEventType R sp e rq st = (v, st')" by fastforce
      have "grows q 0 (mlift (authorizeEventType R sp e rq))" by (rule lifted)
      then have "q (st, me) + 0 \<le> q (snd (mlift (authorizeEventType R sp e rq) (st, me)))" unfolding grows_def by blast
      then have le: "q (st, me) \<le> q (st', me)" by (simp add: mlift_def a)
      show ?thesis
      proof (cases v)
        case (Value x)
        obtain err e' where x: "x = (err, e')" by fastforce
        have "grows q (- ?k) (f (err, e'))" using a plain.authorize_type that unfolding Value x by blast
        then have "q (st', me) - ?k \<le> q (snd (f (err, e') (st', me)))" by (simp add: grows_def)
        then show ?thesis using le by (simp add: mbnd_def mlift_def a Value x)
      qed (use le custom_range [of "ev_EventType e"] in \<open>simp add: mbnd_def mlift_def a\<close>)
    qed
    then show ?thesis by (simp add: grows_def split_paired_All)
  qed
  show ?thesis
    unfolding m_handleSyncSubscription_def
    by (intro grows_earn [OF grows_received] authorized custom_range)
      (auto intro!: grows_after answer grows_less [OF lifted(6)] grows_modify custom_range lifted
        simp del: mret_mbnd split: option.split event_data.split)
qed

lemma grows_event_handler: "grows q 0 (m_event_handler R path r w)"
proof -
  have f: "steps still (event_from_request R r)"
    by (auto simp: steps_def event_from_request_def still_def split: go.split prod.split)
  show ?thesis
    unfolding m_event_handler_def
    by (auto intro!: grows_bnd_0 grows_lift [OF f] grows_emitted grows_handleSync grows_handleAsync lifted
        split: sum.split option.split simp: Let_def simp del: mret_mbnd)
qed

lemma grows_ServeHTTP: "q s \<le> q (snd (m_ServeHTTP R r s))"
proof -
  have "grows q 0 (m_serve_request R r)"
    unfolding m_serve_request_def
    by (auto intro!: grows_bnd_0 grows_event_handler lifted split: option.split prod.split simp: Let_def simp del: mret_mbnd)
  then have le: "q s + 0 \<le> q (snd (m_serve_request R r s))" unfolding grows_def by blast
  obtain v s' where "m_serve_request R r s = (v, s')" by (cases "m_serve_request R r s")
  then show ?thesis using le by (cases v) (simp_all add: m_ServeHTTP_def)
qed

end

locale turn_quantity = meter_quantity +
  assumes out_of: "q (st, me) \<le> q (st, out_of_queue i me)"
    and taken: "rs_backlog st = Some (b # bs) \<Longrightarrow> q (st, me) + c \<le> q (st\<lparr>rs_backlog := Some bs\<rparr>, backlog_add (- 1) me)"
    and ticks: "q (st, me) \<le> q (st, me\<lparr>me_clock := n\<rparr>)"
begin

lemma grows_processEvent: "grows q (- c) (m_processEvent R b)"
proof -
  have "grows q 0 (count (out_of_queue i))" for i
    by (simp add: grows_def count_def split_paired_All out_of)
  then show ?thesis
    unfolding m_processEvent_def
    using grows_processed [of customEventType] weight
    by (intro grows_after grows_callFunction) (simp_all add: custom_def)
qed

lemma grows_turn: "q s \<le> q (snd (m_turn R s))"
proof -
  obtain st me where s: "s = (st, me)" by (cases s)
  show ?thesis
  proof (cases "\<exists>b bs. rs_backlog st = Some (b # bs)")
    case True
    then obtain b bs where b: "rs_backlog st = Some (b # bs)" by blast
    let ?s = "(st\<lparr>rs_backlog := Some bs\<rparr>, backlog_add (- 1) me)"
    have "q ?s + - c \<le> q (snd (m_processEvent R b ?s))" using grows_processEvent unfolding grows_def by blast
    then show ?thesis using taken [OF b, of me] by (simp add: s b m_turn_def mbnd_def count_def)
  next
    case False
    then show ?thesis by (auto simp: s m_turn_def split: option.split list.split)
  qed
qed

lemma grows_run: "q s \<le> q (run_actions R as s)"
proof (induction as arbitrary: s)
  case (Cons a as)
  show ?case
  proof (cases a)
    case (Request r)
    then show ?thesis using Cons [of "snd (m_ServeHTTP R r s)"] grows_ServeHTTP [of s r] by simp
  next
    case Turn
    obtain v s' where t: "m_turn R s = (v, s')" by (cases "m_turn R s")
    then show ?thesis using Cons [of s'] grows_turn [of s] by (cases v) (simp_all add: Turn)
  next
    case (Tick n)
    obtain st me where "s = (st, me)" by (cases s)
    then show ?thesis
      using Cons [of "(st, me\<lparr>me_clock := me_clock me + n\<rparr>)"] ticks [of st me "me_clock me + n"] by (simp add: Tick)
  qed
qed simp

end

subsection \<open>What the metrics show\<close>

definition backlog_length :: "router_state \<Rightarrow> int" where
  "backlog_length st = (case rs_backlog st of None \<Rightarrow> 0 | Some bs \<Rightarrow> int (length bs))"

definition with_type :: "string \<Rightarrow> (string \<times> string) multiset \<Rightarrow> nat" where
  "with_type t M = size (filter_mset (\<lambda>l. snd l = t) M)"

text \<open>How the gauge and the backlog, and the counter and the drops, differ; any multiple of it never decreases.\<close>

definition gauge_error :: quantity where
  "gauge_error s = metricBacklog (snd s) - backlog_length (fst s)"

definition drop_error :: quantity where
  "drop_error s = int (size (metricEventsDropped (snd s))) - int (rs_dropped (fst s))"

definition other_labels :: quantity where
  "other_labels s = int (size (filter_mset (\<lambda>l. l \<noteq> ([], customEventType)) (metricEventsDropped (snd s))))"

text \<open>The custom events that were received and neither processed nor dropped and do not wait either.\<close>

definition surplus :: quantity where
  "surplus s = int (with_type customEventType (metricEventsReceived (snd s))) -
     int (with_type customEventType (metricEventsProcessed (snd s))) - int (size (metricEventsDropped (snd s))) -
     metricBacklog (snd s)"

lemmas quantity_defs = gauge_error_def drop_error_def other_labels_def surplus_def

lemma m_enqueueWork_cases:
  "m_enqueueWork R b (st, me) =
     (if has_room R st
      then (Value (), (st\<lparr>rs_backlog := Some (the (rs_backlog st) @ [b])\<rparr>, backlog_add 1 (in_queue (ev_EventID (be_event b)) me)))
      else (Value (), (st\<lparr>rs_dropped := Suc (rs_dropped st)\<rparr>,
              dropped [] customEventType (in_queue (ev_EventID (be_event b)) me))))"
  by (simp add: m_enqueueWork_def mbnd_def mlift_def count_def gets_def enqueueWork_def modify_def has_room_def split: option.split)

lemma queue_fields [simp]:
  "metricEventsReceived (in_queue i me) = metricEventsReceived me" "metricEventsProcessed (in_queue i me) = metricEventsProcessed me"
  "metricEventsDropped (in_queue i me) = metricEventsDropped me" "metricBacklog (in_queue i me) = metricBacklog me"
  "metricEventsReceived (out_of_queue i me) = metricEventsReceived me"
  "metricEventsProcessed (out_of_queue i me) = metricEventsProcessed me"
  "metricEventsDropped (out_of_queue i me) = metricEventsDropped me" "metricBacklog (out_of_queue i me) = metricBacklog me"
  by (simp_all add: meter_defs)

lemma enqueue_quantities:
  "gauge_error (snd (m_enqueueWork R b s)) = gauge_error s" "drop_error (snd (m_enqueueWork R b s)) = drop_error s"
  "other_labels (snd (m_enqueueWork R b s)) = other_labels s" "surplus (snd (m_enqueueWork R b s)) = surplus s - 1"
  by (cases s; force simp: m_enqueueWork_cases quantity_defs backlog_length_def has_room_def meter_defs split: option.splits)+

interpretation gauge: turn_quantity "shallow R" "\<lambda>s. n * gauge_error s" 0 for R n
proof unfold_locales
  show "grows (\<lambda>s. n * gauge_error s) (- 0) (m_enqueueWork (shallow R) b)" for b by (simp add: grows_def enqueue_quantities)
qed (auto simp: shallow_types gauge_error_def backlog_length_def algebra_simps still_def custom_def meter_defs)

interpretation drops: turn_quantity "shallow R" "\<lambda>s. n * drop_error s" 0 for R n
proof unfold_locales
  show "grows (\<lambda>s. n * drop_error s) (- 0) (m_enqueueWork (shallow R) b)" for b by (simp add: grows_def enqueue_quantities)
qed (auto simp: shallow_types drop_error_def still_def custom_def meter_defs)

interpretation labels: turn_quantity "shallow R" "\<lambda>s. - other_labels s" 0 for R
proof unfold_locales
  show "grows (\<lambda>s. - other_labels s) (- 0) (m_enqueueWork (shallow R) b)" for b by (simp add: grows_def enqueue_quantities)
qed (auto simp: shallow_types other_labels_def still_def custom_def meter_defs)

interpretation surplus: turn_quantity "shallow R" surplus 1 for R
proof unfold_locales
  show "grows surplus (- 1) (m_enqueueWork (shallow R) b)" for b by (simp add: grows_def enqueue_quantities)
qed (auto simp: shallow_types surplus_def with_type_def still_def custom_def meter_defs)

text \<open>An event whose time was taken keeps its entry, whatever requests do; only processing an event with its
  identifier removes it. So the entry of an event that was dropped can stay for ever.\<close>

definition waits :: "string \<Rightarrow> quantity" where
  "waits i s = (if receivedEvents (me_queue (snd s)) i = None then 0 else 1)"

interpretation entry: meter_quantity "shallow R" "waits i" 0 for R i
  by unfold_locales
    (auto simp: shallow_types grows_def waits_def still_def m_enqueueWork_cases custom_def meter_defs reportEventInTheQueue_def)

lemma entry_survives_request:
  assumes "shallow_copier R" and "receivedEvents (me_queue me) i \<noteq> None"
  shows "receivedEvents (me_queue (snd (snd (m_ServeHTTP R r (st, me))))) i \<noteq> None"
  using entry.grows_ServeHTTP [of i "(st, me)" R r] assms by (simp add: shallow_id waits_def split: if_splits)

lemma entry_survives_other_event:
  assumes "shallow_copier R" and "receivedEvents (me_queue me) i \<noteq> None" and "ev_EventID (be_event b) \<noteq> i"
  shows "receivedEvents (me_queue (snd (snd (m_processEvent R b (st, me))))) i \<noteq> None"
proof -
  have "grows (waits i) 0 (count (out_of_queue j))" if "j \<noteq> i" for j
    using that by (auto simp: grows_def count_def waits_def meter_defs reportEventOutOfQueue_def split: option.split)
  then have "grows (waits i) 0 (m_processEvent (shallow R) b)"
    unfolding m_processEvent_def using assms(3) entry.grows_processed [of i customEventType "be_space b"]
    by (intro grows_bnd_0 entry.grows_callFunction) (simp_all add: custom_def)
  then have "waits i (st, me) + 0 \<le> waits i (snd (m_processEvent (shallow R) b (st, me)))" unfolding grows_def by blast
  then show ?thesis using assms by (simp add: shallow_id waits_def split: if_splits)
qed

text \<open>C22: After any run of requests and turns of a worker, one after the other, the gauge is the length of
  the backlog, the counter of dropped events is the number of dropped events and counts them all
  for no space and the type \<^verbatim>\<open>custom\<close>, and at least as many custom events were received as
  were processed, were dropped and wait in the backlog.\<close>

theorem metrics_tell_the_truth:
  assumes "shallow_copier R" and "run_actions R as (StartWorkers NewRouter, no_meters) = (st, me)"
  shows "metricBacklog me = backlog_length st \<and>
    metricEventsDropped me = replicate_mset (rs_dropped st) ([], customEventType) \<and>
    int (with_type customEventType (metricEventsProcessed me)) + int (rs_dropped st) + backlog_length st
      \<le> int (with_type customEventType (metricEventsReceived me))"
proof -
  let ?s = "(StartWorkers NewRouter, no_meters)"
  have start: "gauge_error ?s = 0" "drop_error ?s = 0" "other_labels ?s = 0" "surplus ?s = 0"
    by (simp_all add: quantity_defs StartWorkers_def NewRouter_def no_meters_def backlog_length_def with_type_def)
  have run: "run_actions (shallow R) as ?s = (st, me)" using assms by (simp add: shallow_id)
  have gauge: "gauge_error (st, me) = 0" using gauge.grows_run [of 1 ?s R as] gauge.grows_run [of "- 1" ?s R as] start run by simp
  have drops: "drop_error (st, me) = 0" using drops.grows_run [of 1 ?s R as] drops.grows_run [of "- 1" ?s R as] start run by simp
  have "other_labels (st, me) \<le> 0" using labels.grows_run [of ?s R as] start(3) run by simp
  then have "size (filter_mset (\<lambda>l. l \<noteq> ([], customEventType)) (metricEventsDropped me)) = 0" by (simp add: other_labels_def)
  then have "set_mset (metricEventsDropped me) \<subseteq> {([], customEventType)}" by (auto simp: filter_mset_eq_conv)
  then have "metricEventsDropped me = replicate_mset (rs_dropped st) ([], customEventType)"
    using set_mset_subset_singletonD [of "metricEventsDropped me" "([], customEventType)"] drops by (simp add: drop_error_def)
  then show ?thesis using surplus.grows_run [of ?s R as] start run gauge by (simp add: surplus_def gauge_error_def)
qed

text \<open>Three subscribers and room for two events.\<close>

theorem metrics_tell_the_truth_witness:
  "\<exists>st me. run_actions (ex_router (plain_event_env JNull) (subscribed ''user.created'' [(''a'', ''f''), (''b'', ''g''), (''c'', ''h'')]) ''x'')
      [Request (ex_http [(''Event'', ''user.created'', [])] ''x''), Tick 5, Turn, Turn] (StartWorkers NewRouter, no_meters) = (st, me) \<and>
    metricBacklog me = backlog_length st \<and> size (metricEventsDropped me) = rs_dropped st"
proof -
  obtain st me where s: "run_actions (ex_router (plain_event_env JNull)
      (subscribed ''user.created'' [(''a'', ''f''), (''b'', ''g''), (''c'', ''h'')]) ''x'')
      [Request (ex_http [(''Event'', ''user.created'', [])] ''x''), Tick 5, Turn, Turn] (StartWorkers NewRouter, no_meters) = (st, me)"
    by (metis surj_pair)
  then show ?thesis using metrics_tell_the_truth [OF ex_shallow s] by (metis size_replicate_mset)
qed

end
