(* ===== verification/Interleaving.thy ===== *)
theory Interleaving
  imports ServiceProps
begin

section \<open>Concurrent requests to the configuration services\<close>

text \<open>
  The handlers of the configuration API run in goroutines of their own, several gateways share
  one database, and no lock is held over an operation of the services: what is atomic is a
  single call of the store. Here the writing operations of theory Services are given as the
  calls they make, one after the other: \<open>steps\<close> is a call of the store together with what the
  operation goes on to do with its answer. \<open>exec\<close> runs an operation alone and is proved to be
  the operation of theory Services; \<open>interleave\<close> runs several of them, in the order in which a
  schedule lets each one make its next call.
\<close>

subsection \<open>Operations as sequences of store calls\<close>

datatype kind = EventTypes | Functions | Subscriptions | CORSes

fun store_of :: "('st, 'h) service \<Rightarrow> kind \<Rightarrow> ('st, 'h) kv" where
  "store_of svc EventTypes = EventTypeStore svc"
| "store_of svc Functions = FunctionStore svc"
| "store_of svc Subscriptions = SubscriptionStore svc"
| "store_of svc CORSes = CORSStore svc"

datatype 'a steps =
    Done 'a
  | GetStep kind string "(string, kvpair) res \<Rightarrow> 'a steps"
  | ListStep kind string "(string, kvpair list) res \<Rightarrow> 'a steps"
  | PutStep kind string blob "string option \<Rightarrow> 'a steps"
  | CreateStep kind string blob "(string, bool \<times> kvpair option) res \<Rightarrow> 'a steps"
  | DeleteStep kind string "string option \<Rightarrow> 'a steps"

text \<open>The next call, and an operation that runs alone to its end.\<close>

fun one_step :: "('st, 'h) service \<Rightarrow> 'a steps \<Rightarrow> 'st \<Rightarrow> 'a steps \<times> 'st" where
  "one_step svc (Done a) st = (Done a, st)"
| "one_step svc (GetStep d k c) st = (c (kv_Get (store_of svc d) k st), st)"
| "one_step svc (ListStep d k c) st = (c (kv_List (store_of svc d) k st), st)"
| "one_step svc (PutStep d k v c) st =
     (case kv_Put (store_of svc d) k v st of (e, st') \<Rightarrow> (c e, st'))"
| "one_step svc (CreateStep d k v c) st =
     (case kv_AtomicPut (store_of svc d) k v None st of (r, st') \<Rightarrow> (c r, st'))"
| "one_step svc (DeleteStep d k c) st =
     (case kv_Delete (store_of svc d) k st of (e, st') \<Rightarrow> (c e, st'))"

primrec exec :: "('st, 'h) service \<Rightarrow> 'a steps \<Rightarrow> 'st \<Rightarrow> 'a \<times> 'st" where
  "exec svc (Done a) = (\<lambda>st. (a, st))"
| "exec svc (GetStep d k c) = (\<lambda>st. exec svc (c (kv_Get (store_of svc d) k st)) st)"
| "exec svc (ListStep d k c) = (\<lambda>st. exec svc (c (kv_List (store_of svc d) k st)) st)"
| "exec svc (PutStep d k v c) =
     (\<lambda>st. case kv_Put (store_of svc d) k v st of (e, st') \<Rightarrow> exec svc (c e) st')"
| "exec svc (CreateStep d k v c) =
     (\<lambda>st. case kv_AtomicPut (store_of svc d) k v None st of (r, st') \<Rightarrow> exec svc (c r) st')"
| "exec svc (DeleteStep d k c) =
     (\<lambda>st. case kv_Delete (store_of svc d) k st of (e, st') \<Rightarrow> exec svc (c e) st')"

subsection \<open>The operations\<close>

text \<open>The reads that several operations make, each with the rest of the operation.\<close>

definition get_function :: "env \<Rightarrow> string \<Rightarrow> string \<Rightarrow> ((svc_error, func) res \<Rightarrow> 'a steps) \<Rightarrow> 'a steps" where
  "get_function E sp i c = GetStep Functions (FunctionKey sp i) (\<lambda>r.
     c (case r of Inl e \<Rightarrow> Inl (get_error (ErrFunctionNotFound i) e) | Inr p \<Rightarrow> decode (read_func E) (Value p)))"

definition get_event_type :: "string \<Rightarrow> string \<Rightarrow> ((svc_error, event_type) res \<Rightarrow> 'a steps) \<Rightarrow> 'a steps" where
  "get_event_type sp n c = GetStep EventTypes (EventTypeKey sp n) (\<lambda>r.
     c (case r of Inl e \<Rightarrow> Inl (get_error (ErrEventTypeNotFound n) e) | Inr p \<Rightarrow> decode read_event_type (Value p)))"

definition get_subscription ::
  "string \<Rightarrow> string \<Rightarrow> ((svc_error, subscription) res \<Rightarrow> 'a steps) \<Rightarrow> 'a steps" where
  "get_subscription sp i c = GetStep Subscriptions (subscriptionPath sp i) (\<lambda>r.
     c (case r of Inl e \<Rightarrow> Inl (get_error (ErrSubscriptionNotFound i) e)
        | Inr p \<Rightarrow> decode read_subscription (Value p)))"

definition get_cors :: "string \<Rightarrow> string \<Rightarrow> ((svc_error, cors) res \<Rightarrow> 'a steps) \<Rightarrow> 'a steps" where
  "get_cors sp i c = GetStep CORSes (CORSKey sp i) (\<lambda>r.
     c (case r of Inl e \<Rightarrow> Inl (get_error (ErrCORSNotFound i) e) | Inr p \<Rightarrow> decode read_cors (Value p)))"

definition list_subscriptions :: "string \<Rightarrow> ((svc_error, subscription list) res \<Rightarrow> 'a steps) \<Rightarrow> 'a steps" where
  "list_subscriptions sp c = ListStep Subscriptions (spacePath sp) (\<lambda>r.
     c (list_entities read_subscription sub_Metadata [] r))"

definition list_event_types :: "string \<Rightarrow> ((svc_error, event_type list) res \<Rightarrow> 'a steps) \<Rightarrow> 'a steps" where
  "list_event_types sp c = ListStep EventTypes (spacePath sp) (\<lambda>r.
     c (list_entities read_event_type et_Metadata [] r))"

definition authorizer_steps :: "env \<Rightarrow> event_type \<Rightarrow> (svc_error option \<Rightarrow> 'a steps) \<Rightarrow> 'a steps" where
  "authorizer_steps E t c =
     (case et_AuthorizerID t of
        None \<Rightarrow> c None
      | Some a \<Rightarrow> get_function E (et_Space t) a (\<lambda>r.
          c (case r of Inl Panicked \<Rightarrow> Some Panicked
             | Inl _ \<Rightarrow> Some ErrAuthorizerDoesNotExists | Inr _ \<Rightarrow> None)))"

definition conflict_steps ::
  "(nat \<Rightarrow> nat) \<Rightarrow> subscription \<Rightarrow> (svc_error option \<Rightarrow> 'a steps) \<Rightarrow> 'a steps" where
  "conflict_steps pick s c =
     (if sub_Type s = TypeSync
      then ListStep Subscriptions (spacePath (sub_Space s)) (\<lambda>r.
        c (case conflict_tree pick (sub_Method s) (sub_EventType s) NewNode
                  (case r of Inl _ \<Rightarrow> [] | Inr ps \<Rightarrow> ps) of
             Inl e \<Rightarrow> Some e
           | Inr tree \<Rightarrow>
               (case fst (AddRoute pick tree (sub_Path s) (sub_Space s, [])) of
                  Some e \<Rightarrow> Some (ErrPathConfict (route_error_text e))
                | None \<Rightarrow> None)))
      else c None)"

text \<open>The last call of an operation that creates or replaces an entity.\<close>

definition create_steps :: "kind \<Rightarrow> string \<Rightarrow> blob \<Rightarrow> svc_error option steps" where
  "create_steps d k v = CreateStep d k v (\<lambda>r. Done (case r of Inl e \<Rightarrow> Some (StoreError e) | Inr _ \<Rightarrow> None))"

definition put_steps :: "kind \<Rightarrow> string \<Rightarrow> blob \<Rightarrow> svc_error option steps" where
  "put_steps d k v = PutStep d k v (\<lambda>r. Done (case r of Some e \<Rightarrow> Some (StoreError e) | None \<Rightarrow> None))"

definition delete_steps :: "kind \<Rightarrow> string \<Rightarrow> svc_error \<Rightarrow> svc_error option steps" where
  "delete_steps d k e = DeleteStep d k (\<lambda>r. Done (case r of Some _ \<Rightarrow> Some e | None \<Rightarrow> None))"

definition CreateFunction_steps :: "env \<Rightarrow> func \<Rightarrow> svc_error option steps" where
  "CreateFunction_steps E f0 =
     (case validateFunction E f0 of
        Inl e \<Rightarrow> Done (Some e)
      | Inr f \<Rightarrow> GetStep Functions (FunctionKey (fn_Space f) (fn_ID f)) (\<lambda>r.
          case r of
            Inr _ \<Rightarrow> Done (Some (ErrFunctionAlreadyRegistered (fn_ID f)))
          | Inl _ \<Rightarrow> create_steps Functions (FunctionKey (fn_Space f) (fn_ID f)) (Doc (func_json f))))"

definition UpdateFunction_steps :: "env \<Rightarrow> func \<Rightarrow> svc_error option steps" where
  "UpdateFunction_steps E f0 =
     (case validateFunction E f0 of
        Inl e \<Rightarrow> Done (Some e)
      | Inr f \<Rightarrow> GetStep Functions (FunctionKey (fn_Space f) (fn_ID f)) (\<lambda>r.
          case r of
            Inl _ \<Rightarrow> Done (Some (ErrFunctionNotFound (fn_ID f)))
          | Inr _ \<Rightarrow> put_steps Functions (FunctionKey (fn_Space f) (fn_ID f)) (Doc (func_json f))))"

definition DeleteFunction_steps :: "string \<Rightarrow> string \<Rightarrow> svc_error option steps" where
  "DeleteFunction_steps sp i =
     list_subscriptions sp (\<lambda>r. case r of
        Inl e \<Rightarrow> Done (Some e)
      | Inr subs \<Rightarrow>
          if list_ex (\<lambda>s. i = sub_FunctionID s) subs then Done (Some ErrFunctionHasSubscriptions)
          else list_event_types sp (\<lambda>r. case r of
             Inl e \<Rightarrow> Done (Some e)
           | Inr types \<Rightarrow>
               (case find (\<lambda>t. et_AuthorizerID t = Some i) types of
                  Some t \<Rightarrow> Done (Some (ErrFunctionIsAuthorizer i (et_Name t)))
                | None \<Rightarrow> delete_steps Functions (FunctionKey sp i) (ErrFunctionNotFound i))))"

definition CreateEventType_steps :: "env \<Rightarrow> event_type \<Rightarrow> svc_error option steps" where
  "CreateEventType_steps E t0 =
     (case validateEventType E t0 of
        Inl e \<Rightarrow> Done (Some e)
      | Inr t \<Rightarrow> GetStep EventTypes (EventTypeKey (et_Space t) (et_Name t)) (\<lambda>r.
          case r of
            Inr _ \<Rightarrow> Done (Some (ErrEventTypeAlreadyExists (et_Name t)))
          | Inl _ \<Rightarrow> authorizer_steps E t (\<lambda>a. case a of
              Some e \<Rightarrow> Done (Some e)
            | None \<Rightarrow> create_steps EventTypes (EventTypeKey (et_Space t) (et_Name t)) (Doc (event_type_json t)))))"

definition UpdateEventType_steps :: "env \<Rightarrow> event_type \<Rightarrow> svc_error option steps" where
  "UpdateEventType_steps E t0 =
     (case validateEventType E t0 of
        Inl e \<Rightarrow> Done (Some e)
      | Inr t \<Rightarrow> get_event_type (et_Space t) (et_Name t) (\<lambda>r. case r of
            Inl e \<Rightarrow> Done (Some e)
          | Inr _ \<Rightarrow> authorizer_steps E t (\<lambda>a. case a of
              Some e \<Rightarrow> Done (Some e)
            | None \<Rightarrow> put_steps EventTypes (EventTypeKey (et_Space t) (et_Name t)) (Doc (event_type_json t)))))"

definition DeleteEventType_steps :: "string \<Rightarrow> string \<Rightarrow> svc_error option steps" where
  "DeleteEventType_steps sp n =
     list_subscriptions sp (\<lambda>r. case r of
        Inl e \<Rightarrow> Done (Some e)
      | Inr subs \<Rightarrow>
          if list_ex (\<lambda>s. n = sub_EventType s) subs then Done (Some ErrEventTypeHasSubscriptions)
          else delete_steps EventTypes (EventTypeKey sp n) (ErrEventTypeNotFound n))"

definition CreateSubscription_steps :: "(nat \<Rightarrow> nat) \<Rightarrow> env \<Rightarrow> subscription \<Rightarrow> svc_error option steps" where
  "CreateSubscription_steps pick E s0 =
     (case validateSubscription E s0 of
        Inl e \<Rightarrow> Done (Some e)
      | Inr s1 \<Rightarrow>
          (let s = s1\<lparr>sub_ID := newSubscriptionID s1\<rparr> in
           GetStep Subscriptions (subscriptionPath (sub_Space s) (sub_ID s)) (\<lambda>r. case r of
             Inr _ \<Rightarrow> Done (Some (ErrSubscriptionAlreadyExists (sub_ID s)))
           | Inl _ \<Rightarrow> conflict_steps pick s (\<lambda>a. case a of
               Some e \<Rightarrow> Done (Some e)
             | None \<Rightarrow> get_event_type (sub_Space s) (sub_EventType s) (\<lambda>r. case r of
                 Inl e \<Rightarrow> Done (Some e)
               | Inr _ \<Rightarrow> get_function E (sub_Space s) (sub_FunctionID s) (\<lambda>r. case r of
                   Inl e \<Rightarrow> Done (Some e)
                 | Inr _ \<Rightarrow> create_steps Subscriptions (subscriptionPath (sub_Space s) (sub_ID s))
                     (Doc (subscription_json s))))))))"

definition UpdateSubscription_steps :: "env \<Rightarrow> string \<Rightarrow> subscription \<Rightarrow> svc_error option steps" where
  "UpdateSubscription_steps E i s0 =
     (case validateSubscription E s0 of
        Inl e \<Rightarrow> Done (Some e)
      | Inr s \<Rightarrow> get_subscription (sub_Space s) i (\<lambda>r. case r of
          Inl e \<Rightarrow> Done (Some e)
        | Inr old \<Rightarrow>
            (case validateSubscriptionUpdate s old of
               Some e \<Rightarrow> Done (Some e)
             | None \<Rightarrow> get_function E (sub_Space s) (sub_FunctionID s) (\<lambda>r. case r of
                 Inl e \<Rightarrow> Done (Some e)
               | Inr _ \<Rightarrow> put_steps Subscriptions (subscriptionPath (sub_Space s) (sub_ID s))
                   (Doc (subscription_json s))))))"

definition DeleteSubscription_steps :: "string \<Rightarrow> string \<Rightarrow> svc_error option steps" where
  "DeleteSubscription_steps sp i =
     get_subscription sp i (\<lambda>r. case r of
       Inl e \<Rightarrow> Done (Some e)
     | Inr s \<Rightarrow> delete_steps Subscriptions (subscriptionPath sp i) (ErrSubscriptionNotFound (sub_ID s)))"

definition CreateCORS_steps :: "env \<Rightarrow> cors \<Rightarrow> svc_error option steps" where
  "CreateCORS_steps E c0 =
     (case validateCORS E c0 of
        Inl e \<Rightarrow> Done (Some e)
      | Inr c1 \<Rightarrow>
          (let c = c1\<lparr>cors_ID := newCORSID c1\<rparr> in
           GetStep CORSes (CORSKey (cors_Space c) (cors_ID c)) (\<lambda>r. case r of
             Inr _ \<Rightarrow> Done (Some (ErrCORSAlreadyExists (cors_ID c)))
           | Inl _ \<Rightarrow> put_steps CORSes (CORSKey (cors_Space c) (cors_ID c)) (Doc (cors_json c)))))"

definition UpdateCORS_steps :: "env \<Rightarrow> cors \<Rightarrow> svc_error option steps" where
  "UpdateCORS_steps E c0 =
     (case validateCORS E c0 of
        Inl e \<Rightarrow> Done (Some e)
      | Inr c \<Rightarrow> get_cors (cors_Space c) (cors_ID c) (\<lambda>r. case r of
          Inl e \<Rightarrow> Done (Some e)
        | Inr old \<Rightarrow>
            (case validateCORSUpdate c old of
               Some e \<Rightarrow> Done (Some e)
             | None \<Rightarrow> put_steps CORSes (CORSKey (cors_Space c) (cors_ID c)) (Doc (cors_json c)))))"

definition DeleteCORS_steps :: "string \<Rightarrow> string \<Rightarrow> svc_error option steps" where
  "DeleteCORS_steps sp i = delete_steps CORSes (CORSKey sp i) (ErrCORSNotFound i)"

fun request_steps :: "(nat \<Rightarrow> nat) \<Rightarrow> env \<Rightarrow> request \<Rightarrow> svc_error option steps" where
  "request_steps pick E (CreateEventTypeReq t) = CreateEventType_steps E t"
| "request_steps pick E (UpdateEventTypeReq t) = UpdateEventType_steps E t"
| "request_steps pick E (DeleteEventTypeReq sp n) = DeleteEventType_steps sp n"
| "request_steps pick E (CreateFunctionReq f) = CreateFunction_steps E f"
| "request_steps pick E (UpdateFunctionReq f) = UpdateFunction_steps E f"
| "request_steps pick E (DeleteFunctionReq sp i) = DeleteFunction_steps sp i"
| "request_steps pick E (CreateSubscriptionReq s) = CreateSubscription_steps pick E s"
| "request_steps pick E (UpdateSubscriptionReq i s) = UpdateSubscription_steps E i (s\<lparr>sub_ID := i\<rparr>)"
| "request_steps pick E (DeleteSubscriptionReq sp i) = DeleteSubscription_steps sp i"
| "request_steps pick E (CreateCORSReq c) = CreateCORS_steps E c"
| "request_steps pick E (UpdateCORSReq c) = UpdateCORS_steps E c"
| "request_steps pick E (DeleteCORSReq sp i) = DeleteCORS_steps sp i"

subsection \<open>An operation that runs alone\<close>

definition outcome :: "(svc_error, 'a) res \<times> 'st \<Rightarrow> svc_error option \<times> 'st" where
  "outcome r = (case r of (Inl e, st) \<Rightarrow> (Some e, st) | (Inr _, st) \<Rightarrow> (None, st))"

named_theorems steps_defs \<open>the operations as sequences of store calls\<close>

declare CreateFunction_steps_def [steps_defs] UpdateFunction_steps_def [steps_defs]
  DeleteFunction_steps_def [steps_defs] CreateEventType_steps_def [steps_defs]
  UpdateEventType_steps_def [steps_defs] DeleteEventType_steps_def [steps_defs]
  CreateSubscription_steps_def [steps_defs] UpdateSubscription_steps_def [steps_defs]
  DeleteSubscription_steps_def [steps_defs] CreateCORS_steps_def [steps_defs]
  UpdateCORS_steps_def [steps_defs] DeleteCORS_steps_def [steps_defs]
  Let_def [steps_defs]

lemma exec_reads [simp]:
  "exec svc (get_function E sp i c) st = exec svc (c (GetFunction E svc sp i st)) st"
  "exec svc (get_event_type sp n ce) st = exec svc (ce (GetEventType svc sp n st)) st"
  "exec svc (get_subscription sp i cs) st = exec svc (cs (GetSubscription svc sp i st)) st"
  "exec svc (get_cors sp i cc) st = exec svc (cc (GetCORS svc sp i st)) st"
  "exec svc (list_subscriptions sp ls) st = exec svc (ls (ListSubscriptions svc sp [] st)) st"
  "exec svc (list_event_types sp le) st = exec svc (le (ListEventTypes svc sp [] st)) st"
  by (simp_all add: get_function_def get_event_type_def get_subscription_def get_cors_def
      list_subscriptions_def list_event_types_def GetFunction_def GetEventType_def GetSubscription_def
      GetCORS_def ListSubscriptions_def ListEventTypes_def)

lemma exec_checks [simp]:
  "exec svc (authorizer_steps E t g) st = exec svc (g (check_authorizer E svc t st)) st"
  "exec svc (conflict_steps pick s g) st = exec svc (g (if sub_Type s = TypeSync
     then checkForPathConflict pick svc (sub_Space s) (sub_Method s) (sub_Path s) (sub_EventType s) st
     else None)) st"
  by (simp_all add: authorizer_steps_def check_authorizer_def conflict_steps_def
      checkForPathConflict_def split: option.split)

lemma exec_writes [simp]:
  "exec svc (create_steps d k v) st = (case kv_AtomicPut (store_of svc d) k v None st of
     (Inl e, st') \<Rightarrow> (Some (StoreError e), st') | (Inr _, st') \<Rightarrow> (None, st'))"
  "exec svc (put_steps d k v) st = (case kv_Put (store_of svc d) k v st of
     (Some e, st') \<Rightarrow> (Some (StoreError e), st') | (None, st') \<Rightarrow> (None, st'))"
  "exec svc (delete_steps d k x) st = (case kv_Delete (store_of svc d) k st of
     (Some _, st') \<Rightarrow> (Some x, st') | (None, st') \<Rightarrow> (None, st'))"
  by (simp_all add: create_steps_def put_steps_def delete_steps_def split: prod.split sum.split option.split)

lemma exec_functions:
  "exec svc (CreateFunction_steps E f) st = outcome (CreateFunction E svc f st)"
  "exec svc (UpdateFunction_steps E f) st = outcome (UpdateFunction E svc f st)"
  "exec svc (DeleteFunction_steps sp i) st = DeleteFunction svc sp i st"
  by (simp_all add: steps_defs outcome_def CreateFunction_def UpdateFunction_def DeleteFunction_def
      split: sum.split option.split prod.split)

lemma exec_event_types:
  "exec svc (CreateEventType_steps E t) st = outcome (CreateEventType E svc t st)"
  "exec svc (UpdateEventType_steps E t) st = outcome (UpdateEventType E svc t st)"
  "exec svc (DeleteEventType_steps sp n) st = DeleteEventType svc sp n st"
  by (simp_all add: steps_defs outcome_def CreateEventType_def UpdateEventType_def DeleteEventType_def
      split: sum.split option.split prod.split)

lemma exec_subscriptions:
  "exec svc (CreateSubscription_steps pick E s) st = outcome (CreateSubscription pick E svc s st)"
  "exec svc (UpdateSubscription_steps E i s) st = outcome (UpdateSubscription E svc i s st)"
  "exec svc (DeleteSubscription_steps sp i) st = DeleteSubscription svc sp i st"
  by (simp_all add: steps_defs outcome_def CreateSubscription_def UpdateSubscription_def
      DeleteSubscription_def split: sum.split option.split prod.split)

lemma exec_cors:
  "exec svc (CreateCORS_steps E c) st = outcome (CreateCORS E svc c st)"
  "exec svc (UpdateCORS_steps E c) st = outcome (UpdateCORS E svc c st)"
  "exec svc (DeleteCORS_steps sp i) st = DeleteCORS svc sp i st"
  by (simp_all add: steps_defs outcome_def CreateCORS_def UpdateCORS_def DeleteCORS_def
      split: sum.split option.split prod.split)

lemmas exec_operations = exec_functions exec_event_types exec_subscriptions exec_cors

lemma snd_outcome [simp]: "snd (outcome r) = snd r"
  by (simp add: outcome_def split: prod.split sum.split)

lemma exec_request: "snd (exec svc (request_steps pick E q) st) = perform pick E svc q st"
  by (cases q) (simp_all add: exec_operations)

subsection \<open>Interleaved operations\<close>

text \<open>Operation \<open>i\<close> of the list makes its next call; an index out of range and an operation that is
  done change nothing.\<close>

fun interleave :: "('st, 'h) service \<Rightarrow> nat list \<Rightarrow> 'a steps list \<Rightarrow> 'st \<Rightarrow> 'a steps list \<times> 'st" where
  "interleave svc [] ps st = (ps, st)"
| "interleave svc (i # is) ps st =
     (if i < length ps
      then case one_step svc (ps ! i) st of (p, st') \<Rightarrow> interleave svc is (ps[i := p]) st'
      else interleave svc is ps st)"

lemma interleave_append:
  "interleave svc (is @ js) ps st = (case interleave svc is ps st of (qs, st') \<Rightarrow> interleave svc js qs st')"
  by (induction svc "is" ps st rule: interleave.induct) (auto split: prod.split)

lemma interleave_length: "interleave svc is ps st = (qs, st') \<Longrightarrow> length qs = length ps"
  by (induction svc "is" ps st rule: interleave.induct) (auto split: prod.splits if_splits)

text \<open>What every call keeps is kept by every schedule.\<close>

lemma interleave_invariant:
  assumes "\<And>ps st i p st'. I ps st \<Longrightarrow> i < length ps \<Longrightarrow> one_step svc (ps ! i) st = (p, st') \<Longrightarrow>
      I (ps[i := p]) st'"
    and "I ps st" and "interleave svc is ps st = (qs, st')"
  shows "I qs st'"
  using assms(2,3)
proof (induction "is" arbitrary: ps st)
  case (Cons i "is")
  then show ?case
    by (cases "one_step svc (ps ! i) st") (auto split: if_splits dest: assms(1))
qed simp

subsection \<open>An operation that runs for a while alone\<close>

lemma exec_one_step: "exec svc p st = (case one_step svc p st of (p', st') \<Rightarrow> exec svc p' st')"
  by (cases p) (simp_all split: prod.split)

lemma steps_call_induct [case_names Done Call]:
  assumes "\<And>a. P (Done a)"
    and "\<And>p. (\<forall>a. p \<noteq> Done a) \<Longrightarrow> (\<And>st. P (fst (one_step svc p st))) \<Longrightarrow> P p"
  shows "P p"
  by (induction p; rule assms) (auto split: prod.split)

lemma run_to_end:
  "i < length ps \<Longrightarrow> exec svc (ps ! i) st = (a, st') \<Longrightarrow>
   \<exists>is. interleave svc is ps st = (ps[i := Done a], st')"
proof (induction p \<equiv> "ps ! i" arbitrary: ps st rule: steps_call_induct [of _ svc])
  case (Done b)
  then have "interleave svc [] ps st = (ps[i := Done a], st')"
    by (metis exec.simps(1) interleave.simps(1) list_update_id prod.inject)
  then show ?case ..
next
  case Call
  obtain p1 st1 where p: "one_step svc (ps ! i) st = (p1, st1)" by fastforce
  then have "exec svc (ps[i := p1] ! i) st1 = (a, st')"
    using Call.prems exec_one_step [of svc "ps ! i" st] by simp
  then obtain "is" where "interleave svc is (ps[i := p1]) st1 = (ps[i := p1, i := Done a], st')"
    using Call.hyps(2) [of st "ps[i := p1]" st1] Call.prems(1) p by auto
  then have "interleave svc (i # is) ps st = (ps[i := Done a], st')" using p Call.prems(1) by simp
  then show ?case ..
qed

text \<open>What is left of an operation when it is about to write.\<close>

primrec before_write :: "('st, 'h) service \<Rightarrow> 'a steps \<Rightarrow> 'st \<Rightarrow> 'a steps" where
  "before_write svc (Done a) = (\<lambda>st. Done a)"
| "before_write svc (GetStep d k c) = (\<lambda>st. before_write svc (c (kv_Get (store_of svc d) k st)) st)"
| "before_write svc (ListStep d k c) = (\<lambda>st. before_write svc (c (kv_List (store_of svc d) k st)) st)"
| "before_write svc (PutStep d k v c) = (\<lambda>st. PutStep d k v c)"
| "before_write svc (CreateStep d k v c) = (\<lambda>st. CreateStep d k v c)"
| "before_write svc (DeleteStep d k c) = (\<lambda>st. DeleteStep d k c)"

lemma exec_before_write [simp]: "exec svc (before_write svc p st) st = exec svc p st"
  by (induction p) simp_all

lemma run_to_write:
  "i < length ps \<Longrightarrow> \<exists>is. interleave svc is ps st = (ps[i := before_write svc (ps ! i) st], st)"
proof (induction p \<equiv> "ps ! i" arbitrary: ps rule: steps_call_induct [of _ svc])
  case (Done b)
  then have "interleave svc [] ps st = (ps[i := before_write svc (ps ! i) st], st)"
    by (metis before_write.simps(1) interleave.simps(1) list_update_id)
  then show ?case ..
next
  case Call
  obtain p1 st1 where p: "one_step svc (ps ! i) st = (p1, st1)" by fastforce
  show ?case
  proof (cases "before_write svc (ps ! i) st = ps ! i")
    case True
    then have "interleave svc [] ps st = (ps[i := before_write svc (ps ! i) st], st)" by simp
    then show ?thesis ..
  next
    case False
    then have "st1 = st" "before_write svc (ps ! i) st = before_write svc p1 st"
      using p by (cases "ps ! i"; auto)+
    moreover obtain "is" where
      "interleave svc is (ps[i := p1]) st = (ps[i := p1, i := before_write svc p1 st], st)"
      using Call.hyps(2) [of st "ps[i := p1]"] Call.prems p by auto
    ultimately have "interleave svc (i # is) ps st = (ps[i := before_write svc (ps ! i) st], st)"
      using p Call.prems by simp
    then show ?thesis ..
  qed
qed

text \<open>One operation is overtaken by another between its checks and its write.\<close>

lemma overtaken:
  assumes "exec svc q st = (b, st1)" and "exec svc (before_write svc p st) st1 = (a, st2)"
  shows "\<exists>is. interleave svc is [p, q] st = ([Done a, Done b], st2)"
proof -
  obtain i1 where 1: "interleave svc i1 [p, q] st = ([before_write svc p st, q], st)"
    using run_to_write [of 0 "[p, q]" svc st] by auto
  obtain i2 where 2: "interleave svc i2 [before_write svc p st, q] st = ([before_write svc p st, Done b], st1)"
    using run_to_end [of 1 "[before_write svc p st, q]" svc st b st1] assms(1) by auto
  obtain i3 where 3: "interleave svc i3 [before_write svc p st, Done b] st1 = ([Done a, Done b], st2)"
    using run_to_end [of 0 "[before_write svc p st, Done b]" svc st1 a st2] assms(2) by auto
  have "interleave svc (i1 @ i2 @ i3) [p, q] st = ([Done a, Done b], st2)"
    by (simp add: interleave_append 1 2 3)
  then show ?thesis ..
qed

subsection \<open>Every entry stays valid\<close>

text \<open>What an entry satisfies by itself: the part of the invariant of theory Integrity that does not
  refer to other entries.\<close>

fun entry_ok :: "env \<Rightarrow> kind \<Rightarrow> string \<Rightarrow> blob \<Rightarrow> bool" where
  "entry_ok E EventTypes k b \<longleftrightarrow> (\<exists>t. b = Doc (event_type_json t) \<and>
     k = EventTypeKey (et_Space t) (et_Name t) \<and> name_chars (et_Space t))"
| "entry_ok E Functions k b \<longleftrightarrow> (\<exists>f. b = Doc (func_json f) \<and>
     k = FunctionKey (fn_Space f) (fn_ID f) \<and> name_chars (fn_Space f) \<and> name_chars (fn_ID f))"
| "entry_ok E Subscriptions k b \<longleftrightarrow> (\<exists>s. b = Doc (subscription_json s) \<and>
     k = subscriptionPath (sub_Space s) (sub_ID s) \<and> sub_ID s = newSubscriptionID s \<and> valid_sub E s)"
| "entry_ok E CORSes k b \<longleftrightarrow> (\<exists>c. b = Doc (cors_json c) \<and>
     k = CORSKey (cors_Space c) (cors_ID c) \<and> cors_ID c = newCORSID c \<and>
     name_chars (cors_Space c) \<and> abs_route (cors_Path c))"

text \<open>An operation writes valid entries, as long as what it reads is valid.\<close>

primrec writes_ok :: "(kind \<Rightarrow> string \<Rightarrow> blob \<Rightarrow> bool) \<Rightarrow> 'a steps \<Rightarrow> bool" where
  "writes_ok G (Done a) \<longleftrightarrow> True"
| "writes_ok G (GetStep d k c) \<longleftrightarrow> (\<forall>r. (\<forall>p. r = Inr p \<longrightarrow> G d k (Value p)) \<longrightarrow> writes_ok G (c r))"
| "writes_ok G (ListStep d k c) \<longleftrightarrow> (\<forall>r. writes_ok G (c r))"
| "writes_ok G (PutStep d k v c) \<longleftrightarrow> G d k v \<and> (\<forall>r. writes_ok G (c r))"
| "writes_ok G (CreateStep d k v c) \<longleftrightarrow> G d k v \<and> (\<forall>r. writes_ok G (c r))"
| "writes_ok G (DeleteStep d k c) \<longleftrightarrow> (\<forall>r. writes_ok G (c r))"

lemma writes_ok_writes [simp]:
  "writes_ok G (create_steps d k v) = G d k v" "writes_ok G (put_steps d k v) = G d k v"
  "writes_ok G (delete_steps d k e)"
  by (simp_all add: create_steps_def put_steps_def delete_steps_def)

lemma writes_ok_reads [intro!]:
  "(\<And>r. writes_ok G (cf r)) \<Longrightarrow> writes_ok G (get_function E sp i cf)"
  "(\<And>r. writes_ok G (ce r)) \<Longrightarrow> writes_ok G (get_event_type sp n ce)"
  "(\<And>r. writes_ok G (ls r)) \<Longrightarrow> writes_ok G (list_subscriptions sp ls)"
  "(\<And>r. writes_ok G (le r)) \<Longrightarrow> writes_ok G (list_event_types sp le)"
  "(\<And>r. writes_ok G (g r)) \<Longrightarrow> writes_ok G (authorizer_steps E t g)"
  "(\<And>r. writes_ok G (g r)) \<Longrightarrow> writes_ok G (conflict_steps pick s g)"
  by (simp_all add: get_function_def get_event_type_def list_subscriptions_def list_event_types_def
      authorizer_steps_def conflict_steps_def split: option.split)

lemma writes_ok_get_subscription:
  assumes "\<And>e. writes_ok G (c (Inl e))"
    and "\<And>b s. G Subscriptions (subscriptionPath sp i) b \<Longrightarrow> decode read_subscription b = Inr s \<Longrightarrow>
      writes_ok G (c (Inr s))"
  shows "writes_ok G (get_subscription sp i c)"
proof -
  have "writes_ok G (c (decode read_subscription b))" if "G Subscriptions (subscriptionPath sp i) b" for b
    using assms that by (cases "decode read_subscription b") auto
  then show ?thesis using assms(1) by (auto simp: get_subscription_def split: sum.split)
qed

lemma writes_ok_get_cors:
  assumes "\<And>e. writes_ok G (c (Inl e))"
    and "\<And>b x. G CORSes (CORSKey sp i) b \<Longrightarrow> decode read_cors b = Inr x \<Longrightarrow> writes_ok G (c (Inr x))"
  shows "writes_ok G (get_cors sp i c)"
proof -
  have "writes_ok G (c (decode read_cors b))" if "G CORSes (CORSKey sp i) b" for b
    using assms that by (cases "decode read_cors b") auto
  then show ?thesis using assms(1) by (auto simp: get_cors_def split: sum.split)
qed

text \<open>An update writes under the identifier that it has read.\<close>

lemma updated_subscription_ok:
  assumes "entry_ok E Subscriptions (subscriptionPath (sub_Space s) (sub_ID s)) b"
    and "decode read_subscription b = Inr old" and "validateSubscriptionUpdate s old = None" and "valid_sub E s"
  shows "entry_ok E Subscriptions (subscriptionPath (sub_Space s) (sub_ID s)) (Doc (subscription_json s))"
proof -
  have o: "subscriptionPath (sub_Space s) (sub_ID s) = subscriptionPath (sub_Space old) (sub_ID old)"
    "sub_ID old = newSubscriptionID old" "valid_sub E old"
    using assms(1,2) by auto
  then have "sub_ID s = sub_ID old"
    using assms(4) slash_key_inject [of "CHR ''/''" "sub_Space s" "sub_Space old"]
    by (simp add: key_defs valid_sub_def name_chars_no_slash)
  moreover have "newSubscriptionID s = newSubscriptionID old"
    using assms(3) by (simp add: validateSubscriptionUpdate_None newSubscriptionID_def)
  ultimately show ?thesis using o(2) assms(4) by auto
qed

lemma updated_cors_ok:
  assumes "entry_ok E CORSes (CORSKey (cors_Space c) (cors_ID c)) b"
    and "decode read_cors b = Inr old" and "validateCORSUpdate c old = None"
    and "name_chars (cors_Space c)" "abs_route (cors_Path c)"
  shows "entry_ok E CORSes (CORSKey (cors_Space c) (cors_ID c)) (Doc (cors_json c))"
proof -
  have o: "CORSKey (cors_Space c) (cors_ID c) = CORSKey (cors_Space old) (cors_ID old)"
    "cors_ID old = newCORSID old" "name_chars (cors_Space old)"
    using assms(1,2) by auto
  then have "cors_ID c = cors_ID old"
    using assms(4) slash_key_inject [of "CHR ''/''" "cors_Space c" "cors_Space old"]
    by (simp add: key_defs name_chars_no_slash)
  moreover have "newCORSID c = newCORSID old"
    using assms(3) by (simp add: validateCORSUpdate_def newCORSID_def split: if_splits)
  ultimately show ?thesis using o(2) assms(4,5) by auto
qed

lemma written_entries_ok:
  "name_chars (et_Space t) \<Longrightarrow> entry_ok E EventTypes (EventTypeKey (et_Space t) (et_Name t)) (Doc (event_type_json t))"
  "name_chars (fn_Space f) \<Longrightarrow> name_chars (fn_ID f) \<Longrightarrow>
   entry_ok E Functions (FunctionKey (fn_Space f) (fn_ID f)) (Doc (func_json f))"
  "valid_sub E s \<Longrightarrow> entry_ok E Subscriptions (subscriptionPath (sub_Space s) (newSubscriptionID s))
     (Doc (subscription_json (s\<lparr>sub_ID := newSubscriptionID s\<rparr>)))"
  "name_chars (cors_Space c) \<Longrightarrow> abs_route (cors_Path c) \<Longrightarrow>
   entry_ok E CORSes (CORSKey (cors_Space c) (newCORSID c)) (Doc (cors_json (c\<lparr>cors_ID := newCORSID c\<rparr>)))"
proof -
  show "name_chars (et_Space t) \<Longrightarrow>
      entry_ok E EventTypes (EventTypeKey (et_Space t) (et_Name t)) (Doc (event_type_json t))"
    by (auto intro: exI [of _ t])
  show "name_chars (fn_Space f) \<Longrightarrow> name_chars (fn_ID f) \<Longrightarrow>
      entry_ok E Functions (FunctionKey (fn_Space f) (fn_ID f)) (Doc (func_json f))"
    by (auto intro: exI [of _ f])
  show "valid_sub E s \<Longrightarrow> entry_ok E Subscriptions (subscriptionPath (sub_Space s) (newSubscriptionID s))
      (Doc (subscription_json (s\<lparr>sub_ID := newSubscriptionID s\<rparr>)))"
    by (auto intro: exI [of _ "s\<lparr>sub_ID := newSubscriptionID s\<rparr>"])
  show "name_chars (cors_Space c) \<Longrightarrow> abs_route (cors_Path c) \<Longrightarrow>
      entry_ok E CORSes (CORSKey (cors_Space c) (newCORSID c)) (Doc (cors_json (c\<lparr>cors_ID := newCORSID c\<rparr>)))"
    by (auto intro: exI [of _ "c\<lparr>cors_ID := newCORSID c\<rparr>"])
qed

lemma valid_cors: "validateCORS E c0 = Inr c \<Longrightarrow> name_chars (cors_Space c) \<and> abs_route (cors_Path c)"
  by (auto dest: validateCORS_Inr)

lemma request_writes_ok: "writes_ok (entry_ok E) (request_steps pick E q)"
proof (cases q)
  case (UpdateSubscriptionReq i s0)
  then show ?thesis
    by (auto simp: steps_defs split: sum.split option.split intro!: writes_ok_get_subscription
        dest!: validateSubscription_Inr simp del: entry_ok.simps)
      (rule updated_subscription_ok; assumption)
next
  case (UpdateCORSReq c0)
  then show ?thesis
    by (auto simp: steps_defs split: sum.split option.split intro!: writes_ok_get_cors
        dest!: valid_cors simp del: entry_ok.simps)
      (rule updated_cors_ok; assumption)
qed (auto simp: steps_defs split: sum.split option.split
    intro!: writes_ok_get_subscription written_entries_ok simp del: entry_ok.simps
    dest!: validateFunction_Inr validateEventType_Inr validateSubscription_Inr valid_cors)

subsection \<open>What one call changes\<close>

context config_stores
begin

fun held :: "kind \<Rightarrow> 'st \<Rightarrow> string \<Rightarrow> blob option" where
  "held EventTypes st = ec st"
| "held Functions st = fc st"
| "held Subscriptions st = sc st"
| "held CORSes st = cc st"

lemma held_Get: "kv_Get (store_of svc d) k st = Inr p \<Longrightarrow> held d st k = Some (Value p)"
  by (cases d) (auto dest: E.Get_found F.Get_found S.Get_found C.Get_found)

lemma held_view: "view st' = view st \<Longrightarrow> held d st' = held d st"
  by (cases d) (simp_all add: view_def)

text \<open>A write changes one entry of one store, or nothing.\<close>

lemma held_Put: "kv_Put (store_of svc d) k v st = (e, st') \<Longrightarrow>
    held d' st' = held d' st \<or> d' = d \<and> held d' st' = (held d st)(k \<mapsto> v)"
  by (cases d; cases d'; simp; drule put_E put_F put_S put_C; auto simp: view_def)

lemma held_Delete: "kv_Delete (store_of svc d) k st = (e, st') \<Longrightarrow>
    held d' st' = held d' st \<or> d' = d \<and> held d' st' = (held d st)(k := None)"
  by (cases d; cases d'; simp; drule del_E del_F del_S del_C; auto simp: view_def)

lemma held_Create_other: "kv_AtomicPut (store_of svc d) k v None st = (r, st') \<Longrightarrow> d' \<noteq> d \<Longrightarrow>
    held d' st' = held d' st"
  by (cases d; cases d'; simp)
    (auto dest!: E.AtomicPut_rest F.AtomicPut_rest S.AtomicPut_rest C.AtomicPut_rest)

lemma held_Create_same: "kv_AtomicPut (store_of svc d) k v None st = (r, st') \<Longrightarrow>
    held d st k = None \<and> held d st' = (held d st)(k \<mapsto> v) \<or> isl r \<and> held d st' = held d st"
  by (cases d; simp; drule E.AtomicPut F.AtomicPut S.AtomicPut C.AtomicPut; simp)

definition entries_ok :: "env \<Rightarrow> 'st \<Rightarrow> bool" where
  "entries_ok E st \<longleftrightarrow> (\<forall>d k b. held d st k = Some b \<longrightarrow> entry_ok E d k b)"

lemma entries_okD: "entries_ok E st \<Longrightarrow> held d st k = Some b \<Longrightarrow> entry_ok E d k b"
  by (simp add: entries_ok_def)

lemma entries_ok_written:
  assumes "entries_ok E st" and "entry_ok E d k v"
    and "\<And>d'. held d' st' = held d' st \<or> d' = d \<and> held d' st' = (held d st)(k \<mapsto> v)"
  shows "entries_ok E st'"
  unfolding entries_ok_def
proof (intro allI impI)
  fix d' k' b
  assume "held d' st' k' = Some b"
  then have "held d' st k' = Some b \<or> d' = d \<and> k' = k \<and> b = v"
    using assms(3) [of d'] by (auto simp: fun_upd_apply split: if_splits)
  then show "entry_ok E d' k' b" using assms(1,2) by (auto dest: entries_okD)
qed

lemma entries_ok_deleted:
  assumes "entries_ok E st"
    and "\<And>d'. held d' st' = held d' st \<or> d' = d \<and> held d' st' = (held d st)(k := None)"
  shows "entries_ok E st'"
  unfolding entries_ok_def
proof (intro allI impI)
  fix d' k' b
  assume "held d' st' k' = Some b"
  then have "held d' st k' = Some b"
    using assms(2) [of d'] by (auto simp: fun_upd_apply split: if_splits)
  then show "entry_ok E d' k' b" using assms(1) by (rule entries_okD [rotated])
qed

lemma one_step_writes_ok:
  assumes "one_step svc p st = (p', st')" and "writes_ok (entry_ok E) p" and "entries_ok E st"
  shows "writes_ok (entry_ok E) p' \<and> entries_ok E st'"
proof (cases p)
  case (GetStep d k c)
  then show ?thesis using assms by (auto dest!: held_Get intro: entries_okD simp del: entry_ok.simps)
next
  case (PutStep d k v c)
  then obtain e where e: "kv_Put (store_of svc d) k v st = (e, st')" "p' = c e"
    using assms(1) by (auto split: prod.splits)
  show ?thesis using assms(2) PutStep e(2) entries_ok_written [OF assms(3) _ held_Put [OF e(1)]] by simp
next
  case (CreateStep d k v c)
  then obtain r where r: "kv_AtomicPut (store_of svc d) k v None st = (r, st')" "p' = c r"
    using assms(1) by (auto split: prod.splits)
  have h: "held d' st' = held d' st \<or> d' = d \<and> held d' st' = (held d st)(k \<mapsto> v)" for d'
    using held_Create_other [OF r(1), of d'] held_Create_same [OF r(1)] by auto
  show ?thesis using assms(2) CreateStep r(2) entries_ok_written [OF assms(3) _ h] by simp
next
  case (DeleteStep d k c)
  then obtain e where e: "kv_Delete (store_of svc d) k st = (e, st')" "p' = c e"
    using assms(1) by (auto split: prod.splits)
  show ?thesis using assms(2) DeleteStep e(2) entries_ok_deleted [OF assms(3) held_Delete [OF e(1)]] by simp
qed (use assms in auto)

lemma interleave_entries_ok:
  assumes "entries_ok E st" and "interleave svc is (map (request_steps pick E) qs) st = (ps, st')"
  shows "entries_ok E st'"
proof -
  define I where "I = (\<lambda>(ps :: svc_error option steps list) st. (\<forall>p \<in> set ps. writes_ok (entry_ok E) p) \<and> entries_ok E st)"
  have step: "I (ps[i := p]) st'" if "I ps st" "i < length ps" "one_step svc (ps ! i) st = (p, st')"
    for ps :: "svc_error option steps list" and st i p st'
    using one_step_writes_ok [OF that(3), of E] that(1,2) set_update_subset_insert [of ps i p]
    by (auto simp: I_def)
  have "I (map (request_steps pick E) qs) st" using assms(1) by (auto simp: I_def request_writes_ok)
  with step have "I ps st'" by (rule interleave_invariant [OF _ _ assms(2)])
  then show ?thesis by (simp add: I_def)
qed

end

subsection \<open>At most one create succeeds\<close>

text \<open>\<open>pending d k\<close>: the operation can only succeed after a call that found the key \<open>k\<close> free and
  took it. \<open>keeps d k\<close>: the operation never deletes the key.\<close>

primrec pending :: "kind \<Rightarrow> string \<Rightarrow> svc_error option steps \<Rightarrow> bool" where
  "pending d k (Done a) \<longleftrightarrow> a \<noteq> None"
| "pending d k (GetStep d' k' c) \<longleftrightarrow> (\<forall>r. pending d k (c r))"
| "pending d k (ListStep d' k' c) \<longleftrightarrow> (\<forall>r. pending d k (c r))"
| "pending d k (PutStep d' k' v c) \<longleftrightarrow> (\<forall>r. pending d k (c r))"
| "pending d k (CreateStep d' k' v c) \<longleftrightarrow>
     (\<forall>r. isl r \<or> (d', k') \<noteq> (d, k) \<longrightarrow> pending d k (c r))"
| "pending d k (DeleteStep d' k' c) \<longleftrightarrow> (\<forall>r. pending d k (c r))"

primrec keeps :: "kind \<Rightarrow> string \<Rightarrow> 'a steps \<Rightarrow> bool" where
  "keeps d k (Done a) \<longleftrightarrow> True"
| "keeps d k (GetStep d' k' c) \<longleftrightarrow> (\<forall>r. keeps d k (c r))"
| "keeps d k (ListStep d' k' c) \<longleftrightarrow> (\<forall>r. keeps d k (c r))"
| "keeps d k (PutStep d' k' v c) \<longleftrightarrow> (\<forall>r. keeps d k (c r))"
| "keeps d k (CreateStep d' k' v c) \<longleftrightarrow> (\<forall>r. keeps d k (c r))"
| "keeps d k (DeleteStep d' k' c) \<longleftrightarrow> (d', k') \<noteq> (d, k) \<and> (\<forall>r. keeps d k (c r))"

text \<open>The key that a request creates, if it passes validation, and the key that it deletes.\<close>

fun creates :: "env \<Rightarrow> request \<Rightarrow> (kind \<times> string) option" where
  "creates E (CreateEventTypeReq t0) = (case validateEventType E t0 of Inl _ \<Rightarrow> None
     | Inr t \<Rightarrow> Some (EventTypes, EventTypeKey (et_Space t) (et_Name t)))"
| "creates E (CreateFunctionReq f0) = (case validateFunction E f0 of Inl _ \<Rightarrow> None
     | Inr f \<Rightarrow> Some (Functions, FunctionKey (fn_Space f) (fn_ID f)))"
| "creates E (CreateSubscriptionReq s0) = (case validateSubscription E s0 of Inl _ \<Rightarrow> None
     | Inr s \<Rightarrow> Some (Subscriptions, subscriptionPath (sub_Space s) (newSubscriptionID s)))"
| "creates E _ = None"

fun deletes :: "request \<Rightarrow> (kind \<times> string) option" where
  "deletes (DeleteEventTypeReq sp n) = Some (EventTypes, EventTypeKey sp n)"
| "deletes (DeleteFunctionReq sp i) = Some (Functions, FunctionKey sp i)"
| "deletes (DeleteSubscriptionReq sp i) = Some (Subscriptions, subscriptionPath sp i)"
| "deletes (DeleteCORSReq sp i) = Some (CORSes, CORSKey sp i)"
| "deletes _ = None"

lemmas read_defs = get_function_def get_event_type_def get_subscription_def get_cors_def
  list_subscriptions_def list_event_types_def authorizer_steps_def conflict_steps_def

lemmas write_defs = create_steps_def put_steps_def delete_steps_def

lemma request_pending: "creates E q = Some (d, k) \<Longrightarrow> pending d k (request_steps pick E q)"
  by (cases q) (auto simp: steps_defs read_defs write_defs split: sum.splits option.splits)

lemma request_keeps: "deletes q \<noteq> Some (d, k) \<Longrightarrow> keeps d k (request_steps pick E q)"
  by (cases q) (auto simp: steps_defs read_defs write_defs split: sum.splits option.splits)

context config_stores
begin

lemma one_step_keeps:
  assumes "one_step svc p st = (p', st')" and "keeps d k p"
  shows "keeps d k p' \<and> (held d st k \<noteq> None \<longrightarrow> held d st' k \<noteq> None)"
proof (cases p)
  case (PutStep d' k' v c)
  then obtain e where e: "kv_Put (store_of svc d') k' v st = (e, st')" "p' = c e"
    using assms(1) by (auto split: prod.splits)
  show ?thesis using assms(2) PutStep e(2) held_Put [OF e(1), of d] by auto
next
  case (CreateStep d' k' v c)
  then obtain r where r: "kv_AtomicPut (store_of svc d') k' v None st = (r, st')" "p' = c r"
    using assms(1) by (auto split: prod.splits)
  show ?thesis
    using assms(2) CreateStep r(2) held_Create_other [OF r(1), of d] held_Create_same [OF r(1)]
    by (cases "d = d'") auto
next
  case (DeleteStep d' k' c)
  then obtain e where e: "kv_Delete (store_of svc d') k' st = (e, st')" "p' = c e"
    using assms(1) by (auto split: prod.splits)
  show ?thesis using assms(2) DeleteStep e(2) held_Delete [OF e(1), of d] by auto
qed (use assms in auto)

lemma one_step_pending:
  assumes "one_step svc p st = (p', st')" and "pending d k p"
  shows "pending d k p' \<or> held d st k = None \<and> held d st' k \<noteq> None"
proof (cases p)
  case (CreateStep d' k' v c)
  then obtain r where r: "kv_AtomicPut (store_of svc d') k' v None st = (r, st')" "p' = c r"
    using assms(1) by (auto split: prod.splits)
  show ?thesis using assms(2) CreateStep r(2) held_Create_same [OF r(1)] by fastforce
qed (use assms in \<open>auto split: prod.splits\<close>)

text \<open>Of the operations \<open>A\<close>, at most one is no longer pending, and then the key is taken.\<close>

definition one_taker :: "kind \<Rightarrow> string \<Rightarrow> nat set \<Rightarrow> svc_error option steps list \<Rightarrow> 'st \<Rightarrow> bool" where
  "one_taker d k A ps st \<longleftrightarrow> (\<forall>p \<in> set ps. keeps d k p) \<and>
     (\<forall>i \<in> A. i < length ps \<and> \<not> pending d k (ps ! i) \<longrightarrow> held d st k \<noteq> None \<and>
        (\<forall>j \<in> A. j < length ps \<and> \<not> pending d k (ps ! j) \<longrightarrow> i = j))"

lemma one_taker_step:
  assumes "one_taker d k A ps st" and "i < length ps" and s: "one_step svc (ps ! i) st = (p, st')"
  shows "one_taker d k A (ps[i := p]) st'"
proof -
  have k: "keeps d k p" "held d st k \<noteq> None \<longrightarrow> held d st' k \<noteq> None"
    using one_step_keeps [OF s, of d k] assms(1,2) by (auto simp: one_taker_def)
  have "\<forall>q \<in> set (ps[i := p]). keeps d k q"
    using k(1) assms(1) set_update_subset_insert [of ps i p] by (auto simp: one_taker_def)
  moreover have "held d st' k \<noteq> None \<and>
      (\<forall>l \<in> A. l < length ps \<and> \<not> pending d k (ps[i := p] ! l) \<longrightarrow> j = l)"
    if j: "j \<in> A" "j < length ps" "\<not> pending d k (ps[i := p] ! j)" for j
  proof (cases "pending d k (ps ! i) \<and> \<not> pending d k p")
    case True
    then have n: "held d st k = None" "held d st' k \<noteq> None" using one_step_pending [OF s, of d k] by auto
    then have "\<forall>l \<in> A. l < length ps \<longrightarrow> pending d k (ps ! l)" using assms(1) by (auto simp: one_taker_def)
    then show ?thesis using n j by (metis nth_list_update_neq)
  next
    case False
    then have "\<not> pending d k (ps[i := p] ! l) \<longrightarrow> \<not> pending d k (ps ! l)" if "l < length ps" for l
      using assms(2) that by (cases "l = i") auto
    then show ?thesis using assms(1) j k(2) by (auto simp: one_taker_def)
  qed
  ultimately show ?thesis by (simp add: one_taker_def)
qed

lemma interleave_create_once:
  assumes "interleave svc is (map (request_steps pick E) qs) st = (ps, st')"
    and "\<forall>q \<in> set qs. deletes q \<noteq> Some (d, k)"
    and "i < length qs" "j < length qs" "creates E (qs ! i) = Some (d, k)" "creates E (qs ! j) = Some (d, k)"
    and "ps ! i = Done None" "ps ! j = Done None"
  shows "i = j"
proof -
  have l: "length ps = length qs" using interleave_length [OF assms(1)] by simp
  let ?A = "{i. i < length qs \<and> creates E (qs ! i) = Some (d, k)}"
  have "one_taker d k ?A (map (request_steps pick E) qs) st"
    using assms(2) by (auto simp: one_taker_def request_keeps request_pending)
  with one_taker_step have "one_taker d k ?A ps st'" by (rule interleave_invariant [OF _ _ assms(1)])
  moreover have "i \<in> ?A" "j \<in> ?A" "\<not> pending d k (ps ! i)" "\<not> pending d k (ps ! j)"
    using assms(3-8) by simp_all
  ultimately show ?thesis using l assms(3,4) by (auto simp: one_taker_def)
qed

end

subsection \<open>Every request is answered\<close>

text \<open>\<open>at_most p n\<close>: the operation makes at most \<open>n\<close> calls, whatever it is answered.\<close>

primrec at_most :: "'a steps \<Rightarrow> nat \<Rightarrow> bool" where
  "at_most (Done a) n \<longleftrightarrow> True"
| "at_most (GetStep d k c) n \<longleftrightarrow> 0 < n \<and> (\<forall>r. at_most (c r) (n - 1))"
| "at_most (ListStep d k c) n \<longleftrightarrow> 0 < n \<and> (\<forall>r. at_most (c r) (n - 1))"
| "at_most (PutStep d k v c) n \<longleftrightarrow> 0 < n \<and> (\<forall>r. at_most (c r) (n - 1))"
| "at_most (CreateStep d k v c) n \<longleftrightarrow> 0 < n \<and> (\<forall>r. at_most (c r) (n - 1))"
| "at_most (DeleteStep d k c) n \<longleftrightarrow> 0 < n \<and> (\<forall>r. at_most (c r) (n - 1))"

lemma at_most_0 [simp]: "at_most p 0 \<longleftrightarrow> (\<exists>a. p = Done a)"
  by (cases p) auto

lemma one_step_at_most: "one_step svc p st = (p', st') \<Longrightarrow> at_most p n \<Longrightarrow> at_most p' (n - 1)"
  by (cases p) (auto split: prod.splits)

lemma request_at_most: "at_most (request_steps pick E q) 5"
  by (cases q) (auto simp: steps_defs read_defs write_defs split: sum.split option.split)

lemma interleave_at_most:
  "i < length ps \<Longrightarrow> at_most (ps ! i) n \<Longrightarrow> interleave svc is ps st = (qs, st') \<Longrightarrow>
   at_most (qs ! i) (n - count_list is i)"
proof (induction "is" arbitrary: ps st n)
  case (Cons j "is")
  show ?case
  proof (cases "j < length ps")
    case True
    obtain p st1 where p: "one_step svc (ps ! j) st = (p, st1)" by fastforce
    with Cons.prems(3) True have "interleave svc is (ps[j := p]) st1 = (qs, st')" by simp
    moreover have "at_most (ps[j := p] ! i) (n - (if i = j then 1 else 0))"
      using one_step_at_most [OF p] Cons.prems(1,2) by (cases "i = j") simp_all
    ultimately have "at_most (qs ! i) (n - (if i = j then 1 else 0) - count_list is i)"
      using Cons.IH [of "ps[j := p]"] Cons.prems(1) by (metis length_list_update)
    then show ?thesis by (cases "i = j") simp_all
  next
    case False
    then show ?thesis using Cons by auto
  qed
qed simp

end
