(* ===== verification/Races.thy ===== *)
theory Races
  imports Interleaving
begin

section \<open>What concurrent requests can and cannot do\<close>

text \<open>
  The properties of theory Interleaving for the service that \<^verbatim>\<open>main\<close> builds. What one call of
  the store guards is safe under every schedule: entries stay valid and a key is created once.
  What an operation checks with one call and relies on with the next is not: between its last
  check and its write an operation can be overtaken.
\<close>

subsection \<open>Operations that are about to write\<close>

lemma before_write_reads [simp]:
  "before_write svc (get_function E sp i c) st = before_write svc (c (GetFunction E svc sp i st)) st"
  "before_write svc (get_event_type sp n ce) st = before_write svc (ce (GetEventType svc sp n st)) st"
  "before_write svc (list_subscriptions sp ls) st = before_write svc (ls (ListSubscriptions svc sp [] st)) st"
  "before_write svc (list_event_types sp le) st = before_write svc (le (ListEventTypes svc sp [] st)) st"
  by (simp_all add: get_function_def get_event_type_def list_subscriptions_def list_event_types_def
      GetFunction_def GetEventType_def ListSubscriptions_def ListEventTypes_def)

lemma before_write_checks [simp]:
  "before_write svc (conflict_steps pick s g) st = before_write svc (g (if sub_Type s = TypeSync
     then checkForPathConflict pick svc (sub_Space s) (sub_Method s) (sub_Path s) (sub_EventType s) st
     else None)) st"
  by (simp add: conflict_steps_def checkForPathConflict_def)

lemma before_write_writes [simp]:
  "before_write svc (create_steps d k v) st = create_steps d k v"
  "before_write svc (put_steps d k v) st = put_steps d k v"
  "before_write svc (delete_steps d k x) st = delete_steps d k x"
  by (simp_all add: write_defs)

text \<open>An operation that would succeed if it ran alone has passed its checks.\<close>

lemma DeleteEventType_before_write:
  "DeleteEventType svc sp n st = (None, st1) \<Longrightarrow>
   before_write svc (DeleteEventType_steps sp n) st =
     delete_steps EventTypes (EventTypeKey sp n) (ErrEventTypeNotFound n)"
  by (auto simp: DeleteEventType_def steps_defs split: sum.splits if_splits)

lemma DeleteFunction_before_write:
  "DeleteFunction svc sp i st = (None, st1) \<Longrightarrow>
   before_write svc (DeleteFunction_steps sp i) st =
     delete_steps Functions (FunctionKey sp i) (ErrFunctionNotFound i)"
  by (auto simp: DeleteFunction_def steps_defs split: sum.splits if_splits option.splits)

lemma CreateSubscription_before_write:
  "CreateSubscription pick E svc s0 st = (Inr s, st1) \<Longrightarrow>
   before_write svc (CreateSubscription_steps pick E s0) st =
     create_steps Subscriptions (subscriptionPath (sub_Space s) (sub_ID s)) (Doc (subscription_json s))"
  by (auto simp: CreateSubscription_def steps_defs split: sum.splits option.splits prod.splits)

lemma CreateCORS_before_write:
  "CreateCORS E svc c0 st = (Inr c, st1) \<Longrightarrow>
   before_write svc (CreateCORS_steps E c0) st =
     put_steps CORSes (CORSKey (cors_Space c) (cors_ID c)) (Doc (cors_json c))"
  by (auto simp: CreateCORS_def steps_defs split: sum.splits option.splits prod.splits)

context config_stores
begin

lemma aput_S_ok: "kv_AtomicPut (SubscriptionStore svc) k v None st = (Inr r, st') \<Longrightarrow>
    sc st k = None \<and> view st' = (ec st, fc st, (sc st)(k \<mapsto> v), cc st)"
  using S.AtomicPut_ok [of k v st r st'] S.AtomicPut_rest [of k v st "Inr r" st'] by (auto simp: view_def)

lemma put_C_ok: "kv_Put (CORSStore svc) k v st = (None, st') \<Longrightarrow>
    view st' = (ec st, fc st, sc st, (cc st)(k \<mapsto> v))"
  using C.Put_ok [of k v st st'] C.Put_rest [of k v st None st'] by (auto simp: view_def)

lemma CreateSubscription_done:
  "CreateSubscription pick E svc s0 st = (Inr s, st1) \<Longrightarrow>
   view st1 = (ec st, fc st, (sc st)(subscriptionPath (sub_Space s) (sub_ID s) \<mapsto> Doc (subscription_json s)), cc st) \<and>
   sc st (subscriptionPath (sub_Space s) (sub_ID s)) = None \<and>
   ec st (EventTypeKey (sub_Space s) (sub_EventType s)) \<noteq> None \<and>
   fc st (FunctionKey (sub_Space s) (sub_FunctionID s)) \<noteq> None"
  unfolding CreateSubscription_def Let_def
  by (auto split: sum.splits option.splits prod.splits dest!: aput_S_ok GetEventType_Inr GetFunction_Inr)

lemma CreateCORS_done:
  "CreateCORS E svc c0 st = (Inr c, st1) \<Longrightarrow>
   view st1 = (ec st, fc st, sc st, (cc st)(CORSKey (cors_Space c) (cors_ID c) \<mapsto> Doc (cors_json c)))"
  unfolding CreateCORS_def Let_def
  by (auto split: sum.splits option.splits prod.splits dest!: put_C_ok)

end

subsection \<open>Overtaken\<close>

context reliable_config_stores
begin

lemma held_Delete_ok:
  "held d st k \<noteq> None \<Longrightarrow> \<exists>st'. kv_Delete (store_of svc d) k st = (None, st') \<and> held d st' = (held d st)(k := None)"
  using RE.Delete_works [of st k] RF.Delete_works [of st k] RS.Delete_works [of st k] RC.Delete_works [of st k]
    E.Delete_ok [of k st] F.Delete_ok [of k st] S.Delete_ok [of k st] C.Delete_ok [of k st]
  by (cases d; cases "kv_Delete (store_of svc d) k st") auto

lemma held_Create_ok:
  "held d st k = None \<Longrightarrow>
   \<exists>r st'. kv_AtomicPut (store_of svc d) k v None st = (Inr r, st') \<and> held d st' = (held d st)(k \<mapsto> v)"
  using RE.AtomicPut_works [of st k v] RF.AtomicPut_works [of st k v] RS.AtomicPut_works [of st k v]
    RC.AtomicPut_works [of st k v] held_Create_same [of d k v st]
  by (cases d; cases "kv_AtomicPut (store_of svc d) k v None st"; cases "fst (kv_AtomicPut (store_of svc d) k v None st)") auto

lemma held_Put_ok:
  "\<exists>st'. kv_Put (store_of svc d) k v st = (None, st') \<and> held d st' = (held d st)(k \<mapsto> v)"
  using RE.Put_works [of k v st] RF.Put_works [of k v st] RS.Put_works [of k v st] RC.Put_works [of k v st]
    E.Put_ok [of k v st] F.Put_ok [of k v st] S.Put_ok [of k v st] C.Put_ok [of k v st]
  by (cases d; cases "kv_Put (store_of svc d) k v st") auto

lemma exec_delete_ok:
  "held d st k \<noteq> None \<Longrightarrow>
   \<exists>st'. exec svc (delete_steps d k x) st = (None, st') \<and> held d st' = (held d st)(k := None) \<and>
     (\<forall>d'. d' \<noteq> d \<longrightarrow> held d' st' = held d' st)"
  using held_Delete_ok [of d st k] held_Delete [of d k st None] by fastforce

lemma exec_create_ok:
  "held d st k = None \<Longrightarrow>
   \<exists>st'. exec svc (create_steps d k v) st = (None, st') \<and> held d st' = (held d st)(k \<mapsto> v) \<and>
     (\<forall>d'. d' \<noteq> d \<longrightarrow> held d' st' = held d' st)"
  using held_Create_ok [of d st k v] held_Create_other [of d k v st] by fastforce

lemma exec_put_ok:
  "\<exists>st'. exec svc (put_steps d k v) st = (None, st') \<and> held d st' = (held d st)(k \<mapsto> v) \<and>
     (\<forall>d'. d' \<noteq> d \<longrightarrow> held d' st' = held d' st)"
  using held_Put_ok [of d k v st] held_Put [of d k v st None] by fastforce

lemma delete_overtaken:
  assumes "CreateSubscription pick E svc s0 st = (Inr s, st1)"
    and "before_write svc p st = delete_steps d k x"
    and "d = EventTypes \<and> k = EventTypeKey (sub_Space s) (sub_EventType s) \<or>
      d = Functions \<and> k = FunctionKey (sub_Space s) (sub_FunctionID s)"
  shows "\<exists>is st2. interleave svc is [p, CreateSubscription_steps pick E s0] st = ([Done None, Done None], st2) \<and>
    stored_sub (sc st2) s \<and> held d st2 k = None"
proof -
  have v: "ec st1 = ec st" "fc st1 = fc st" "stored_sub (sc st1) s"
    "ec st (EventTypeKey (sub_Space s) (sub_EventType s)) \<noteq> None" "fc st (FunctionKey (sub_Space s) (sub_FunctionID s)) \<noteq> None"
    using CreateSubscription_done [OF assms(1)] by (auto simp: view_def stored_sub_def)
  then have "held d st1 k \<noteq> None" using assms(3) by auto
  then obtain st2 where st2: "exec svc (delete_steps d k x) st1 = (None, st2)" "held d st2 = (held d st1)(k := None)"
    "\<forall>d'. d' \<noteq> d \<longrightarrow> held d' st2 = held d' st1" using exec_delete_ok by blast
  have "exec svc (CreateSubscription_steps pick E s0) st = (None, st1)"
    by (simp add: exec_subscriptions outcome_def assms(1))
  then obtain "is" where
    "interleave svc is [p, CreateSubscription_steps pick E s0] st = ([Done None, Done None], st2)"
    using overtaken [of svc "CreateSubscription_steps pick E s0" st None st1 p None st2] assms(2) st2(1) by auto
  moreover have "stored_sub (sc st2) s" using st2(3) [rule_format, of Subscriptions] v(3) assms(3) by auto
  moreover have "held d st2 k = None" using st2(2) by simp
  ultimately show ?thesis by blast
qed

lemma creates_overtaken:
  assumes "CreateSubscription pick E svc s0 st = (Inr s, st1)" and "CreateSubscription pick E svc t0 st = (Inr t, st1')"
    and "subscriptionPath (sub_Space s) (sub_ID s) \<noteq> subscriptionPath (sub_Space t) (sub_ID t)"
  shows "\<exists>is st2. interleave svc is [CreateSubscription_steps pick E s0, CreateSubscription_steps pick E t0] st =
      ([Done None, Done None], st2) \<and> stored_sub (sc st2) s \<and> stored_sub (sc st2) t"
proof -
  let ?k = "subscriptionPath (sub_Space s) (sub_ID s)"
  have t: "stored_sub (sc st1') t" "held Subscriptions st1' ?k = None"
    using CreateSubscription_done [OF assms(1)] CreateSubscription_done [OF assms(2)] assms(3)
    by (auto simp: view_def stored_sub_def)
  then obtain st2 where st2: "exec svc (create_steps Subscriptions ?k (Doc (subscription_json s))) st1' = (None, st2)"
    "held Subscriptions st2 = (held Subscriptions st1')(?k \<mapsto> Doc (subscription_json s))"
    using exec_create_ok by blast
  have "exec svc (CreateSubscription_steps pick E t0) st = (None, st1')"
    by (simp add: exec_subscriptions outcome_def assms(2))
  then obtain "is" where "interleave svc is
      [CreateSubscription_steps pick E s0, CreateSubscription_steps pick E t0] st = ([Done None, Done None], st2)"
    using overtaken [of svc "CreateSubscription_steps pick E t0" st None st1' "CreateSubscription_steps pick E s0" None st2]
      CreateSubscription_before_write [OF assms(1)] st2(1) by auto
  moreover have "stored_sub (sc st2) s" "stored_sub (sc st2) t"
    using st2(2) t(1) assms(3) by (auto simp: stored_sub_def)
  ultimately show ?thesis by blast
qed

lemma cors_overtaken:
  assumes "CreateCORS E svc c0 st = (Inr c, st1)" and "CreateCORS E svc d0 st = (Inr d, st1')"
  shows "\<exists>is st2. interleave svc is [CreateCORS_steps E c0, CreateCORS_steps E d0] st = ([Done None, Done None], st2) \<and>
    cc st2 (CORSKey (cors_Space c) (cors_ID c)) = Some (Doc (cors_json c))"
proof -
  obtain st2 where st2:
    "exec svc (put_steps CORSes (CORSKey (cors_Space c) (cors_ID c)) (Doc (cors_json c))) st1' = (None, st2)"
    "held CORSes st2 = (held CORSes st1')(CORSKey (cors_Space c) (cors_ID c) \<mapsto> Doc (cors_json c))"
    using exec_put_ok by blast
  have "exec svc (CreateCORS_steps E d0) st = (None, st1')" by (simp add: exec_cors outcome_def assms(2))
  then obtain "is" where
    "interleave svc is [CreateCORS_steps E c0, CreateCORS_steps E d0] st = ([Done None, Done None], st2)"
    using overtaken [of svc "CreateCORS_steps E d0" st None st1' "CreateCORS_steps E c0" None st2]
      CreateCORS_before_write [OF assms(1)] st2(1) by auto
  moreover have "cc st2 (CORSKey (cors_Space c) (cors_ID c)) = Some (Doc (cors_json c))" using st2(2) by simp
  ultimately show ?thesis by blast
qed

end

subsection \<open>The service of main\<close>

fun part :: "kind \<Rightarrow> (string \<Rightarrow> blob option) \<Rightarrow> string \<Rightarrow> blob option" where
  "part EventTypes m = ET m"
| "part Functions m = FN m"
| "part Subscriptions m = SB m"
| "part CORSes m = CO m"

definition db_entries_ok :: "env \<Rightarrow> (string \<Rightarrow> blob option) \<Rightarrow> bool" where
  "db_entries_ok E m \<longleftrightarrow> (\<forall>d k b. part d m k = Some b \<longrightarrow> entry_ok E d k b)"

lemma main_held:
  assumes "kv_store kv contents rest"
  shows "config_stores.held (\<lambda>st. ET (contents st)) (\<lambda>st. FN (contents st)) (\<lambda>st. SB (contents st))
    (\<lambda>st. CO (contents st)) d st = part d (contents st)"
  by (cases d) (simp_all add: config_stores.held.simps [OF main_config_stores [OF assms]])

lemma db_ok_entries:
  assumes "db_ok E m"
  shows "db_entries_ok E m"
  unfolding db_entries_ok_def
proof (intro allI impI)
  fix d k b
  assume "part d m k = Some b"
  with assms show "entry_ok E d k b"
    unfolding db_ok_def config_ok_def event_types_ok_def functions_ok_def subscriptions_ok_def corses_ok_def
    by (cases d) (simp_all, blast+)
qed

lemma dangling_not_ok:
  assumes "stored_sub (SB m) s"
    and "ET m (EventTypeKey (sub_Space s) (sub_EventType s)) = None \<or>
      FN m (FunctionKey (sub_Space s) (sub_FunctionID s)) = None"
  shows "\<not> db_ok E m"
proof
  assume "db_ok E m"
  then obtain t where "Doc (subscription_json s) = Doc (subscription_json t)"
    "ET m (EventTypeKey (sub_Space t) (sub_EventType t)) \<noteq> None"
    "FN m (FunctionKey (sub_Space t) (sub_FunctionID t)) \<noteq> None"
    using assms(1) unfolding db_ok_def config_ok_def subscriptions_ok_def stored_sub_def by blast
  then show False using assms(2) subscription_json_inject [of s t] by auto
qed

lemma two_at_once:
  assumes "stored_sub m s" "stored_sub m t" "same_tree s t" "sub_ID s \<noteq> sub_ID t"
    and "\<not> compatible (sub_Path s) (sub_Path t)"
  shows "\<not> paths_ok m"
  using assms unfolding paths_ok_def by blast

subsection \<open>Safe under every schedule\<close>

text \<open>C14: However the calls of concurrent requests interleave, and whichever writes fail, every stored
  value stays a valid entity under its own key, with the identifier that belongs to its fields.
  An update that has read an entity writes a valid one even when the entity has been replaced
  or deleted in the meantime.\<close>

theorem concurrent_entries_stay_valid:
  assumes "kv_store kv contents rest" and "db_entries_ok E (contents st)"
  shows "db_entries_ok E
    (contents (snd (interleave (main_service kv) is (map (request_steps pick E) qs) st)))"
proof -
  note c = main_config_stores [OF assms(1)]
  show ?thesis
    using config_stores.interleave_entries_ok [OF c _ prod.collapse [symmetric], of E st "is" pick qs] assms(2)
    by (simp add: db_entries_ok_def config_stores.entries_ok_def [OF c] main_held [OF assms(1)])
qed

theorem concurrent_entries_stay_valid_witness:
  "db_entries_ok plain_env (map_of (snd (interleave (main_service mem_kv) [0, 1, 0, 1, 1]
     (map (request_steps (\<lambda>_. 0) plain_env) [CreateFunctionReq ex_func, CreateEventTypeReq ex_type]) ex_db1)))"
  by (rule concurrent_entries_stay_valid [OF mem.kv_store_axioms db_ok_entries [OF ex_db_ok(1)]])

text \<open>C15: Of any number of concurrent requests that create the same event type, function or
  subscription at most one succeeds, in whatever order their calls and those of other
  requests are made, as long as none of them deletes it.\<close>

theorem concurrent_create_once:
  assumes "kv_store kv contents rest"
    and "interleave (main_service kv) is (map (request_steps pick E) qs) st = (ps, st')"
    and "\<forall>q \<in> set qs. deletes q \<noteq> Some (d, k)"
    and "i < length qs" "j < length qs" "i \<noteq> j"
    and "creates E (qs ! i) = Some (d, k)" "creates E (qs ! j) = Some (d, k)" and "ps ! i = Done None"
  shows "ps ! j \<noteq> Done None"
  using config_stores.interleave_create_once [OF main_config_stores [OF assms(1)] assms(2,3,4,5,7,8,9)] assms(6)
  by blast

theorem concurrent_create_once_witness:
  "fst (interleave (main_service mem_kv) [0, 1, 0, 1]
     (map (request_steps (\<lambda>_. 0) plain_env) [CreateFunctionReq ex_func, CreateFunctionReq ex_func]) []) ! 1 \<noteq> Done None"
proof -
  let ?qs = "[CreateFunctionReq ex_func, CreateFunctionReq ex_func]"
  let ?r = "interleave (main_service mem_kv) [0, 1, 0, 1] (map (request_steps (\<lambda>_. 0) plain_env) ?qs) []"
  have r: "fst ?r ! 0 = Done None"
    by (simp add: CreateFunction_steps_def ex_valid create_steps_def mem_stores mem_ops)
  have c: "creates plain_env (?qs ! 0) = Some (Functions, FunctionKey (fn_Space ex_func') (fn_ID ex_func'))"
    "creates plain_env (?qs ! 1) = Some (Functions, FunctionKey (fn_Space ex_func') (fn_ID ex_func'))"
    by (simp_all add: ex_valid)
  show ?thesis
    by (rule concurrent_create_once [OF mem.kv_store_axioms prod.collapse [symmetric] _ _ _ _ c r]) simp_all
qed

subsection \<open>Between the check and the write\<close>

text \<open>C16: Deleting an event type or a function and creating a subscription to it at the same time
  can both succeed, whenever each would have succeeded alone: the deletion checks the
  subscriptions before the new one is written. The subscription then refers to nothing.\<close>

theorem concurrent_delete_dangles:
  assumes "reliable_kv_store kv contents rest"
    and "CreateSubscription pick E (main_service kv) s0 st = (Inr s, st1)"
    and "q = DeleteEventTypeReq (sub_Space s) (sub_EventType s) \<or>
      q = DeleteFunctionReq (sub_Space s) (sub_FunctionID s)"
    and "fst (exec (main_service kv) (request_steps pick E q) st) = None"
  shows "\<exists>is st2. interleave (main_service kv) is
      (map (request_steps pick E) [q, CreateSubscriptionReq s0]) st = ([Done None, Done None], st2) \<and>
    stored_sub (SB (contents st2)) s \<and> \<not> db_ok E (contents st2)"
proof -
  let ?svc = "main_service kv"
  note c = main_reliable_config_stores [OF assms(1)]
  note h = main_held [OF reliable_kv_store.axioms(1) [OF assms(1)]]
  obtain d k x where p: "before_write ?svc (request_steps pick E q) st = delete_steps d k x"
    and d: "d = EventTypes \<and> k = EventTypeKey (sub_Space s) (sub_EventType s) \<or>
      d = Functions \<and> k = FunctionKey (sub_Space s) (sub_FunctionID s)"
    using assms(3,4) DeleteEventType_before_write [of ?svc "sub_Space s" "sub_EventType s" st]
      DeleteFunction_before_write [of ?svc "sub_Space s" "sub_FunctionID s" st]
    by (cases "exec ?svc (request_steps pick E q) st") (auto simp: exec_operations)
  obtain "is" st2 where "interleave ?svc is [request_steps pick E q, CreateSubscription_steps pick E s0] st =
      ([Done None, Done None], st2)" "stored_sub (SB (contents st2)) s" "part d (contents st2) k = None"
    using reliable_config_stores.delete_overtaken [OF c assms(2) p d] by (auto simp: h)
  moreover from this have "\<not> db_ok E (contents st2)" using d by (intro dangling_not_ok) auto
  ultimately show ?thesis unfolding list.map request_steps.simps by blast
qed

lemma ex_delete_type:
  "fst (exec (main_service mem_kv) (request_steps (\<lambda>_. 0) plain_env (DeleteEventTypeReq ''default'' ''e'')) ex_db2) = None"
proof -
  have "ListSubscriptions (main_service mem_kv) ''default'' [] ex_db2 = Inr []"
    unfolding ListSubscriptions_def mem_stores Prefixed_List_def mem_ops prefixed_roots ex_db2_def ex_db1_def
    by (simp add: spacePath_def has_prefix_def list_entities_def)
  moreover have "fst (kv_Delete (EventTypeStore (main_service mem_kv)) (EventTypeKey ''default'' ''e'') ex_db2) = None"
    by (simp add: main_service_def NewPrefixed_def Let_def mem_ops prefixed_roots EventTypeKey_def
        ex_db2_def ex_db1_def)
  ultimately show ?thesis
    by (auto simp: exec_operations DeleteEventType_def split: prod.split option.split)
qed

theorem concurrent_delete_dangles_witness:
  "\<exists>is st2. interleave (main_service mem_kv) is (map (request_steps (\<lambda>_. 0) plain_env)
      [DeleteEventTypeReq ''default'' ''e'', CreateSubscriptionReq (ex_sub ''users/:id'')]) ex_db2 =
      ([Done None, Done None], st2) \<and>
    stored_sub (SB (map_of st2)) ex_sub_stored \<and> \<not> db_ok plain_env (map_of st2)"
proof (rule concurrent_delete_dangles [OF mem.reliable_kv_store_axioms ex_create_sub _ ex_delete_type])
  show "DeleteEventTypeReq ''default'' ''e'' = DeleteEventTypeReq (sub_Space ex_sub_stored) (sub_EventType ex_sub_stored) \<or>
      DeleteEventTypeReq ''default'' ''e'' = DeleteFunctionReq (sub_Space ex_sub_stored) (sub_FunctionID ex_sub_stored)"
    by (simp add: ex_sub_stored_def ex_sub'_def ex_sub_def)
qed

text \<open>Two sync subscriptions of one space, method and event type with conflicting paths, each of
  which would be accepted alone, can both be accepted when they are created at the same time.
  No routing tree can serve both of them.\<close>

theorem concurrent_creates_conflict:
  assumes "reliable_kv_store kv contents rest"
    and "CreateSubscription pick E (main_service kv) s0 st = (Inr s, st1)"
    and "CreateSubscription pick E (main_service kv) t0 st = (Inr t, st1')"
    and "same_tree s t" and "sub_ID s \<noteq> sub_ID t" and "\<not> compatible (sub_Path s) (sub_Path t)"
  shows "\<exists>is st2. interleave (main_service kv) is
      (map (request_steps pick E) [CreateSubscriptionReq s0, CreateSubscriptionReq t0]) st =
      ([Done None, Done None], st2) \<and> \<not> paths_ok (SB (contents st2))"
proof -
  have "subscriptionPath (sub_Space s) (sub_ID s) \<noteq> subscriptionPath (sub_Space t) (sub_ID t)"
    using assms(4,5) by (simp add: same_tree_def subscriptionPath_def)
  from reliable_config_stores.creates_overtaken [OF main_reliable_config_stores [OF assms(1)] assms(2,3) this]
  show ?thesis unfolding list.map request_steps.simps using two_at_once [OF _ _ assms(4,5,6)] by blast
qed

text \<open>The stored form of the example subscriptions.\<close>

definition ex_stored :: "string \<Rightarrow> subscription" where
  "ex_stored p = (let s = (ex_sub p)\<lparr>sub_Space := ''default'', sub_Method := ''GET''\<rparr> in
     s\<lparr>sub_ID := newSubscriptionID s\<rparr>)"

lemma ex_stored_fields [simp]:
  "sub_Space (ex_stored p) = ''default''" "sub_Type (ex_stored p) = ''sync''" "sub_EventType (ex_stored p) = ''e''"
  "sub_FunctionID (ex_stored p) = ''f''" "sub_Path (ex_stored p) = p" "sub_Method (ex_stored p) = ''GET''"
  by (simp_all add: ex_stored_def ex_sub_def Let_def)

lemma ex_stored_ID: "sub_ID (ex_stored p) = sub_ID (ex_stored q) \<longleftrightarrow> p = q"
proof -
  have "sub_ID (ex_stored r) = newSubscriptionID (ex_stored r)" for r by (simp add: ex_stored_def Let_def)
  then show ?thesis by (simp add: newSubscriptionID_inject)
qed

lemma ex_create_path:
  assumes "route_ok p"
  shows "\<exists>m. CreateSubscription (\<lambda>_. 0) plain_env (main_service mem_kv) (ex_sub p) ex_db2 = (Inr (ex_stored p), m)"
proof -
  have "p \<noteq> [] \<and> hd p = CHR ''/''" using assms by (cases p) (simp_all add: route_ok_def abs_route_def has_prefix_def)
  then obtain q where p: "p = ''/'' @ q" by (cases p) auto
  have v: "validateSubscription plain_env (ex_sub p) = Inr ((ex_sub p)\<lparr>sub_Space := ''default'', sub_Method := ''GET''\<rparr>)"
    by (simp add: validateSubscription_def ex_sub_def p plain_rules EnsurePrefix_def has_prefix_def
        http_methods_def ToUpper_get)
  have s: "ex_stored p = (ex_sub p)\<lparr>sub_Space := ''default'', sub_Method := ''GET'', sub_ID := newSubscriptionID
      ((ex_sub p)\<lparr>sub_Space := ''default'', sub_Method := ''GET''\<rparr>)\<rparr>"
    by (simp add: ex_stored_def Let_def)
  show ?thesis
    using main_mem.CreateSubscription_iff [OF ex_db_ok(2) [unfolded db_ok_def] _ v s, of "\<lambda>_. 0"] assms
    by (simp add: ex_no_subs ex_get_type ex_get_function stored_sub_def prod_eq_iff)
qed

theorem concurrent_creates_conflict_witness:
  "\<exists>is st2. interleave (main_service mem_kv) is (map (request_steps (\<lambda>_. 0) plain_env)
      [CreateSubscriptionReq (ex_sub ''/users/:id''), CreateSubscriptionReq (ex_sub ''/users/:name'')]) ex_db2 =
      ([Done None, Done None], st2) \<and> \<not> paths_ok (SB (map_of st2))"
proof -
  have r: "route_ok ''/users/:id''" "route_ok ''/users/:name''"
    by (simp_all add: route_ok_def abs_route_def toSegments_def is_wild_def)
  have c: "same_tree (ex_stored ''/users/:id'') (ex_stored ''/users/:name'')" by (simp add: same_tree_def)
  have i: "sub_ID (ex_stored ''/users/:id'') \<noteq> sub_ID (ex_stored ''/users/:name'')"
    using ex_stored_ID [of "''/users/:id''" "''/users/:name''"] by simp
  have n: "\<not> compatible (sub_Path (ex_stored ''/users/:id'')) (sub_Path (ex_stored ''/users/:name''))"
    by (simp add: compatible_def toSegments_def is_static_def is_param_def is_wild_def)
  obtain m m' where
    "CreateSubscription (\<lambda>_. 0) plain_env (main_service mem_kv) (ex_sub ''/users/:id'') ex_db2 =
      (Inr (ex_stored ''/users/:id''), m)"
    "CreateSubscription (\<lambda>_. 0) plain_env (main_service mem_kv) (ex_sub ''/users/:name'') ex_db2 =
      (Inr (ex_stored ''/users/:name''), m')"
    using ex_create_path [OF r(1)] ex_create_path [OF r(2)] by blast
  from concurrent_creates_conflict [OF mem.reliable_kv_store_axioms this c i n] show ?thesis .
qed

text \<open>Two CORS configurations of one method and path that are created at the same time can both be
  reported as created; the one that is written last replaces the other one.\<close>

theorem concurrent_cors_overwrites:
  assumes "reliable_kv_store kv contents rest"
    and "CreateCORS E (main_service kv) c0 st = (Inr c, st1)"
    and "CreateCORS E (main_service kv) d0 st = (Inr d, st1')"
    and "cors_Space c = cors_Space d" and "cors_ID c = cors_ID d"
  shows "\<exists>is st2. interleave (main_service kv) is
      (map (request_steps pick E) [CreateCORSReq c0, CreateCORSReq d0]) st = ([Done None, Done None], st2) \<and>
    CO (contents st2) (CORSKey (cors_Space d) (cors_ID d)) = Some (Doc (cors_json c))"
  using reliable_config_stores.cors_overtaken [OF main_reliable_config_stores [OF assms(1)] assms(2,3)]
  unfolding list.map request_steps.simps assms(4,5) .

subsection \<open>Answers\<close>

text \<open>C17: Concurrent requests wait for nothing: whatever the store answers and whatever the other
  requests do, a request is answered after at most five calls of the store of its own.\<close>

theorem concurrent_requests_answered:
  assumes "i < length qs" and "5 \<le> count_list is i"
  shows "\<exists>a. fst (interleave svc is (map (request_steps pick E) qs) st) ! i = Done a"
  using interleave_at_most [of i "map (request_steps pick E) qs" 5 svc "is" st, OF _ _ prod.collapse [symmetric]]
    assms by (simp add: request_at_most)

theorem concurrent_requests_answered_witness:
  "\<exists>a. fst (interleave (main_service mem_kv) [0, 1, 0, 1, 0, 1, 1, 0, 0, 1]
     (map (request_steps (\<lambda>_. 0) plain_env)
       [CreateSubscriptionReq (ex_sub ''users/:id''), DeleteFunctionReq ''default'' ''f'']) ex_db2) ! 0 = Done a"
  by (rule concurrent_requests_answered) simp_all

end
