(* ===== verification/Spec2Isabelle.thy ===== *)
theory Spec2Isabelle
  imports EndToEnd Metrics Startup Meters Races
begin

text \<open>
  The event gateway, verified: a library of theories on the Go program in \<^verbatim>\<open>src/\<close>.

  \<^bold>\<open>The program.\<close> One process serves two HTTP APIs. The \<^emph>\<open>configuration API\<close> (\<^verbatim>\<open>httpapi\<close>) registers
  event types, functions, subscriptions and CORS configurations through the services of
  \<^verbatim>\<open>libkv\<close>, which keep them as JSON documents in four prefixed directories of an etcd store
  (\<^verbatim>\<open>internal/store\<close>). Watchers (\<^verbatim>\<open>internal/cache\<close>) carry every change of the directories into caches
  in memory. The \<^emph>\<open>events API\<close> (\<^verbatim>\<open>router\<close>) looks only at those caches: it turns a request into a
  CloudEvent (\<^verbatim>\<open>event\<close>), finds the subscribers in trees of path segments (\<^verbatim>\<open>internal/pathtree\<close>), asks
  an authorizer function where the event type has one, calls the function of the sync subscriber
  through its provider (\<^verbatim>\<open>providers\<close>) and answers with what the function returns, and puts the
  event into a bounded backlog for every async subscriber, from which worker goroutines take it.
  On the way it emits system events, to which functions can subscribe as well, and plugins
  (\<^verbatim>\<open>plugin\<close>), which can stop an event. A guard (\<^verbatim>\<open>internal/sync\<close>) brings all parts down together.

  \<^bold>\<open>The theories, bottom up.\<close> Each one says at its beginning what it holds; definitions have the
  names of the code.
  \<^item> \<open>Prelude\<close>: the functions of Go's \<^verbatim>\<open>strings\<close>, \<^verbatim>\<open>internal/strings\<close>, sums as results, and the lemmas
    on lists, prefixes and maps that all proofs share. \<open>Encoding\<close>: \<^verbatim>\<open>url.PathEscape\<close> and base64,
    from which identifiers are built. \<open>Json\<close>: documents as trees and the reading of struct fields.
  \<^item> \<open>PathTree\<close>: \<^verbatim>\<open>internal/pathtree/tree.go\<close>; the tree as a datatype, \<open>AddRoute\<close>, \<open>DeleteRoute\<close>,
    \<open>Resolve\<close>, against a routing table (a map from patterns to values). \<open>PathConflict\<close>: which
    patterns can be in one tree, for \<^verbatim>\<open>checkForPathConflict\<close>.
  \<^item> \<open>Providers\<close> and \<open>ProviderCalls\<close>: \<^verbatim>\<open>providers/*\<close>, configurations, loaders, calls and log entries.
    \<open>Entities\<close>: \<^verbatim>\<open>event/type.go\<close>, \<^verbatim>\<open>function\<close>, \<^verbatim>\<open>subscription\<close>, \<^verbatim>\<open>subscription/cors\<close>, \<^verbatim>\<open>metadata\<close>.
  \<^item> \<open>KVStore\<close>: the libkv store as a record of operations, its contract as the locales \<open>kv_store\<close>
    and \<open>reliable_kv_store\<close>, \<^verbatim>\<open>internal/store/prefixed.go\<close> over it, and the four stores of one
    database as the locale \<open>config_stores\<close>. \<open>Services\<close>: every operation of \<^verbatim>\<open>libkv.Service\<close>.
    \<open>Effects\<close>, \<open>Integrity\<close>, \<open>Requests\<close>, \<open>ServiceFacts\<close>, \<open>ServiceProps\<close>: what an operation can have
    written, the invariants of the configuration, runs of requests, exact results, properties.
    \<open>Interleaving\<close>: the same operations as sequences of calls of the store, proved equal to those of
    \<open>Services\<close> when they run alone, and several of them interleaved by a schedule. \<open>Races\<close>: what
    holds under every schedule, and what does not.
  \<^item> \<open>Caches\<close>: \<^verbatim>\<open>internal/cache\<close>, the watcher, the four caches and the lookups of \<^verbatim>\<open>Target\<close>.
    \<open>CacheFacts\<close>, \<open>CacheProps\<close>: how they follow the database, and where they leave it.
  \<^item> \<open>Http\<close>: what is used of \<^verbatim>\<open>net/http\<close>. \<open>HTTPAPI\<close>: the twenty handlers of \<^verbatim>\<open>httpapi/httpapi.go\<close>.
    \<open>APIFacts\<close>, \<open>APIProps\<close>: requests to the API as requests to the services, properties.
  \<^item> \<open>Event\<close> and \<open>EventProps\<close>: \<^verbatim>\<open>event/event.go\<close>, \<^verbatim>\<open>http.go\<close>, \<^verbatim>\<open>system.go\<close>.
  \<^item> \<open>Router\<close>: \<^verbatim>\<open>router/router.go\<close>, \<^verbatim>\<open>path*.go\<close>, \<^verbatim>\<open>http.go\<close>, \<^verbatim>\<open>authorization.go\<close> and \<^verbatim>\<open>Manager.React\<close>, as
    functions on an explicit state that end in a value or in a panic. \<open>RouterFacts\<close>: relations that
    every step keeps (locale \<open>router_frame\<close>). \<open>RouterProps\<close>, \<open>RouterHazards\<close>: properties.
  \<^item> \<open>Workers\<close>: the goroutines of the backlog as a step relation. \<open>Process\<close>: the guard, the servers,
    the embedded etcd and \<^verbatim>\<open>main\<close> as a step relation. \<open>Startup\<close>: the flags, the logger, the start of the
    embedded etcd, what \<^verbatim>\<open>main\<close> sets up before the servers and tears down after them.
  \<^item> \<open>Plugins\<close>: \<^verbatim>\<open>plugin\<close>; the RPC client and server around a plugin, what gob can send, the start of the
    programs, the adapter of the log. A plugin of theory \<open>Router\<close> is any answer to the two calls; here
    it is one behind a connection.
  \<^item> \<open>Metrics\<close>: \<^verbatim>\<open>httpapi/metrics.go\<close> and what the handlers do to the gauges and the counter.
    \<open>Observing\<close>: \<^verbatim>\<open>router/wait.go\<close> and the times in \<^verbatim>\<open>router/metrics.go\<close>. \<open>Meters\<close>: the steps of theory
    \<open>Router\<close> once more with the metrics they update, each a function \<open>m_\<close> and its name; erasing the
    metrics gives the steps back, and quantities (locale \<open>meter_quantity\<close>) show what they count.
  \<^item> \<open>EndToEnd\<close>: the composition of the configuration API, the store, the watchers, the caches and the
    router.
\<close>

text \<open>
  \<^bold>\<open>What the lemmas show.\<close>
  \<^item> \<^emph>\<open>Routing.\<close> \<open>AddRoute\<close> accepts exactly the routes that clash with nothing, \<open>DeleteRoute\<close> removes
    exactly one, \<open>Resolve\<close> finds a value exactly when a pattern of the table matches; the order in
    which compatible routes are added is irrelevant.
  \<^item> \<^emph>\<open>Configuration.\<close> Every run of the services, failures of the store included, keeps the
    references between the entities intact; identifiers are unique; the paths of sync
    subscriptions stay compatible as long as lists do not fail (locale \<open>listing_config_stores\<close>; other calls
    may); what is created can be read back;
    lists are exact; guarded deletions. The same for every sequence of HTTP requests, and which of
    them can panic and what a client error leaves behind.
  \<^item> \<^emph>\<open>Caches.\<close> The watcher reports exactly the changes; the function cache holds what the
    sessions of its watcher told it, which in the first session is the directory; a stored sync
    subscription is found for every request that matches it, if the spaces do not clash.
  \<^item> \<^emph>\<open>Events.\<close> Every event made from a request is valid; the structured mode is a round trip;
    unauthorized events reach no function; refused requests have no effect; the answers to clients;
    the backlog is bounded.
  \<^item> \<^emph>\<open>Concurrency.\<close> Workers lose and double nothing; draining ends, and has processed everything
    when no request is in flight; the guard brings every part down. Concurrent configuration requests
    keep every entry valid, create a key once and are all answered; an operation can be overtaken
    between its checks and its write.
  \<^item> \<^emph>\<open>Plugins and metrics.\<close> A plugin behind a working connection behaves as one in the process, for
    events that can be sent; the gauges change by the number of entities that are stored; the router's
    metrics tell the length of the backlog and the number of dropped events.
  \<^item> \<^emph>\<open>End to end.\<close> A subscription stored through the configuration API makes the router call its
    function and answer with what it returns, when the caches come from snapshots of the store.
  \<^item> The places where the code does not do what it means to are theorems as well: updates that leave
    ghosts in the caches, deletions that are missed, routes whose nodes stay, authorizations that
    leak to other spaces, panics that a client can cause, a process that never drains, plain
    HTTP requests that a plugin stops without seeing them, dangling references and conflicting paths
    after concurrent requests.

  \<^bold>\<open>Assumptions.\<close> Text is a list of bytes; JSON text is identified with its tree where the sources
  only pass it on. The letter case of field names is folded in ASCII; messages of the JSON decoder
  are abridged to the field. The contract of a store (locale \<open>kv_store\<close>): a failed write changes
  nothing or takes effect, reads change nothing, other keys are left alone; \<open>answers_lists\<close> adds that
  lists do not fail and \<open>reliable_kv_store\<close> that no operation does. It is met by the store \<open>mem_kv\<close>, on which the examples run. The
  caches that a request or an event sees are those of one moment. The backlog has room for at least
  one event: a backlog of length 0 hands events straight to a waiting worker, which is not
  modelled (it counts as always full). A panic in a worker ends the process and with it the run.
  \<^verbatim>\<open>net/http\<close> stops a server that is told to shut down. Whether a nil logger panics is a parameter of
  theory \<open>Process\<close>. Every recursion is structural or has a measure, so no fuel is used; the
  relations of \<open>Workers\<close> and \<open>Process\<close> have their own proofs that runs end.

  \<^bold>\<open>Not modelled.\<close> The entries of the log (but what providers and entities write into it is); the registration
  and the help texts of the metrics; the levels of the log of the embedded etcd; the handshake of
  go-plugin. In theory \<open>Meters\<close> requests and turns of workers follow one another: while they
  overlap, the gauge of the backlog can be off by the events whose sender or receiver has not updated
  it yet. The HTTP layer of the configuration API (theory \<open>HTTPAPI\<close>) answers one request after the
  other; interleaved are the operations of the services below it, by single calls of the store.
  Requests to the events API are steps as well; only the backlog, where they meet the workers,
  is interleaved by single operations. Generated mocks, example functions and example plugins are
  no part of the gateway.
\<close>

end
